(* ===== verification/Prelude.thy ===== *)
theory Prelude
  imports Main "HOL-Library.AList" "HOL-Library.Product_Lexorder" "HOL-Library.List_Lexorder"
begin

text \<open>
  Shared vocabulary of the development. A Python \<open>str\<close> is the list of its code points
  (\<open>pystr\<close>), a literal is written \<open>lit ''...''\<close>. A Python \<open>dict\<close> is an association list in
  insertion order without duplicate keys (\<open>dict\<close>, \<open>dict_ok\<close>): assignment to a present key
  keeps its position, assignment to a new key appends, which is what \<open>AList.update\<close> does. An
  exception is a value of \<open>exn\<close>; a call that may raise returns \<open>exn + 'a\<close>. Timestamps are
  microseconds since the epoch, in UTC. The lemma collections \<open>dict_laws\<close> and \<open>sort_laws\<close>
  carry the proofs about stores and listings.
\<close>

named_theorems dict_laws "look-up, update and removal on insertion-ordered dictionaries"
named_theorems sort_laws "facts about stable sorting and slicing"

section \<open>Strings\<close>

type_synonym pystr = "nat list"

definition lit :: "string \<Rightarrow> pystr" where
  "lit s = map of_char s"

lemma lit_inj [simp]: "lit a = lit b \<longleftrightarrow> a = b"
  by (simp add: lit_def inj_map_eq_map inj_def)

lemma lit_Nil [simp]: "lit [] = []"
  by (simp add: lit_def)

lemma lit_eq_Nil [simp]: "lit s = [] \<longleftrightarrow> s = []"
  by (simp add: lit_def)

lemma length_lit [simp]: "length (lit s) = length s"
  by (simp add: lit_def)

lemma lit_append: "lit (a @ b) = lit a @ lit b"
  by (simp add: lit_def)

section \<open>Exceptions\<close>

text \<open>
  One constructor per exception class of the source that some caller catches by name; the
  argument is the message the class was raised with. \<open>OtherError\<close> is any exception of an
  adapter that callers only see through \<open>except Exception\<close>.
\<close>

datatype exn =
    KeyError pystr
  | ValueError pystr
  | TypeError pystr
  | IndexError pystr
  | UnknownTenantError pystr
  | OnboardingError pystr
  | AuthError pystr
  | BillingConflictError pystr
  | MercadoPagoError pystr
  | LLMError pystr
  | GatewayError pystr
  | AdapterError pystr
  | CryptoError pystr
  | UnsupportedFormatError pystr
  | SkillNotFoundError pystr
  | AttributeError pystr
  | RuntimeError pystr
  | HTTPException nat pystr
  | OtherError pystr

type_synonym 'a res = "exn + 'a"

text \<open>
  \<open>str(exc)\<close>: the message; \<open>KeyError\<close> and its subclasses print the repr of their argument,
  here for messages without quotes and control characters, which get single quotes. A message
  that contains single quotes and no double quote gets double quotes.
\<close>

definition quote_repr :: "pystr \<Rightarrow> pystr" where
  "quote_repr s = (let q = (if 39 \<in> set s \<and> 34 \<notin> set s then 34 else 39) in [q] @ s @ [q])"

fun exn_text :: "exn \<Rightarrow> pystr" where
  "exn_text (KeyError m) = quote_repr m"
| "exn_text (ValueError m) = m"
| "exn_text (TypeError m) = m"
| "exn_text (IndexError m) = m"
| "exn_text (UnknownTenantError m) = m"
| "exn_text (OnboardingError m) = m"
| "exn_text (AuthError m) = m"
| "exn_text (BillingConflictError m) = m"
| "exn_text (MercadoPagoError m) = m"
| "exn_text (LLMError m) = m"
| "exn_text (GatewayError m) = m"
| "exn_text (AdapterError m) = m"
| "exn_text (CryptoError m) = m"
| "exn_text (UnsupportedFormatError m) = m"
| "exn_text (SkillNotFoundError m) = quote_repr m"
| "exn_text (AttributeError m) = m"
| "exn_text (RuntimeError m) = m"
| "exn_text (HTTPException n m) = m"
| "exn_text (OtherError m) = m"

text \<open>Sequencing: the first exception is the result.\<close>

definition and_then :: "'a res \<Rightarrow> ('a \<Rightarrow> 'b res) \<Rightarrow> 'b res" where
  "and_then r f = (case r of Inl e \<Rightarrow> Inl e | Inr x \<Rightarrow> f x)"

lemma and_then_simps [simp]: "and_then (Inl e) f = Inl e" "and_then (Inr x) f = f x"
  by (simp_all add: and_then_def)

lemma and_then_Inr: "and_then r f = Inr y \<longleftrightarrow> (\<exists>x. r = Inr x \<and> f x = Inr y)"
  by (cases r) simp_all

section \<open>Dictionaries\<close>

type_synonym 'v dict = "(pystr \<times> 'v) list"

definition dict_ok :: "('k \<times> 'v) list \<Rightarrow> bool" where
  "dict_ok d \<longleftrightarrow> distinct (map fst d)"

definition dget :: "('k \<times> 'v) list \<Rightarrow> 'k \<Rightarrow> 'v option" where
  "dget d k = map_of d k"

definition dset :: "('k \<times> 'v) list \<Rightarrow> 'k \<Rightarrow> 'v \<Rightarrow> ('k \<times> 'v) list" where
  "dset d k v = AList.update k v d"

definition dpop :: "('k \<times> 'v) list \<Rightarrow> 'k \<Rightarrow> ('k \<times> 'v) list" where
  "dpop d k = AList.delete k d"

definition dvalues :: "('k \<times> 'v) list \<Rightarrow> 'v list" where
  "dvalues d = map snd d"

definition dkeys :: "('k \<times> 'v) list \<Rightarrow> 'k list" where
  "dkeys d = map fst d"

text \<open>\<open>d.get(k, default)\<close> and \<open>d | e\<close> (the right operand wins, new keys at the end).\<close>

definition dget_or :: "('k \<times> 'v) list \<Rightarrow> 'k \<Rightarrow> 'v \<Rightarrow> 'v" where
  "dget_or d k v = (case dget d k of None \<Rightarrow> v | Some x \<Rightarrow> x)"

definition dmerge :: "('k \<times> 'v) list \<Rightarrow> ('k \<times> 'v) list \<Rightarrow> ('k \<times> 'v) list" where
  "dmerge d e = fold (\<lambda>(k, v) acc. dset acc k v) e d"

lemma dget_Nil [simp]: "dget [] k = None"
  by (simp add: dget_def)

lemma dget_Cons [simp]: "dget ((a, v) # d) k = (if a = k then Some v else dget d k)"
  by (auto simp: dget_def)

lemma dget_dset [simp, dict_laws]: "dget (dset d k v) k' = (if k' = k then Some v else dget d k')"
  by (simp add: dget_def dset_def update_conv')

lemma dget_dpop [simp, dict_laws]: "dget (dpop d k) k' = (if k' = k then None else dget d k')"
  by (simp add: dget_def dpop_def delete_conv')

lemma dict_ok_Nil [simp, intro]: "dict_ok []"
  by (simp add: dict_ok_def)

lemma dict_ok_dset [simp, intro, dict_laws]: "dict_ok d \<Longrightarrow> dict_ok (dset d k v)"
  by (simp add: dict_ok_def dset_def distinct_update)

lemma dict_ok_dpop [simp, intro, dict_laws]: "dict_ok d \<Longrightarrow> dict_ok (dpop d k)"
  by (simp add: dict_ok_def dpop_def distinct_delete)

lemma dkeys_dset [dict_laws]:
  "dkeys (dset d k v) = (if k \<in> set (dkeys d) then dkeys d else dkeys d @ [k])"
  by (simp add: dkeys_def dset_def update_keys)

lemma dget_None_iff [dict_laws]: "dget d k = None \<longleftrightarrow> k \<notin> set (dkeys d)"
  by (simp add: dget_def dkeys_def map_of_eq_None_iff)

lemma dget_SomeD: "dget d k = Some v \<Longrightarrow> (k, v) \<in> set d"
  by (simp add: dget_def map_of_SomeD)

lemma dget_mem_iff [dict_laws]: "dict_ok d \<Longrightarrow> (k, v) \<in> set d \<longleftrightarrow> dget d k = Some v"
  by (auto simp: dict_ok_def dget_def)

lemma dvalues_mem_iff: "dict_ok d \<Longrightarrow> v \<in> set (dvalues d) \<longleftrightarrow> (\<exists>k. dget d k = Some v)"
proof -
  assume ok: "dict_ok d"
  have "v \<in> set (dvalues d) \<longleftrightarrow> (\<exists>k. (k, v) \<in> set d)"
    by (force simp: dvalues_def)
  then show ?thesis by (simp add: dget_mem_iff[OF ok])
qed

lemma dget_dvalues: "dget d k = Some v \<Longrightarrow> v \<in> set (dvalues d)"
  by (force simp: dvalues_def dest: dget_SomeD)

lemma dset_new [dict_laws]: "k \<notin> set (dkeys d) \<Longrightarrow> dset d k v = d @ [(k, v)]"
  by (induction d) (auto simp: dset_def dkeys_def)

lemma dset_same [dict_laws]: "dget d k = Some v \<Longrightarrow> dset d k v = d"
  by (induction d) (auto simp: dset_def split: if_splits)

lemma dpop_absent [dict_laws]: "k \<notin> set (dkeys d) \<Longrightarrow> dpop d k = d"
  by (simp add: dpop_def dkeys_def)

lemma dvalues_append [simp]: "dvalues (d @ e) = dvalues d @ dvalues e"
  by (simp add: dvalues_def)

lemma dvalues_Nil [simp]: "dvalues [] = []"
  by (simp add: dvalues_def)

lemma dvalues_Cons [simp]: "dvalues ((k, v) # d) = v # dvalues d"
  by (simp add: dvalues_def)

lemma length_dvalues [simp]: "length (dvalues d) = length d"
  by (simp add: dvalues_def)

lemma dset_new_values: "k \<notin> set (dkeys d) \<Longrightarrow> dvalues (dset d k v) = dvalues d @ [v]"
  by (simp add: dset_new)

lemma set_dpop: "set (dpop d k) = {p \<in> set d. fst p \<noteq> k}"
  by (induction d) (auto simp: dpop_def)

lemma set_dset: "dict_ok d \<Longrightarrow> set (dset d k v) = insert (k, v) {p \<in> set d. fst p \<noteq> k}"
proof (induction d)
  case Nil
  then show ?case by (simp add: dset_def)
next
  case (Cons p d)
  show ?case
  proof (cases "fst p = k")
    case True
    with Cons.prems have "\<forall>q \<in> set d. fst q \<noteq> k"
      by (cases p) (auto simp: dict_ok_def rev_image_eqI)
    with True show ?thesis by (auto simp: dset_def)
  next
    case False
    with Cons show ?thesis by (auto simp: dset_def dict_ok_def)
  qed
qed

lemma dget_dmerge: "dict_ok e \<Longrightarrow> dget (dmerge d e) k = (case dget e k of None \<Rightarrow> dget d k | Some v \<Rightarrow> Some v)"
proof (induction e arbitrary: d)
  case Nil
  show ?case by (simp add: dmerge_def)
next
  case (Cons p e)
  obtain a v where p: "p = (a, v)" by (cases p)
  have "dget e a = None" and "dict_ok e" using Cons.prems by (simp_all add: p dict_ok_def dget_None_iff dkeys_def)
  with Cons.IH[of "dset d a v"] show ?case by (auto simp: p dmerge_def split: option.split)
qed

text \<open>The entries of one owner: a write or a removal of another owner's entry leaves them, in their order.\<close>

lemma filter_dset_other:
  "\<not> P v \<Longrightarrow> (\<And>x. dget d k = Some x \<Longrightarrow> \<not> P x) \<Longrightarrow> filter P (dvalues (dset d k v)) = filter P (dvalues d)"
  by (induction d) (auto simp: dset_def)

lemma filter_dpop_other:
  "dict_ok d \<Longrightarrow> (\<And>x. dget d k = Some x \<Longrightarrow> \<not> P x) \<Longrightarrow> filter P (dvalues (dpop d k)) = filter P (dvalues d)"
proof (induction d)
  case (Cons p d)
  obtain a v where p: "p = (a, v)" by (cases p)
  have ok: "dict_ok d" "a \<notin> set (dkeys d)" using Cons.prems(1) by (simp_all add: p dict_ok_def dkeys_def)
  show ?case
  proof (cases "a = k")
    case True
    then have "dpop (p # d) k = dpop d k" by (simp add: p dpop_def)
    with True ok Cons.prems(2) show ?thesis by (simp add: p dpop_absent)
  next
    case False
    then have "dpop (p # d) k = p # dpop d k" by (simp add: p dpop_def)
    with False ok Cons show ?thesis by (simp add: p)
  qed
qed (simp add: dpop_def)

section \<open>Slices and sorting\<close>

text \<open>
  \<open>xs[:n]\<close> with Python's meaning of a negative bound, and \<open>xs[-n:]\<close>, which for \<open>n = 0\<close> is the
  whole list.
\<close>

definition slice_to :: "'a list \<Rightarrow> int \<Rightarrow> 'a list" where
  "slice_to xs n = (if n \<ge> 0 then take (nat n) xs else take (length xs - nat (- n)) xs)"

definition slice_last :: "'a list \<Rightarrow> int \<Rightarrow> 'a list" where
  "slice_last xs n = (if n \<le> 0 then drop (nat (- n)) xs else drop (length xs - nat n) xs)"

text \<open>
  \<open>sorted(xs, key=f, reverse=True)\<close>. CPython reverses the list, sorts it stably and reverses
  it back, so elements with equal keys keep their order.
\<close>

definition sort_desc :: "('a \<Rightarrow> 'k::linorder) \<Rightarrow> 'a list \<Rightarrow> 'a list" where
  "sort_desc f xs = rev (sort_key f (rev xs))"

lemma set_slice_to_subset: "set (slice_to xs n) \<subseteq> set xs"
  by (auto simp: slice_to_def dest: in_set_takeD)

lemma length_slice_to [sort_laws]: "0 \<le> n \<Longrightarrow> length (slice_to xs n) = min (length xs) (nat n)"
  by (simp add: slice_to_def)

lemma length_slice_to_le [sort_laws]: "length (slice_to xs n) \<le> length xs"
  by (simp add: slice_to_def)

lemma slice_to_all [sort_laws]: "int (length xs) \<le> n \<Longrightarrow> slice_to xs n = xs"
  by (auto simp: slice_to_def)

lemma set_slice_last_subset: "set (slice_last xs n) \<subseteq> set xs"
  by (auto simp: slice_last_def dest: in_set_dropD)

lemma length_slice_last [sort_laws]:
  "0 < n \<Longrightarrow> length (slice_last xs n) = min (length xs) (nat n)"
  by (simp add: slice_last_def)

lemma set_sort_desc [simp, sort_laws]: "set (sort_desc f xs) = set xs"
  by (simp add: sort_desc_def)

lemma length_sort_desc [simp, sort_laws]: "length (sort_desc f xs) = length xs"
  by (simp add: sort_desc_def)

lemma sorted_sort_desc: "sorted_wrt (\<lambda>x y. f y \<le> f x) (sort_desc f xs)"
proof -
  have "sorted (map f (sort_key f (rev xs)))"
    by (rule sorted_sort_key)
  then have "sorted_wrt (\<lambda>x y. f x \<le> f y) (sort_key f (rev xs))"
    by (simp add: sorted_wrt_map)
  then show ?thesis
    by (simp add: sort_desc_def sorted_wrt_rev)
qed

lemma sort_desc_stable: "filter (\<lambda>x. f x = k) (sort_desc f xs) = filter (\<lambda>x. f x = k) xs"
proof -
  have "filter (\<lambda>x. f x = k) (sort_key f (rev xs)) = filter (\<lambda>x. f x = k) (rev xs)"
    by (rule sort_key_stable)
  then show ?thesis
    by (simp add: sort_desc_def rev_filter[symmetric])
qed

lemma insort_key_snoc: "f x \<le> f y \<Longrightarrow> insort_key f x (xs @ [y]) = insort_key f x xs @ [y]"
  by (induction xs) auto

lemma sort_key_snoc:
  assumes "\<And>x. x \<in> set xs \<Longrightarrow> f x \<le> f y"
  shows "sort_key f (xs @ [y]) = sort_key f xs @ [y]"
  using assms by (induction xs) (simp_all add: insort_key_snoc)

lemma insort_key_end: "(\<And>y. y \<in> set ys \<Longrightarrow> f y < f x) \<Longrightarrow> insort_key f x ys = ys @ [x]"
  by (induction ys) (auto simp: not_le[symmetric])

lemma sort_key_rev:
  assumes "sorted (map f xs)" and "distinct (map f xs)"
  shows "sort_key f (rev xs) = xs"
  using assms
proof (induction xs rule: rev_induct)
  case (snoc x xs)
  then have "f y < f x" if "y \<in> set xs" for y
    using that by (auto simp: sorted_append order.strict_iff_order image_iff)
  then have "insort_key f x xs = xs @ [x]" by (rule insort_key_end)
  with snoc show ?case by (simp add: sorted_append)
qed simp

text \<open>A sort by a key and then by a serial number that increases along the list is the stable sort by the key.\<close>

lemma insort_same_key:
  fixes g :: "'a \<Rightarrow> 'k::linorder" and c :: "'a \<Rightarrow> 'l::linorder"
  assumes "\<And>y. y \<in> set ys \<Longrightarrow> g x < g y"
  shows "insort_key (\<lambda>e. (c e, g e)) x ys = insort_key c x ys"
  using assms by (induction ys) (auto simp: less_eq_prod_def less_le)

lemma sort_same_key:
  fixes g :: "'a \<Rightarrow> 'k::linorder" and c :: "'a \<Rightarrow> 'l::linorder"
  assumes "sorted_wrt (\<lambda>x y. g x < g y) xs"
  shows "sort_key (\<lambda>e. (c e, g e)) xs = sort_key c xs"
  using assms
proof (induction xs)
  case (Cons x xs)
  then show ?case using insort_same_key[of "sort_key c xs" g x c] by simp
qed simp

lemma sort_desc_serial:
  fixes g :: "'a \<Rightarrow> 'k::linorder" and c :: "'a \<Rightarrow> 'l::linorder"
  assumes "sorted_wrt (\<lambda>x y. g x < g y) xs"
  shows "sort_desc (\<lambda>e. (c e, g e)) xs = rev (sort_key c xs)"
proof -
  have "inj_on g (set xs)" and d: "distinct xs" using assms by (induction xs) (auto dest: less_imp_neq)
  then have inj: "inj_on (\<lambda>e. (c e, g e)) (set xs)" by (auto simp: inj_on_def)
  then have "sort_key (\<lambda>e. (c e, g e)) (rev xs) = sort_key (\<lambda>e. (c e, g e)) xs"
    using d by (intro map_sorted_distinct_set_unique[of "\<lambda>e. (c e, g e)"])
      (simp_all only: set_sort set_rev Un_absorb sorted_sort_key distinct_map distinct_sort distinct_rev simp_thms)
  with sort_same_key[OF assms, of c] show ?thesis by (simp add: sort_desc_def)
qed

lemma sort_key_map: "sort_key c (map f xs) = map f (sort_key (\<lambda>x. c (f x)) xs)"
proof -
  have "insort_key c (f x) (map f ys) = map f (insort_key (\<lambda>x. c (f x)) x ys)" for x ys
    by (induction ys) simp_all
  then show ?thesis by (induction xs) simp_all
qed

section \<open>Small list facts\<close>

lemma find_Some_mem: "find P xs = Some x \<Longrightarrow> x \<in> set xs \<and> P x"
  by (induction xs) (auto split: if_splits)

lemma find_None_all: "find P xs = None \<Longrightarrow> x \<in> set xs \<Longrightarrow> \<not> P x"
  by (induction xs) (auto split: if_splits)

lemma find_append: "find P (xs @ ys) = (case find P xs of None \<Rightarrow> find P ys | Some x \<Rightarrow> Some x)"
  by (induction xs) auto

lemma find_unique:
  assumes "x \<in> set xs" and "P x" and "\<And>y. y \<in> set xs \<Longrightarrow> P y \<Longrightarrow> y = x"
  shows "find P xs = Some x"
proof (cases "find P xs")
  case None
  with assms(1,2) show ?thesis by (auto dest: find_None_all)
next
  case (Some y)
  with assms(3) show ?thesis by (auto dest: find_Some_mem)
qed

lemma filter_distinct_suffix:
  assumes "distinct (map f (xs @ ys))"
  shows "filter (\<lambda>x. f x \<notin> set (map f xs)) (xs @ ys) = ys"
proof -
  have "filter (\<lambda>x. f x \<notin> set (map f xs)) xs = []"
    by (simp add: filter_empty_conv)
  moreover have "filter (\<lambda>x. f x \<notin> set (map f xs)) ys = ys"
    using assms by (intro filter_True) auto
  ultimately show ?thesis by simp
qed

lemma length_filter_mono: "(\<And>x. P x \<Longrightarrow> Q x) \<Longrightarrow> length (filter P xs) \<le> length (filter Q xs)"
  by (induction xs) auto

text \<open>Dropping \<open>None\<close> results: \<open>f x\<close> appended for every \<open>x\<close> for which it is produced.\<close>

lemma map_filter_append [simp]:
  "List.map_filter f (xs @ ys) = List.map_filter f xs @ List.map_filter f ys"
  by (simp add: List.map_filter_def)

lemma set_map_filter: "x \<in> set (List.map_filter f ys) \<longleftrightarrow> (\<exists>y \<in> set ys. f y = Some x)"
  by (induction ys) (auto simp: List.map_filter_simps split: option.splits)

end
