(* ===== verification/Py_String.thy ===== *)
theory Py_String
  imports Prelude
begin

text \<open>
  The operations of Python's \<open>str\<close> that the source calls, on lists of code points: \<open>lower\<close>,
  \<open>strip\<close>, \<open>startswith\<close>, \<open>in\<close>, \<open>split\<close>, \<open>partition\<close>, \<open>join\<close>, \<open>replace\<close> of a single character,
  and the decimal rendering of integers. White space is the exact set \<open>str.strip\<close> uses. Case
  folding is exact on ASCII and Latin-1 (every letter of the Spanish and Portuguese alphabets)
  and leaves other code points alone.
\<close>

named_theorems str_laws "lengths and shapes of the string operations"

section \<open>Characters\<close>

definition is_space :: "nat \<Rightarrow> bool" where
  "is_space c \<longleftrightarrow> (9 \<le> c \<and> c \<le> 13) \<or> (28 \<le> c \<and> c \<le> 32) \<or> c = 133 \<or> c = 160 \<or> c = 5760
     \<or> (8192 \<le> c \<and> c \<le> 8202) \<or> c = 8232 \<or> c = 8233 \<or> c = 8239 \<or> c = 8287 \<or> c = 12288"

definition is_digit :: "nat \<Rightarrow> bool" where
  "is_digit c \<longleftrightarrow> 48 \<le> c \<and> c \<le> 57"

definition lower_cp :: "nat \<Rightarrow> nat" where
  "lower_cp c = (if (65 \<le> c \<and> c \<le> 90) \<or> (192 \<le> c \<and> c \<le> 222 \<and> c \<noteq> 215) then c + 32 else c)"

definition lower :: "pystr \<Rightarrow> pystr" where
  "lower s = map lower_cp s"

text \<open>\<open>\\w\<close> of the \<open>re\<close> module, exact on ASCII and Latin-1: letters, digits, underscore.\<close>

definition is_word :: "nat \<Rightarrow> bool" where
  "is_word c \<longleftrightarrow> is_digit c \<or> (65 \<le> c \<and> c \<le> 90) \<or> (97 \<le> c \<and> c \<le> 122) \<or> c = 95
     \<or> c \<in> {170, 178, 179, 181, 185, 186, 188, 189, 190}
     \<or> (192 \<le> c \<and> c \<noteq> 215 \<and> c \<noteq> 247 \<and> \<not> is_space c \<and> c < 688)"

section \<open>Stripping and searching\<close>

definition lstrip :: "pystr \<Rightarrow> pystr" where
  "lstrip s = dropWhile is_space s"

definition rstrip :: "pystr \<Rightarrow> pystr" where
  "rstrip s = rev (dropWhile is_space (rev s))"

definition strip :: "pystr \<Rightarrow> pystr" where
  "strip s = rstrip (lstrip s)"

definition startswith :: "pystr \<Rightarrow> pystr \<Rightarrow> bool" where
  "startswith s p \<longleftrightarrow> take (length p) s = p"

text \<open>\<open>needle in hay\<close>.\<close>

fun contains :: "pystr \<Rightarrow> pystr \<Rightarrow> bool" where
  "contains n [] = (n = [])"
| "contains n (c # s) = (startswith (c # s) n \<or> contains n s)"

section \<open>Splitting, joining, replacing\<close>

fun split_on :: "nat \<Rightarrow> pystr \<Rightarrow> pystr list" where
  "split_on c [] = [[]]"
| "split_on c (x # s) =
     (if x = c then [] # split_on c s
      else (case split_on c s of [] \<Rightarrow> [[x]] | p # ps \<Rightarrow> (x # p) # ps))"

text \<open>\<open>before, sep, after = s.partition(c)\<close>; the flag says whether the separator was found.\<close>

definition partition_on :: "nat \<Rightarrow> pystr \<Rightarrow> pystr \<times> bool \<times> pystr" where
  "partition_on c s = (takeWhile (\<lambda>x. x \<noteq> c) s, c \<in> set s, drop 1 (dropWhile (\<lambda>x. x \<noteq> c) s))"

fun join :: "pystr \<Rightarrow> pystr list \<Rightarrow> pystr" where
  "join sep [] = []"
| "join sep [x] = x"
| "join sep (x # y # xs) = x @ sep @ join sep (y # xs)"

definition replace_char :: "nat \<Rightarrow> pystr \<Rightarrow> pystr \<Rightarrow> pystr" where
  "replace_char c r s = concat (map (\<lambda>x. if x = c then r else [x]) s)"

text \<open>\<open>hmac.compare_digest\<close> on two strings: it raises on a character that is not ASCII.\<close>

definition compare_digest :: "pystr \<Rightarrow> pystr \<Rightarrow> bool res" where
  "compare_digest a b =
     (if \<exists>c \<in> set (a @ b). c > 127
      then Inl (TypeError (lit ''comparing strings with non-ASCII characters is not supported''))
      else Inr (a = b))"

section \<open>Numbers\<close>

fun nat_digits :: "nat \<Rightarrow> pystr" where
  "nat_digits n = (if n < 10 then [48 + n] else nat_digits (n div 10) @ [48 + n mod 10])"

declare nat_digits.simps [simp del]

definition int_str :: "int \<Rightarrow> pystr" where
  "int_str i = (if i < 0 then 45 # nat_digits (nat (- i)) else nat_digits (nat i))"

definition zero_pad :: "nat \<Rightarrow> nat \<Rightarrow> pystr" where
  "zero_pad w n = replicate (w - length (nat_digits n)) 48 @ nat_digits n"

section \<open>Laws\<close>

lemma length_lower [simp, str_laws]: "length (lower s) = length s"
  by (simp add: lower_def)

lemma lower_append [simp]: "lower (s @ t) = lower s @ lower t"
  by (simp add: lower_def)

lemma lower_Nil [simp]: "lower [] = []"
  by (simp add: lower_def)

lemma lower_cp_idem [simp]: "lower_cp (lower_cp c) = lower_cp c"
  by (auto simp: lower_cp_def)

lemma lower_idem [simp]: "lower (lower s) = lower s"
  by (simp add: lower_def)

lemma lower_cp_space [simp]: "is_space (lower_cp c) = is_space c"
  by (auto simp: is_space_def lower_cp_def)

lemma lower_lstrip: "lower (lstrip s) = lstrip (lower s)"
  by (induction s) (simp_all add: lower_def lstrip_def)

lemma lower_rstrip: "lower (rstrip s) = rstrip (lower s)"
proof -
  have "map lower_cp (dropWhile is_space t) = dropWhile is_space (map lower_cp t)" for t
    by (induction t) simp_all
  then show ?thesis
    by (simp add: lower_def rstrip_def rev_map[symmetric])
qed

lemma lower_strip: "lower (strip s) = strip (lower s)"
  by (simp add: strip_def lower_lstrip lower_rstrip)

lemma length_rstrip_le [str_laws]: "length (rstrip s) \<le> length s"
  by (simp add: rstrip_def) (metis length_dropWhile_le length_rev)

lemma length_lstrip_le [str_laws]: "length (lstrip s) \<le> length s"
  by (simp add: lstrip_def length_dropWhile_le)

lemma length_strip_le [str_laws]: "length (strip s) \<le> length s"
  unfolding strip_def using length_rstrip_le length_lstrip_le order.trans by blast

lemma rstrip_prefix: "\<exists>t. s = rstrip s @ t \<and> (\<forall>c \<in> set t. is_space c)"
proof -
  have "rev s = takeWhile is_space (rev s) @ dropWhile is_space (rev s)" by simp
  then have "s = rstrip s @ rev (takeWhile is_space (rev s))"
    unfolding rstrip_def by (metis rev_append rev_rev_ident)
  then show ?thesis by (metis set_rev set_takeWhileD)
qed

lemma rstrip_last: "rstrip s \<noteq> [] \<Longrightarrow> \<not> is_space (last (rstrip s))"
  by (simp add: rstrip_def last_rev hd_dropWhile)

lemma rstrip_id: "s = [] \<or> \<not> is_space (last s) \<Longrightarrow> rstrip s = s"
  by (cases s rule: rev_cases) (auto simp: rstrip_def)

lemma lstrip_id: "s = [] \<or> \<not> is_space (hd s) \<Longrightarrow> lstrip s = s"
  by (cases s) (auto simp: lstrip_def)

lemma rstrip_idem [simp]: "rstrip (rstrip s) = rstrip s"
  using rstrip_id rstrip_last by blast

lemma lstrip_hd: "lstrip s \<noteq> [] \<Longrightarrow> \<not> is_space (hd (lstrip s))"
  by (simp add: lstrip_def hd_dropWhile)

lemma strip_hd: "strip s \<noteq> [] \<Longrightarrow> \<not> is_space (hd (strip s))"
proof -
  assume ne: "strip s \<noteq> []"
  obtain t where t: "lstrip s = strip s @ t"
    using rstrip_prefix[of "lstrip s"] by (auto simp: strip_def)
  then have "hd (strip s) = hd (lstrip s)" and "lstrip s \<noteq> []"
    using ne by (metis hd_append2) (use t ne in auto)
  then show ?thesis using lstrip_hd by simp
qed

lemma strip_idem [simp]: "strip (strip s) = strip s"
proof (cases "strip s = []")
  case True
  then show ?thesis by (simp add: strip_def[of "[]"] lstrip_def rstrip_def)
next
  case False
  then have "lstrip (strip s) = strip s"
    by (intro lstrip_id) (simp add: strip_hd)
  then show ?thesis by (simp add: strip_def)
qed

lemma strip_Nil [simp]: "strip [] = []"
  by (simp add: strip_def lstrip_def rstrip_def)

lemma startswith_append [simp]: "startswith (p @ s) p"
  by (simp add: startswith_def)

lemma startswith_iff: "startswith s p \<longleftrightarrow> (\<exists>t. s = p @ t)"
  by (auto simp: startswith_def) (metis append_take_drop_id)

lemma contains_iff: "contains n s \<longleftrightarrow> (\<exists>a b. s = a @ n @ b)"
proof (induction s)
  case Nil
  then show ?case by auto
next
  case (Cons c s)
  show ?case
  proof
    assume "contains n (c # s)"
    then consider "startswith (c # s) n" | "contains n s" by auto
    then show "\<exists>a b. c # s = a @ n @ b"
    proof cases
      case 1
      then obtain t where "c # s = n @ t" by (auto simp: startswith_iff)
      then show ?thesis by (intro exI[of _ "[]"] exI[of _ t]) simp
    next
      case 2
      with Cons obtain a b where "s = a @ n @ b" by auto
      then show ?thesis by (intro exI[of _ "c # a"] exI[of _ b]) simp
    qed
  next
    assume "\<exists>a b. c # s = a @ n @ b"
    then obtain a b where ab: "c # s = a @ n @ b" by auto
    show "contains n (c # s)"
    proof (cases a)
      case Nil
      with ab have "startswith (c # s) n" by (auto simp: startswith_iff)
      then show ?thesis by simp
    next
      case (Cons x a')
      with ab \<open>contains n s = (\<exists>a b. s = a @ n @ b)\<close> show ?thesis by auto
    qed
  qed
qed

lemma contains_Nil [simp]: "contains [] s"
  by (cases s) (simp_all add: startswith_def)

lemma contains_here [intro]: "contains n (n @ s)"
  by (auto simp: contains_iff intro: exI[of _ "[]"])

lemma contains_skip: "contains n s \<Longrightarrow> contains n (t @ s)"
  by (auto simp: contains_iff) (metis append.assoc)

lemma contains_self [simp]: "contains n n"
  using contains_here[of n "[]"] by simp

lemma split_on_nonempty [simp]: "split_on c s \<noteq> []"
  by (induction s) (auto split: list.splits)

lemma join_split_on: "join [c] (split_on c s) = s"
proof (induction s)
  case Nil
  then show ?case by simp
next
  case (Cons x s)
  obtain p ps where ps: "split_on c s = p # ps"
    by (cases "split_on c s") auto
  with Cons show ?case by (cases ps) auto
qed

lemma split_on_no_sep: "p \<in> set (split_on c s) \<Longrightarrow> c \<notin> set p"
proof (induction s arbitrary: p)
  case Nil
  then show ?case by simp
next
  case (Cons x s)
  obtain q qs where qs: "split_on c s = q # qs"
    by (cases "split_on c s") auto
  with Cons show ?case by (auto split: if_splits)
qed

lemma partition_on_append:
  "c \<notin> set a \<Longrightarrow> partition_on c (a @ c # b) = (a, True, b)"
  by (induction a) (auto simp: partition_on_def)

lemma partition_on_absent: "c \<notin> set s \<Longrightarrow> partition_on c s = (s, False, [])"
proof -
  assume "c \<notin> set s"
  then show ?thesis by (induction s) (auto simp: partition_on_def)
qed

lemma nat_digits_range: "c \<in> set (nat_digits n) \<Longrightarrow> is_digit c"
proof (induction n rule: nat_digits.induct)
  case (1 n)
  then show ?case
    by (cases "n < 10") (auto simp: nat_digits.simps[of n] is_digit_def)
qed

lemma nat_digits_nonempty [simp]: "nat_digits n \<noteq> []"
  by (subst nat_digits.simps) simp

text \<open>The value a list of decimal digits denotes; rendering then reading gives the number back.\<close>

definition digits_value :: "pystr \<Rightarrow> nat" where
  "digits_value ds = foldl (\<lambda>a d. 10 * a + (d - 48)) 0 ds"

lemma digits_value_snoc: "digits_value (ds @ [d]) = 10 * digits_value ds + (d - 48)"
  by (simp add: digits_value_def)

lemma digits_value_nat_digits [simp]: "digits_value (nat_digits n) = n"
proof (induction n rule: nat_digits.induct)
  case (1 n)
  show ?case
  proof (cases "n < 10")
    case True
    then show ?thesis by (simp add: nat_digits.simps[of n] digits_value_def)
  next
    case False
    with 1 show ?thesis
      by (simp add: nat_digits.simps[of n] digits_value_snoc)
  qed
qed

lemma nat_digits_inj: "nat_digits a = nat_digits b \<Longrightarrow> a = b"
  by (metis digits_value_nat_digits)

lemma int_str_inj: "int_str a = int_str b \<Longrightarrow> a = b"
proof -
  assume eq: "int_str a = int_str b"
  have h: "hd (nat_digits n) \<noteq> 45" for n
    using nat_digits_range[of "hd (nat_digits n)" n] by (auto simp: is_digit_def)
  have m: "45 # nat_digits m \<noteq> nat_digits n" for m n
    using h[of n] by (metis list.sel(1))
  show ?thesis
    using eq m m[symmetric] by (auto simp: int_str_def split: if_splits dest!: nat_digits_inj)
qed

end
