(* ===== verification/Py_Data.thy ===== *)
theory Py_Data
  imports Py_String Complex_Main
begin

text \<open>
  Timestamps and JSON values. A \<open>datetime\<close> in UTC is its distance from the epoch in
  microseconds; \<open>isoformat\<close> renders it the way \<open>datetime.isoformat\<close> does. \<open>json\<close> is what a
  \<open>dict[str, Any]\<close> of the source can hold after a JSON round trip. A finite float is kept as
  the decimal its \<open>repr\<close> prints: \<open>JFloat m e\<close> is \<open>m * 10 ^ e\<close> with \<open>m\<close> not a multiple of ten.
\<close>

section \<open>Time\<close>

type_synonym time = int

definition second :: int where
  "second = 1000000"

definition hours :: "int \<Rightarrow> int" where
  "hours h = h * (3600 * second)"

definition days :: "int \<Rightarrow> int" where
  "days d = d * (86400 * second)"

definition civil_from_days :: "int \<Rightarrow> int \<times> int \<times> int" where
  "civil_from_days z =
     (let z' = z + 719468; era = z' div 146097; doe = z' mod 146097;
          yoe = (doe - doe div 1460 + doe div 36524 - doe div 146096) div 365;
          doy = doe - (365 * yoe + yoe div 4 - yoe div 100);
          mp = (5 * doy + 2) div 153;
          m = (if mp < 10 then mp + 3 else mp - 9)
      in (yoe + era * 400 + (if m \<le> 2 then 1 else 0), m, doy - (153 * mp + 2) div 5 + 1))"

text \<open>\<open>t.strftime("%Y-%m-%d")\<close>.\<close>

definition date_str :: "time \<Rightarrow> pystr" where
  "date_str t =
     (case civil_from_days (t div days 1) of (y, m, d) \<Rightarrow>
        zero_pad 4 (nat y) @ lit ''-'' @ zero_pad 2 (nat m) @ lit ''-'' @ zero_pad 2 (nat d))"

definition isoformat :: "time \<Rightarrow> pystr" where
  "isoformat t =
     (let us = t mod days 1; s = us div second; f = us mod second
      in date_str t @ lit ''T'' @ zero_pad 2 (nat (s div 3600)) @ lit '':''
         @ zero_pad 2 (nat (s mod 3600 div 60)) @ lit '':'' @ zero_pad 2 (nat (s mod 60))
         @ (if f = 0 then [] else lit ''.'' @ zero_pad 6 (nat f)) @ lit ''+00:00'')"

section \<open>JSON values\<close>

datatype json =
    JNull
  | JBool bool
  | JInt int
  | JFloat int int
  | JStr pystr
  | JList "json list"
  | JObj "(pystr \<times> json) list"

definition dec_value :: "int \<Rightarrow> int \<Rightarrow> rat" where
  "dec_value m e = (if e \<ge> 0 then of_int m * 10 ^ nat e else of_int m / 10 ^ nat (- e))"

text \<open>Truth value, \<open>isinstance\<close> tests and the \<open>dict.get\<close> of an object.\<close>

fun truthy :: "json \<Rightarrow> bool" where
  "truthy JNull = False"
| "truthy (JBool b) = b"
| "truthy (JInt i) = (i \<noteq> 0)"
| "truthy (JFloat m e) = (m \<noteq> 0)"
| "truthy (JStr s) = (s \<noteq> [])"
| "truthy (JList xs) = (xs \<noteq> [])"
| "truthy (JObj d) = (d \<noteq> [])"

definition jget :: "json dict \<Rightarrow> string \<Rightarrow> json" where
  "jget d k = dget_or d (lit k) JNull"

definition as_str :: "json \<Rightarrow> pystr option" where
  "as_str j = (case j of JStr s \<Rightarrow> Some s | _ \<Rightarrow> None)"

definition as_obj :: "json \<Rightarrow> json dict option" where
  "as_obj j = (case j of JObj d \<Rightarrow> Some d | _ \<Rightarrow> None)"

definition as_list :: "json \<Rightarrow> json list option" where
  "as_list j = (case j of JList xs \<Rightarrow> Some xs | _ \<Rightarrow> None)"

fun json_num :: "json \<Rightarrow> rat option" where
  "json_num (JBool b) = Some (if b then 1 else 0)"
| "json_num (JInt i) = Some (of_int i)"
| "json_num (JFloat m e) = Some (dec_value m e)"
| "json_num _ = None"

text \<open>Python's \<open>==\<close>: numbers and booleans compare by value, dictionaries ignore order.\<close>

function (sequential) py_eq :: "json \<Rightarrow> json \<Rightarrow> bool" where
  "py_eq JNull b = (b = JNull)"
| "py_eq (JStr s) b = (b = JStr s)"
| "py_eq (JList xs) b =
     (case b of JList ys \<Rightarrow> length xs = length ys \<and> (\<forall>p \<in> set (zip xs ys). py_eq (fst p) (snd p))
      | _ \<Rightarrow> False)"
| "py_eq (JObj d) b =
     (case b of JObj e \<Rightarrow> length d = length e \<and>
        (\<forall>p \<in> set d. case map_of e (fst p) of None \<Rightarrow> False | Some w \<Rightarrow> py_eq (snd p) w)
      | _ \<Rightarrow> False)"
| "py_eq a b = (json_num a = json_num b)"
  by pat_completeness auto
termination
proof (relation "measure (\<lambda>(a, b). size a)", goal_cases)
  case 1
  show ?case by simp
next
  case (2 xs b ys p)
  then have "fst p \<in> set xs" by (cases p) (auto dest: set_zip_leftD)
  then have "size (fst p) < Suc (size_list size xs)"
    by (induction xs) auto
  then show ?case by (cases p) simp
next
  case (3 d b e p w)
  then have "p \<in> set d" by simp
  then have "size (snd p) < Suc (size_list (size_prod (\<lambda>_. 0) size) d)"
    by (induction d) auto
  then show ?case by (cases p) simp
qed

text \<open>\<open>type(v).__name__\<close>.\<close>

definition type_name :: "json \<Rightarrow> pystr" where
  "type_name j = (case j of JNull \<Rightarrow> (lit ''NoneType'') | JBool _ \<Rightarrow> (lit ''bool'') | JInt _ \<Rightarrow> (lit ''int'') | JFloat _ _ \<Rightarrow> (lit ''float'')
     | JStr _ \<Rightarrow> (lit ''str'') | JList _ \<Rightarrow> (lit ''list'') | JObj _ \<Rightarrow> (lit ''dict''))"

section \<open>Rendering\<close>

text \<open>\<open>repr\<close> of a float: positional for exponents in \<open>-4 < p \<le> 16\<close>, else scientific.\<close>

definition float_repr :: "int \<Rightarrow> int \<Rightarrow> pystr" where
  "float_repr m e =
     (let ds = nat_digits (nat \<bar>m\<bar>); n = int (length ds); p = n + e; zs = (\<lambda>k. replicate (nat k) 48);
          body = (if m = 0 then lit ''0.0''
                  else if -4 < p \<and> p \<le> 16 then
                    (if p \<le> 0 then lit ''0.'' @ zs (- p) @ ds
                     else if p \<ge> n then ds @ zs (p - n) @ lit ''.0''
                     else take (nat p) ds @ lit ''.'' @ drop (nat p) ds)
                  else take 1 ds @ (if n = 1 then [] else lit ''.'' @ drop 1 ds) @ lit ''e''
                       @ (if p - 1 < 0 then lit ''-'' else lit ''+'') @ zero_pad 2 (nat \<bar>p - 1\<bar>))
      in (if m < 0 then [45] else []) @ body)"

definition hex_digit :: "nat \<Rightarrow> nat" where
  "hex_digit n = (if n < 10 then 48 + n else 87 + n)"

text \<open>\<open>json.dumps(v, ensure_ascii=False)\<close>; the flag is \<open>sort_keys\<close>.\<close>

definition json_escape :: "nat \<Rightarrow> pystr" where
  "json_escape c =
     (if c = 34 then [92, 34] else if c = 92 then [92, 92] else if c = 10 then [92, 110]
      else if c = 13 then [92, 114] else if c = 9 then [92, 116] else if c = 8 then [92, 98]
      else if c = 12 then [92, 102]
      else if c < 32 then [92, 117, 48, 48, hex_digit (c div 16), hex_digit (c mod 16)] else [c])"

definition json_quote :: "pystr \<Rightarrow> pystr" where
  "json_quote s = [34] @ concat (map json_escape s) @ [34]"

fun dumps :: "bool \<Rightarrow> json \<Rightarrow> pystr" where
  "dumps srt JNull = lit ''null''"
| "dumps srt (JBool b) = (if b then lit ''true'' else lit ''false'')"
| "dumps srt (JInt i) = int_str i"
| "dumps srt (JFloat m e) = float_repr m e"
| "dumps srt (JStr s) = json_quote s"
| "dumps srt (JList xs) = lit ''['' @ join (lit '', '') (map (dumps srt) xs) @ lit '']''"
| "dumps srt (JObj d) =
     (let ps = map (\<lambda>p. (fst p, dumps srt (snd p))) d;
          qs = (if srt then sort_key fst ps else ps)
      in lit ''{'' @ join (lit '', '') (map (\<lambda>p. json_quote (fst p) @ lit '': '' @ snd p) qs)
         @ lit ''}'')"

text \<open>
  \<open>repr(v)\<close> and \<open>str(v)\<close>: a string prints itself under \<open>str\<close> and quoted inside containers.
  Characters that \<open>str.isprintable\<close> rejects are escaped; here the control codes and the
  Latin-1 gap, which are those below 256.
\<close>

definition repr_escape :: "nat \<Rightarrow> nat \<Rightarrow> pystr" where
  "repr_escape q c =
     (if c = q then [92, q] else if c = 92 then [92, 92] else if c = 10 then [92, 110]
      else if c = 13 then [92, 114] else if c = 9 then [92, 116]
      else if c < 32 \<or> (127 \<le> c \<and> c \<le> 160) \<or> c = 173
        then [92, 120, hex_digit (c div 16), hex_digit (c mod 16)]
      else [c])"

definition str_repr :: "pystr \<Rightarrow> pystr" where
  "str_repr s =
     (let q = (if 39 \<in> set s \<and> 34 \<notin> set s then 34 else 39)
      in [q] @ concat (map (repr_escape q) s) @ [q])"

fun py_repr :: "json \<Rightarrow> pystr" where
  "py_repr JNull = lit ''None''"
| "py_repr (JBool b) = (if b then lit ''True'' else lit ''False'')"
| "py_repr (JInt i) = int_str i"
| "py_repr (JFloat m e) = float_repr m e"
| "py_repr (JStr s) = str_repr s"
| "py_repr (JList xs) = lit ''['' @ join (lit '', '') (map py_repr xs) @ lit '']''"
| "py_repr (JObj d) =
     lit ''{'' @ join (lit '', '') (map (\<lambda>p. str_repr (fst p) @ lit '': '' @ py_repr (snd p)) d)
     @ lit ''}''"

definition py_str :: "json \<Rightarrow> pystr" where
  "py_str j = (case j of JStr s \<Rightarrow> s | _ \<Rightarrow> py_repr j)"

section \<open>\<open>float(value)\<close>\<close>

datatype pyfloat = Fin rat | PosInf | NegInf | NaN

text \<open>\<open>a \<le> b\<close> on floats; every comparison with a NaN is false.\<close>

fun float_le :: "pyfloat \<Rightarrow> pyfloat \<Rightarrow> bool" where
  "float_le NaN _ = False"
| "float_le _ NaN = False"
| "float_le NegInf _ = True"
| "float_le _ PosInf = True"
| "float_le (Fin a) (Fin b) = (a \<le> b)"
| "float_le _ _ = False"

text \<open>
  The decimal grammar of \<open>float\<close> on strings: blanks around, a sign, digits with single
  underscores between them, a fraction, an exponent, or \<open>inf\<close>, \<open>infinity\<close>, \<open>nan\<close>. ASCII digits.
\<close>

fun digs :: "bool \<Rightarrow> pystr \<Rightarrow> pystr \<times> pystr" where
  "digs b [] = ([], [])"
| "digs b [c] = (if is_digit c then ([c], []) else ([], [c]))"
| "digs b (c # d # s) =
     (if is_digit c then (case digs True (d # s) of (ds, r) \<Rightarrow> (c # ds, r))
      else if c = 95 \<and> b \<and> is_digit d then digs False (d # s)
      else ([], c # d # s))"

definition take_sign :: "pystr \<Rightarrow> bool \<times> pystr" where
  "take_sign s = (case s of [] \<Rightarrow> (False, []) | c # r \<Rightarrow>
     if c = 45 then (True, r) else if c = 43 then (False, r) else (False, s))"

definition parse_exponent :: "pystr \<Rightarrow> int option" where
  "parse_exponent s = (case s of [] \<Rightarrow> Some 0 | c # r \<Rightarrow>
     if c = 101 \<or> c = 69 then
       (case take_sign r of (neg, r1) \<Rightarrow> (case digs False r1 of (ds, r2) \<Rightarrow>
          if ds = [] \<or> r2 \<noteq> [] then None
          else Some (if neg then - int (digits_value ds) else int (digits_value ds))))
     else None)"

definition float_of_str :: "pystr \<Rightarrow> pyfloat option" where
  "float_of_str s0 =
     (case take_sign (strip s0) of (neg, s) \<Rightarrow>
        if lower s \<in> {lit ''inf'', lit ''infinity''} then Some (if neg then NegInf else PosInf)
        else if lower s = lit ''nan'' then Some NaN
        else (case digs False s of (ip, r) \<Rightarrow>
          (case (case r of [] \<Rightarrow> ([], r) | c # r' \<Rightarrow> if c = 46 then digs False r' else ([], r)) of (fp, r2) \<Rightarrow>
             if ip = [] \<and> fp = [] then None
             else map_option
               (\<lambda>e. Fin (dec_value ((if neg then -1 else 1) * int (digits_value (ip @ fp)))
                           (e - int (length fp))))
               (parse_exponent r2))))"

definition float_type_error :: "string \<Rightarrow> pystr" where
  "float_type_error t = lit ''float() argument must be a string or a real number, not '' @ [39] @ lit t @ [39]"

fun float_of_json :: "json \<Rightarrow> pyfloat res" where
  "float_of_json JNull = Inl (TypeError (float_type_error ''NoneType''))"
| "float_of_json (JStr s) =
     (case float_of_str s of None \<Rightarrow> Inl (ValueError (lit ''could not convert string to float: '' @ str_repr s))
      | Some f \<Rightarrow> Inr f)"
| "float_of_json (JList _) = Inl (TypeError (float_type_error ''list''))"
| "float_of_json (JObj _) = Inl (TypeError (float_type_error ''dict''))"
| "float_of_json (JBool b) = Inr (Fin (if b then 1 else 0))"
| "float_of_json (JInt i) = Inr (Fin (of_int i))"
| "float_of_json (JFloat m e) = Inr (Fin (dec_value m e))"

section \<open>\<open>int(value)\<close>\<close>

text \<open>
  A float is truncated towards zero; a string is an optional sign and digits with single
  underscores between them, with blanks around.
\<close>

definition int_of_str :: "pystr \<Rightarrow> int option" where
  "int_of_str s =
     (case take_sign (strip s) of (neg, r) \<Rightarrow> (case digs False r of (ds, rest) \<Rightarrow>
        if ds = [] \<or> rest \<noteq> [] then None
        else Some (if neg then - int (digits_value ds) else int (digits_value ds))))"

definition truncate_rat :: "rat \<Rightarrow> int" where
  "truncate_rat q = (if q < 0 then - \<lfloor>- q\<rfloor> else \<lfloor>q\<rfloor>)"

definition int_type_error :: "string \<Rightarrow> pystr" where
  "int_type_error t =
     lit ''int() argument must be a string, a bytes-like object or a real number, not '' @ [39] @ lit t @ [39]"

fun int_of_json :: "json \<Rightarrow> int res" where
  "int_of_json JNull = Inl (TypeError (int_type_error ''NoneType''))"
| "int_of_json (JStr s) =
     (case int_of_str s of
        None \<Rightarrow> Inl (ValueError (lit ''invalid literal for int() with base 10: '' @ str_repr s))
      | Some i \<Rightarrow> Inr i)"
| "int_of_json (JList _) = Inl (TypeError (int_type_error ''list''))"
| "int_of_json (JObj _) = Inl (TypeError (int_type_error ''dict''))"
| "int_of_json (JBool b) = Inr (if b then 1 else 0)"
| "int_of_json (JInt i) = Inr i"
| "int_of_json (JFloat m e) = Inr (truncate_rat (dec_value m e))"

section \<open>Laws\<close>

lemma jget_dset_same [simp]: "jget (dset d (lit k) v) k = v"
  by (simp add: jget_def dget_or_def)

lemma jget_dset_other [simp]: "k \<noteq> k' \<Longrightarrow> jget (dset d (lit k') v) k = jget d k"
  by (simp add: jget_def dget_or_def)

lemma py_eq_refl_str [simp]: "py_eq (JStr s) (JStr t) = (s = t)"
  by auto

lemma float_le_Fin_iff [simp]: "float_le (Fin a) (Fin b) \<longleftrightarrow> a \<le> b"
  by simp

end
