(* ===== verification/Domain_Models.thy ===== *)
theory Domain_Models
  imports Py_Data
begin

text \<open>
  The entities of \<open>sdk/wapsell/models.py\<close> as records and datatypes, with the defaults the
  Pydantic fields declare, and the contract every dictionary-backed repository of the SDK
  shares: a dictionary keyed by the entity's identifier (\<open>store_ok\<close>, locale \<open>keyed_store\<close>).
  Identifiers (\<open>uuid4\<close>) and creation times are arguments of the constructors.
\<close>

section \<open>Tenants and their configuration\<close>

datatype tenant_status = PROVISIONING | ACTIVE | SUSPENDED

record soul_config =
  sc_language :: pystr
  sc_tone :: pystr
  sc_mission :: pystr
  sc_rules :: "pystr list"
  sc_include_skills :: bool

definition default_soul :: soul_config where
  "default_soul =
     \<lparr>sc_language = (lit ''espa'' @ [241] @ lit ''ol''),
      sc_tone = (lit ''cercano y profesional''),
      sc_mission = (lit ''Vender los productos del cat'' @ [225] @ lit ''logo y cerrar ventas por WhatsApp.''),
      sc_rules = [(lit ''Nunca inventes stock ni precios.''),
        (lit ''Confirm'' @ [225] @ lit '' el pago antes de dar por cerrada una venta.''),
        (lit ''Si no sab'' @ [233] @ lit ''s algo, decilo y ofrec'' @ [233] @ lit '' escalarlo a un humano.'')],
      sc_include_skills = True\<rparr>"

record handoff_config =
  hc_enabled :: bool
  hc_keywords :: "pystr list"
  hc_webhook_url :: "pystr option"
  hc_message :: pystr
  hc_auto_pause_hours :: int

definition default_handoff :: handoff_config where
  "default_handoff =
     \<lparr>hc_enabled = False,
      hc_keywords = [(lit ''humano''), (lit ''persona real''), (lit ''vendedor''), (lit ''asesor''), (lit ''agente humano''),
        (lit ''hablar con alguien'')],
      hc_webhook_url = None,
      hc_message = (lit ''Te paso con un compa'' @ [241] @ lit ''ero humano para que te ayude personalmente. '')
        @ (lit ''En breve te escriben por ac'' @ [225] @ lit ''.''),
      hc_auto_pause_hours = 8\<rparr>"

record tenant =
  t_id :: pystr
  t_name :: pystr
  t_slug :: pystr
  t_status :: tenant_status
  t_phone_number_id :: "pystr option"
  t_model :: pystr
  t_soul_config :: "soul_config option"
  t_handoff_config :: "handoff_config option"
  t_created_at :: time

definition default_model :: pystr where
  "default_model = (lit ''openai/gpt-4o-mini'')"

text \<open>\<open>Tenant(name=..., slug=..., model=...)\<close> with a fresh identifier and the current time.\<close>

definition new_tenant :: "pystr \<Rightarrow> time \<Rightarrow> pystr \<Rightarrow> pystr \<Rightarrow> pystr \<Rightarrow> tenant" where
  "new_tenant uid now name slug model =
     \<lparr>t_id = uid, t_name = name, t_slug = slug, t_status = PROVISIONING, t_phone_number_id = None,
      t_model = model, t_soul_config = None, t_handoff_config = None, t_created_at = now\<rparr>"

section \<open>Facts and messages\<close>

record fact =
  f_id :: pystr
  f_tenant_id :: pystr
  f_source :: pystr
  f_content :: pystr
  f_metadata :: "pystr dict"
  f_created_at :: time

record inbound_message =
  im_tenant_id :: pystr
  im_from_number :: pystr
  im_text :: pystr
  im_message_id :: pystr
  im_profile_name :: "pystr option"
  im_received_at :: time

section \<open>Users and sessions\<close>

datatype user_role = ADMIN | TENANT

record user =
  u_id :: pystr
  u_email :: pystr
  u_password_hash :: pystr
  u_role :: user_role
  u_tenant_id :: "pystr option"
  u_created_at :: time

record session =
  s_token :: pystr
  s_user_id :: pystr
  s_expires_at :: time
  s_created_at :: time

section \<open>Message templates\<close>

datatype template_status = DRAFT | SUBMITTED | APPROVED | REJECTED

datatype template_category = UTILITY | MARKETING | AUTHENTICATION

record message_template =
  mt_id :: pystr
  mt_tenant_id :: pystr
  mt_name :: pystr
  mt_language :: pystr
  mt_category :: template_category
  mt_body :: pystr
  mt_status :: template_status
  mt_vendor_template_id :: "pystr option"
  mt_rejection_reason :: "pystr option"
  mt_created_at :: time
  mt_submitted_at :: "time option"
  mt_approved_at :: "time option"

section \<open>The contract of a dictionary keyed by identifier\<close>

text \<open>
  Every in-memory repository of the SDK holds \<open>_by_id: dict[str, Entity]\<close> and writes it only
  through \<open>self._by_id[x.id] = x\<close> and \<open>pop\<close>. \<open>store_ok\<close> is the invariant: no key twice, every
  entity stored under its own identifier.
\<close>

definition store_ok :: "('a \<Rightarrow> pystr) \<Rightarrow> 'a dict \<Rightarrow> bool" where
  "store_ok ident d \<longleftrightarrow> dict_ok d \<and> (\<forall>(k, x) \<in> set d. k = ident x)"

locale keyed_store =
  fixes ident :: "'a \<Rightarrow> pystr"
    and put :: "'a dict \<Rightarrow> 'a \<Rightarrow> 'a dict"
    and get :: "'a dict \<Rightarrow> pystr \<Rightarrow> 'a option"
  assumes get_is_lookup: "get d i = dget d i"
    and put_get: "get (put d x) i = (if i = ident x then Some x else get d i)"
    and put_ok: "store_ok ident d \<Longrightarrow> store_ok ident (put d x)"
    and put_fresh: "get d (ident x) = None \<Longrightarrow> dvalues (put d x) = dvalues d @ [x]"
begin

lemma get_mem:
  assumes "store_ok ident d"
  shows "get d i = Some x \<longleftrightarrow> x \<in> set (dvalues d) \<and> ident x = i"
proof -
  have mem: "dget d i = Some x \<longleftrightarrow> (i, x) \<in> set d"
    using assms by (simp add: store_ok_def dget_mem_iff)
  have "(i, x) \<in> set d \<longleftrightarrow> x \<in> set (dvalues d) \<and> ident x = i"
    using assms by (force simp: store_ok_def dvalues_def)
  with mem show ?thesis by (simp add: get_is_lookup)
qed

lemma get_ident: "store_ok ident d \<Longrightarrow> get d i = Some x \<Longrightarrow> ident x = i"
  by (simp add: get_mem)

lemma get_self: "store_ok ident d \<Longrightarrow> x \<in> set (dvalues d) \<Longrightarrow> get d (ident x) = Some x"
  by (simp add: get_mem)

lemma put_values:
  assumes "store_ok ident d"
  shows "y \<in> set (dvalues (put d x)) \<longleftrightarrow> y = x \<or> (y \<in> set (dvalues d) \<and> ident y \<noteq> ident x)"
proof -
  have "y \<in> set (dvalues (put d x)) \<longleftrightarrow> get (put d x) (ident y) = Some y"
    using put_ok[OF assms] get_mem by blast
  then show ?thesis
    using get_mem[OF assms] by (auto simp: put_get)
qed

lemma put_frame: "i \<noteq> ident x \<Longrightarrow> get (put d x) i = get d i"
  by (simp add: put_get)

lemma put_read: "get (put d x) (ident x) = Some x"
  by (simp add: put_get)

lemma ident_unique:
  "store_ok ident d \<Longrightarrow> x \<in> set (dvalues d) \<Longrightarrow> y \<in> set (dvalues d) \<Longrightarrow> ident x = ident y \<Longrightarrow> x = y"
  by (metis get_self option.inject)

end

lemma store_ok_Nil [simp, intro]: "store_ok ident []"
  by (simp add: store_ok_def)

lemma store_ok_dset: "store_ok ident d \<Longrightarrow> k = ident x \<Longrightarrow> store_ok ident (dset d k x)"
  by (auto simp: store_ok_def set_dset)

lemma store_ok_dpop: "store_ok ident d \<Longrightarrow> store_ok ident (dpop d k)"
  by (auto simp: store_ok_def set_dpop)

lemma dset_fresh_values: "dget d k = None \<Longrightarrow> dvalues (dset d k x) = dvalues d @ [x]"
  by (simp add: dset_new dget_None_iff)

lemmas store_intros = store_ok_dset store_ok_dpop dset_fresh_values

end
