(* ===== verification/Soul.thy ===== *)
theory Soul
  imports Domain_Models
begin

text \<open>
  \<open>sdk/wapsell/agent/soul.py\<close>: the rendering of a tenant's behavioural prompt. The template is
  cut at its placeholders; \<open>build\<close> fills them in.
\<close>

definition skills_section_text :: pystr where
  "skills_section_text =
     ((lit ''## Available skills'' @ [10])
       @ ([10])
       @ (lit ''You have access to these skills. Call them by name with the required parameters.'' @ [10])
       @ ([10])
       @ (lit ''### catalog-lookup'' @ [10])
       @ (lit ''Retrieve product facts (name, price, stock) from the catalog.'' @ [10])
       @ (lit ''Parameters: '' @ [96] @ lit ''query'' @ [96] @ lit '' (product name or id).'' @ [10])
       @ (lit ''Returns: matching product list with source attribution.'' @ [10])
       @ ([10])
       @ (lit ''### lead-qualifier'' @ [10])
       @ (lit ''Score an inbound message for buying intent.'' @ [10])
       @ (lit ''Parameters: '' @ [96] @ lit ''message'' @ [96] @ lit '' (the customer'' @ [39] @ lit ''s text).'' @ [10])
       @ (lit ''Returns: intent_score (0-100), tag (cold/warm/hot), suggested next action.'' @ [10])
       @ ([10])
       @ (lit ''### sales-closer'' @ [10])
       @ (lit ''Drive a conversation stage by stage toward a closed sale.'' @ [10])
       @ (lit ''Parameters: '' @ [96] @ lit ''current_stage'' @ [96] @ lit '', '' @ [96] @ lit ''message'' @ [96] @ lit '' (customer'' @ [39] @ lit ''s latest reply).'' @ [10])
       @ (lit ''Returns: next_stage, prompt for what to say, and whether the conversation is terminal.'' @ [10]))"

definition soul_template ::
  "pystr \<Rightarrow> pystr \<Rightarrow> pystr \<Rightarrow> pystr \<Rightarrow> pystr \<Rightarrow> pystr \<Rightarrow> pystr \<Rightarrow> pystr" where
  "soul_template name language tone mission rules skills_section learning_section =
     (lit ''# SOUL '' @ [8212] @ lit '' '') @ name
     @ (([10])
       @ ([10])
       @ (lit ''You are the WhatsApp sales agent for **'')) @ name
     @ (lit ''**. Speak in '') @ language
     @ (lit '', in a'' @ [10]) @ tone
     @ ((lit '' tone. You represent the brand; never reveal you are an AI unless asked.'' @ [10])
       @ ([10])
       @ (lit ''## Mission'' @ [10])) @ mission
     @ (([10])
       @ ([10])
       @ (lit ''## Rules'' @ [10])) @ rules
     @ (([10])
       @ ([10])) @ skills_section
     @ learning_section
     @ (([10])
       @ ([10])
       @ (lit ''## Goal protocol'' @ [10])
       @ (lit ''On every message, pursue: identify the buyer'' @ [39] @ lit ''s need, present matching products'' @ [10])
       @ (lit ''from the catalog, handle objections honestly, and drive to a confirmed payment.'' @ [10])
       @ (lit ''Never invent stock or prices '' @ [8212] @ lit '' look them up.'' @ [10]))"

text \<open>\<open>config or tenant.soul_config or SoulConfig()\<close>: a Pydantic model is always truthy.\<close>

definition effective_soul :: "tenant \<Rightarrow> soul_config option \<Rightarrow> soul_config" where
  "effective_soul t cfg =
     (case cfg of Some c \<Rightarrow> c
      | None \<Rightarrow> (case t_soul_config t of Some c \<Rightarrow> c | None \<Rightarrow> default_soul))"

definition soul_build :: "tenant \<Rightarrow> soul_config option \<Rightarrow> pystr \<Rightarrow> pystr" where
  "soul_build t config learning_hints =
     (let cfg = effective_soul t config;
          rules = join [10] (map (\<lambda>r. (lit ''- '') @ r) (sc_rules cfg));
          skills_section = (if sc_include_skills cfg then skills_section_text else []);
          learning_section = (if strip learning_hints \<noteq> [] then [10] @ strip learning_hints @ [10] else [])
      in soul_template (t_name t) (sc_language cfg) (sc_tone cfg) (sc_mission cfg) rules
           skills_section learning_section)"

text \<open>
  An explicit configuration overrides the persisted one, which overrides the defaults; the
  prompt depends on the tenant through its name and its persisted configuration only.
\<close>

lemma soul_build_explicit: "soul_build (t\<lparr>t_soul_config := x\<rparr>) (Some c) h = soul_build t (Some c) h"
  by (simp add: soul_build_def effective_soul_def)

lemma soul_build_persisted: "soul_build (t\<lparr>t_soul_config := Some c\<rparr>) None h = soul_build t (Some c) h"
  by (simp add: soul_build_def effective_soul_def)

lemma soul_build_mission: "contains (sc_mission (effective_soul t cfg)) (soul_build t cfg h)"
  unfolding soul_build_def soul_template_def Let_def append.assoc
  by (rule contains_here | rule contains_skip)+

lemma soul_build_hints: "strip h \<noteq> [] \<Longrightarrow> contains (strip h) (soul_build t cfg h)"
  unfolding soul_build_def soul_template_def Let_def append.assoc if_P
  by (rule contains_here | rule contains_skip)+

end
