(* ===== verification/Handoff.thy ===== *)
theory Handoff
  imports Domain_Models
begin

text \<open>
  The bot-to-human handoff (\<open>sdk/wapsell/handoff/\<close>): the keyword detector and the webhook
  notifier. The detector folds accents and case before it compares; the folding is exact on
  Latin-1 letters and on the combining marks U+0300 to U+036F, the marks NFD produces for them.
\<close>

section \<open>Folding\<close>

text \<open>The base letter of a Latin-1 letter with a diacritic (its NFD without the mark).\<close>

definition base_letter :: "nat \<Rightarrow> nat" where
  "base_letter c =
     (if 192 \<le> c \<and> c \<le> 197 then 65 else if c = 199 then 67
      else if 200 \<le> c \<and> c \<le> 203 then 69 else if 204 \<le> c \<and> c \<le> 207 then 73
      else if c = 209 then 78 else if 210 \<le> c \<and> c \<le> 214 then 79
      else if 217 \<le> c \<and> c \<le> 220 then 85 else if c = 221 then 89
      else if 224 \<le> c \<and> c \<le> 229 then 97 else if c = 231 then 99
      else if 232 \<le> c \<and> c \<le> 235 then 101 else if 236 \<le> c \<and> c \<le> 239 then 105
      else if c = 241 then 110 else if 242 \<le> c \<and> c \<le> 246 then 111
      else if 249 \<le> c \<and> c \<le> 252 then 117 else if c = 253 \<or> c = 255 then 121 else c)"

definition combining_mark :: "nat \<Rightarrow> bool" where
  "combining_mark c \<longleftrightarrow> 768 \<le> c \<and> c \<le> 879"

definition fold_text :: "pystr \<Rightarrow> pystr" where
  "fold_text s = lower (map base_letter (filter (\<lambda>c. \<not> combining_mark c) s))"

definition normalize :: "pystr \<Rightarrow> pystr" where
  "normalize s = strip (fold_text s)"

lemma fold_text_append: "fold_text (s @ t) = fold_text s @ fold_text t"
  by (simp add: fold_text_def)

lemma fold_text_idem: "fold_text (fold_text s) = fold_text s"
proof -
  have mark: "combining_mark (lower_cp (base_letter c)) = combining_mark c" for c
    by (auto simp: combining_mark_def lower_cp_def base_letter_def)
  have base: "base_letter (lower_cp (base_letter c)) = lower_cp (base_letter c)" for c
    by (auto simp: lower_cp_def base_letter_def)
  show ?thesis
    by (induction s) (simp_all add: fold_text_def lower_def mark base)
qed

lemma fold_lstrip: "fold_text (lstrip (fold_text s)) = lstrip (fold_text s)"
proof -
  have "fold_text (dropWhile P t) = dropWhile P t" if "fold_text t = t" for P t
  proof -
    have sfx: "fold_text v = v" if "fold_text (u @ v) = u @ v" for u v
    proof -
      have eq: "fold_text u @ fold_text v = u @ v" using that by (simp add: fold_text_append)
      have le: "length (fold_text w) \<le> length w" for w by (simp add: fold_text_def)
      have "length (fold_text v) = length v"
        using arg_cong[OF eq, of length] le[of u] le[of v] by simp
      with eq show ?thesis by simp
    qed
    have "fold_text (takeWhile P t @ dropWhile P t) = takeWhile P t @ dropWhile P t"
      using that by simp
    then show ?thesis by (rule sfx)
  qed
  from this[OF fold_text_idem] show ?thesis by (simp add: lstrip_def)
qed

lemma fold_rstrip: "fold_text t = t \<Longrightarrow> fold_text (rstrip t) = rstrip t"
proof -
  assume t: "fold_text t = t"
  obtain u where u: "t = rstrip t @ u" using rstrip_prefix by blast
  have le: "length (fold_text w) \<le> length w" for w by (simp add: fold_text_def)
  have eq: "fold_text (rstrip t) @ fold_text u = rstrip t @ u"
    using t u by (metis fold_text_append)
  have "length (fold_text (rstrip t)) = length (rstrip t)"
    using arg_cong[OF eq, of length] le[of "rstrip t"] le[of u] by simp
  with eq show ?thesis by simp
qed

lemma normalize_idem: "normalize (normalize s) = normalize s"
  by (simp add: normalize_def strip_def fold_lstrip fold_rstrip) (metis strip_def strip_idem)

lemma strip_contains_inner:
  assumes "n \<noteq> []" and "\<not> is_space (hd n)" and "\<not> is_space (last n)"
  shows "contains n (strip (a @ n @ b))"
proof -
  have l: "lstrip (a @ n @ b) = dropWhile is_space a @ n @ b"
    using assms(1,2) by (cases n; induction a) (auto simp: lstrip_def)
  have "rstrip (x @ n @ b) = x @ n @ rev (dropWhile is_space (rev b))" for x
  proof -
    have ne: "rev n \<noteq> []" "\<not> is_space (hd (rev n))" using assms by (simp_all add: hd_rev)
    have "dropWhile is_space (rev b @ rev n @ rev x) = dropWhile is_space (rev b) @ rev n @ rev x"
      using ne by (cases "rev n"; induction b rule: rev_induct) auto
    then show ?thesis by (simp add: rstrip_def)
  qed
  then show ?thesis unfolding strip_def l by (auto simp: contains_iff)
qed

section \<open>The detector\<close>

record handoff_decision =
  hd_escalate :: bool
  hd_matched_keyword :: "pystr option"

definition skip :: handoff_decision where
  "skip = \<lparr>hd_escalate = False, hd_matched_keyword = None\<rparr>"

fun first_match :: "pystr \<Rightarrow> pystr list \<Rightarrow> handoff_decision" where
  "first_match normalized [] = skip"
| "first_match normalized (keyword # ks) =
     (let needle = normalize keyword
      in if needle \<noteq> [] \<and> contains needle normalized
         then \<lparr>hd_escalate = True, hd_matched_keyword = Some keyword\<rparr>
         else first_match normalized ks)"

definition evaluate :: "pystr \<Rightarrow> handoff_config option \<Rightarrow> handoff_decision" where
  "evaluate message config =
     (case config of None \<Rightarrow> skip
      | Some c \<Rightarrow> if \<not> hc_enabled c then skip else first_match (normalize message) (hc_keywords c))"

text \<open>The detector as a search: the first configured keyword that occurs in the folded message.\<close>

definition keyword_hits :: "pystr \<Rightarrow> pystr \<Rightarrow> bool" where
  "keyword_hits message keyword \<longleftrightarrow>
     normalize keyword \<noteq> [] \<and> contains (normalize keyword) (normalize message)"

lemma first_match_find:
  "first_match (normalize m) ks =
     (case find (keyword_hits m) ks of None \<Rightarrow> skip
      | Some k \<Rightarrow> \<lparr>hd_escalate = True, hd_matched_keyword = Some k\<rparr>)"
  by (induction ks) (simp_all add: keyword_hits_def Let_def)

lemma evaluate_find:
  "evaluate m config =
     (case config of None \<Rightarrow> skip
      | Some c \<Rightarrow> if hc_enabled c
                  then (case find (keyword_hits m) (hc_keywords c) of None \<Rightarrow> skip
                        | Some k \<Rightarrow> \<lparr>hd_escalate = True, hd_matched_keyword = Some k\<rparr>)
                  else skip)"
  by (simp add: evaluate_def first_match_find split: option.splits)

lemma find_split:
  "find P xs = Some x \<Longrightarrow> \<exists>before after. xs = before @ x # after \<and> P x \<and> (\<forall>y \<in> set before. \<not> P y)"
proof (induction xs)
  case (Cons y ys)
  show ?case
  proof (cases "P y")
    case True
    with Cons.prems show ?thesis by (intro exI[of _ "[]"] exI[of _ ys]) simp
  next
    case False
    with Cons obtain b a where "ys = b @ x # a" "P x" "\<forall>z \<in> set b. \<not> P z" by auto
    with False show ?thesis by (intro exI[of _ "y # b"] exI[of _ a]) simp
  qed
qed simp

lemma evaluate_escalates:
  "hd_escalate (evaluate m (Some c)) \<longleftrightarrow> hc_enabled c \<and> (\<exists>k \<in> set (hc_keywords c). keyword_hits m k)"
  by (auto simp: evaluate_find skip_def dest: find_None_all find_Some_mem split: option.splits)

lemma evaluate_matched:
  "hd_matched_keyword (evaluate m (Some c)) = Some k \<Longrightarrow>
     \<exists>before after. hc_keywords c = before @ k # after \<and> keyword_hits m k
       \<and> (\<forall>k' \<in> set before. \<not> keyword_hits m k')"
  by (rule find_split) (auto simp: evaluate_find skip_def split: option.splits if_splits)

text \<open>Accents and case do not matter: any spelling that folds to the keyword escalates.\<close>

lemma evaluate_spelling:
  assumes "hc_enabled c" and "k \<in> set (hc_keywords c)" and "normalize k \<noteq> []"
    and "fold_text x = normalize k"
  shows "hd_escalate (evaluate (a @ x @ b) (Some c))"
proof -
  have "contains (normalize k) (strip (fold_text a @ normalize k @ fold_text b))"
    using assms(3) strip_hd[of "fold_text k"] rstrip_last[of "lstrip (fold_text k)"]
    by (intro strip_contains_inner) (simp_all add: normalize_def strip_def)
  then have "keyword_hits (a @ x @ b) k"
    using assms(3,4) by (simp add: keyword_hits_def normalize_def[of "a @ x @ b"] fold_text_append)
  with assms(1,2) show ?thesis by (auto simp: evaluate_escalates)
qed

section \<open>The notifier\<close>

text \<open>
  \<open>HttpHandoffNotifier.notify\<close>. \<open>post url body\<close> is the HTTP client: a status code, or the text
  of an \<open>httpx.HTTPError\<close>. The result is the request sent, if any, and the warning logged, if
  any: the call never raises.
\<close>

definition handoff_payload :: "tenant \<Rightarrow> pystr \<Rightarrow> pystr \<Rightarrow> handoff_decision \<Rightarrow> json" where
  "handoff_payload t buyer_id message d =
     JObj [((lit ''event''), JStr (lit ''handoff.escalated'')),
           ((lit ''tenant''), JObj [((lit ''id''), JStr (t_id t)), ((lit ''slug''), JStr (t_slug t)), ((lit ''name''), JStr (t_name t))]),
           ((lit ''buyer_id''), JStr buyer_id), ((lit ''message''), JStr message),
           ((lit ''matched_keyword''), (case hd_matched_keyword d of None \<Rightarrow> JNull | Some k \<Rightarrow> JStr k))]"

definition notify ::
  "(pystr \<Rightarrow> json \<Rightarrow> pystr + nat) \<Rightarrow> tenant \<Rightarrow> pystr \<Rightarrow> pystr \<Rightarrow> handoff_decision
     \<Rightarrow> (pystr \<times> json) option \<times> pystr option" where
  "notify post t buyer_id message d =
     (case t_handoff_config t of
        None \<Rightarrow> (None, None)
      | Some c \<Rightarrow>
          (case hc_webhook_url c of
             None \<Rightarrow> (None, None)
           | Some url \<Rightarrow>
               if url = [] then (None, None)
               else (let payload = handoff_payload t buyer_id message d
                     in (Some (url, payload),
                         case post url payload of
                           Inr status \<Rightarrow>
                             if status \<ge> 400
                             then Some ((lit ''handoff webhook '') @ url @ (lit '' returned '') @ nat_digits status
                                        @ (lit '' for tenant='') @ t_slug t)
                             else None
                         | Inl err \<Rightarrow>
                             Some ((lit ''handoff webhook '') @ url @ (lit '' failed for tenant='') @ t_slug t @ (lit '': '')
                                   @ take 200 err)))))"

lemma notify_request:
  "fst (notify post t b m d) = Some (url, p) \<longleftrightarrow>
     (\<exists>c. t_handoff_config t = Some c \<and> hc_webhook_url c = Some url) \<and> url \<noteq> []
     \<and> p = handoff_payload t b m d"
  by (auto simp: notify_def Let_def split: option.splits)

lemma notify_silent: "fst (notify post t b m d) = None \<Longrightarrow> snd (notify post t b m d) = None"
  by (auto simp: notify_def Let_def split: option.splits if_splits)

end
