(* ===== verification/Buyer_Memory.thy ===== *)
theory Buyer_Memory
  imports Domain_Models
begin

text \<open>
  Buyer memory (\<open>sdk/wapsell/memory/buyer.py\<close>): the in-memory ring buffer and the Postgres
  adapter over the table \<open>buyer_interactions\<close>, whose SQL statements are modelled as operations
  on the list of its rows. Both provide the locale \<open>buyer_memory\<close>: what \<open>recall\<close> returns after
  a \<open>remember\<close>, so that after any sequence of writes it is the end of the conversation.
\<close>

datatype role = Buyer | Agent

definition role_str :: "role \<Rightarrow> pystr" where
  "role_str r = (case r of Buyer \<Rightarrow> (lit ''buyer'') | Agent \<Rightarrow> (lit ''agent''))"

record interaction =
  bi_text :: pystr
  bi_role :: role
  bi_at :: time
  bi_metadata :: "pystr dict"

record thread_summary =
  ts_buyer_id :: pystr
  ts_message_count :: nat
  ts_last_at :: time
  ts_last_text :: pystr

section \<open>The in-memory ring buffer\<close>

record memory =
  mem_max_items :: int
  mem_dialectic_depth :: int
  mem_store :: "interaction list dict"

definition new_memory :: memory where
  "new_memory = \<lparr>mem_max_items = 50, mem_dialectic_depth = 2, mem_store = []\<rparr>"

definition remember :: "memory \<Rightarrow> pystr \<Rightarrow> interaction \<Rightarrow> memory" where
  "remember m buyer_id i =
     (let bucket = dget_or (mem_store m) buyer_id [] @ [i];
          excess = int (length bucket) - mem_max_items m;
          bucket' = (if excess > 0 then drop (nat excess) bucket else bucket)
      in m\<lparr>mem_store := dset (mem_store m) buyer_id bucket'\<rparr>)"

definition limited :: "int option \<Rightarrow> 'a list \<Rightarrow> 'a list" where
  "limited lmt bucket =
     (case lmt of None \<Rightarrow> bucket | Some n \<Rightarrow> if n \<le> 0 then [] else slice_last bucket n)"

definition recall :: "memory \<Rightarrow> pystr \<Rightarrow> int option \<Rightarrow> interaction list" where
  "recall m buyer_id lmt = limited lmt (dget_or (mem_store m) buyer_id [])"

definition summarize :: "interaction list \<Rightarrow> pystr" where
  "summarize recent =
     (if recent = [] then (lit ''no prior interactions'')
      else join (lit '' | '') (map (\<lambda>turn. (lit ''['') @ role_str (bi_role turn) @ (lit ''] '') @ bi_text turn) recent))"

definition mem_summary :: "memory \<Rightarrow> pystr \<Rightarrow> pystr" where
  "mem_summary m buyer_id = summarize (recall m buyer_id (Some (mem_dialectic_depth m * 2)))"

definition preview_max :: nat where
  "preview_max = 120"

definition preview :: "pystr \<Rightarrow> pystr" where
  "preview text =
     (let one_line = strip (replace_char 10 [32] text)
      in if length one_line \<le> preview_max then one_line
         else rstrip (take (preview_max - 1) one_line) @ [8230])"

definition list_threads :: "memory \<Rightarrow> pystr option \<Rightarrow> int \<Rightarrow> thread_summary list" where
  "list_threads m prefix lmt =
     (let summaries = List.map_filter
        (\<lambda>(buyer_id, bucket).
           if (\<exists>p. prefix = Some p \<and> \<not> startswith buyer_id p) then None
           else if bucket = [] then None
           else Some \<lparr>ts_buyer_id = buyer_id, ts_message_count = length bucket,
                      ts_last_at = bi_at (last bucket), ts_last_text = preview (bi_text (last bucket))\<rparr>)
        (mem_store m)
      in slice_to (sort_desc ts_last_at summaries) lmt)"

section \<open>The Postgres adapter\<close>

text \<open>
  A row of \<open>buyer_interactions\<close>: its serial identifier, the buyer and the interaction. The next
  value of the sequence is part of the state.
\<close>

record row =
  r_id :: nat
  r_buyer :: pystr
  r_turn :: interaction

record table =
  tb_rows :: "row list"
  tb_next :: nat
  tb_max_items :: nat
  tb_depth :: int

definition row_key :: "row \<Rightarrow> int \<times> nat" where
  "row_key r = (bi_at (r_turn r), r_id r)"

text \<open>\<open>SELECT ... WHERE buyer_id = %s ORDER BY at, id\<close>.\<close>

definition by_age :: "table \<Rightarrow> pystr \<Rightarrow> row list" where
  "by_age t b = sort_key row_key (filter (\<lambda>r. r_buyer r = b) (tb_rows t))"

text \<open>
  \<open>_BUYER_TRIM_SQL\<close>: the identifiers selected newest first from \<open>OFFSET max_items\<close> on are
  deleted.
\<close>

definition trim :: "table \<Rightarrow> pystr \<Rightarrow> table" where
  "trim t b =
     (let doomed = set (map r_id (drop (tb_max_items t) (rev (by_age t b))))
      in t\<lparr>tb_rows := filter (\<lambda>r. r_id r \<notin> doomed) (tb_rows t)\<rparr>)"

definition insert_row :: "table \<Rightarrow> pystr \<Rightarrow> interaction \<Rightarrow> table" where
  "insert_row t b i =
     t\<lparr>tb_rows := tb_rows t @ [\<lparr>r_id = tb_next t, r_buyer = b, r_turn = i\<rparr>],
       tb_next := Suc (tb_next t)\<rparr>"

definition pg_remember :: "table \<Rightarrow> pystr \<Rightarrow> interaction \<Rightarrow> table" where
  "pg_remember t b i = trim (insert_row t b i) b"

definition pg_recall :: "table \<Rightarrow> pystr \<Rightarrow> int option \<Rightarrow> interaction list" where
  "pg_recall t b lmt =
     (case lmt of
        None \<Rightarrow> map r_turn (by_age t b)
      | Some n \<Rightarrow>
          if n \<le> 0 then []
          else map r_turn (sort_key row_key (take (nat n) (rev (by_age t b)))))"

definition pg_summary :: "table \<Rightarrow> pystr \<Rightarrow> pystr" where
  "pg_summary t b = summarize (pg_recall t b (Some (tb_depth t * 2)))"

text \<open>
  SQL \<open>LIKE\<close>: \<open>%\<close> matches any text, \<open>_\<close> any character, a backslash takes the next character
  literally. \<open>list_threads\<close> appends \<open>%\<close> to the prefix without escaping it.
\<close>

fun like :: "pystr \<Rightarrow> pystr \<Rightarrow> bool" where
  "like [] s = (s = [])"
| "like (p # ps) s =
     (if p = 37 then (case s of [] \<Rightarrow> like ps [] | c # s' \<Rightarrow> like ps s \<or> like (p # ps) s')
      else if p = 92 \<and> ps \<noteq> [] then
        (case s of [] \<Rightarrow> False | c # s' \<Rightarrow> hd ps = c \<and> like (tl ps) s')
      else (case s of [] \<Rightarrow> False | c # s' \<Rightarrow> (p = 95 \<or> p = c) \<and> like ps s'))"

section \<open>The contract\<close>

text \<open>The turns of one buyer in a sequence of writes, and the store after the sequence.\<close>

definition turns_of :: "pystr \<Rightarrow> (pystr \<times> interaction) list \<Rightarrow> interaction list" where
  "turns_of b ws = map snd (filter (\<lambda>w. fst w = b) ws)"

definition write_all :: "('s \<Rightarrow> pystr \<Rightarrow> interaction \<Rightarrow> 's) \<Rightarrow> 's \<Rightarrow> (pystr \<times> interaction) list \<Rightarrow> 's" where
  "write_all put s ws = foldl (\<lambda>s (b, i). put s b i) s ws"

definition in_time_order :: "(pystr \<times> interaction) list \<Rightarrow> bool" where
  "in_time_order ws \<longleftrightarrow> sorted (map (\<lambda>w. bi_at (snd w)) ws)"

lemma turns_of_Nil [simp]: "turns_of b [] = []"
  by (simp add: turns_of_def)

lemma turns_of_snoc [simp]:
  "turns_of b (ws @ [(b', i)]) = (if b' = b then turns_of b ws @ [i] else turns_of b ws)"
  by (simp add: turns_of_def)


locale buyer_memory =
  fixes put :: "'s \<Rightarrow> pystr \<Rightarrow> interaction \<Rightarrow> 's"
    and read :: "'s \<Rightarrow> pystr \<Rightarrow> int option \<Rightarrow> interaction list"
    and cap :: "'s \<Rightarrow> nat"
    and inv :: "'s \<Rightarrow> bool"
    and fits :: "'s \<Rightarrow> pystr \<Rightarrow> interaction \<Rightarrow> bool"
  assumes put_inv: "inv s \<Longrightarrow> inv (put s b i)"
    and put_cap: "cap (put s b i) = cap s"
    and put_same: "inv s \<Longrightarrow> fits s b i \<Longrightarrow>
          read (put s b i) b None = drop (Suc (length (read s b None)) - cap s) (read s b None @ [i])"
    and put_other: "inv s \<Longrightarrow> b' \<noteq> b \<Longrightarrow> read (put s b i) b' None = read s b' None"
    and read_limit: "inv s \<Longrightarrow> read s b (Some n) = limited (Some n) (read s b None)"
    and fitsI: "inv s \<Longrightarrow> (\<And>j. j \<in> set (read s b None) \<Longrightarrow> bi_at j \<le> bi_at i) \<Longrightarrow> fits s b i"
begin

lemma drop_last_snoc: "drop (Suc (length (drop (length xs - n) xs)) - n) (drop (length xs - n) xs @ [x])
  = drop (Suc (length xs) - n) (xs @ [x])"
  by (cases "length xs \<le> n") (auto simp: not_le Suc_diff_le)

text \<open>
  Writes in time order from an empty store: every buyer sees the last \<open>cap\<close> of their own turns.
\<close>

lemma writes_recall_all:
  assumes "inv s" and "\<And>b. read s b None = []"
  shows "in_time_order ws \<Longrightarrow> inv (write_all put s ws) \<and> cap (write_all put s ws) = cap s \<and>
    (\<forall>b. read (write_all put s ws) b None = drop (length (turns_of b ws) - cap s) (turns_of b ws))"
proof (induction ws rule: rev_induct)
  case Nil
  with assms show ?case by (simp add: write_all_def)
next
  case (snoc w ws)
  obtain b i where w: "w = (b, i)" by (cases w)
  let ?s = "write_all put s ws"
  have step: "write_all put s (ws @ [w]) = put ?s b i" by (simp add: write_all_def w)
  from snoc have I: "inv ?s" "cap ?s = cap s"
    and R: "\<And>b. read ?s b None = drop (length (turns_of b ws) - cap s) (turns_of b ws)"
    by (auto simp: sorted_append in_time_order_def)
  have "bi_at j \<le> bi_at i" if "j \<in> set (read ?s b None)" for j
  proof -
    have "j \<in> set (turns_of b ws)" using that R by (auto dest: in_set_dropD)
    then show ?thesis using snoc.prems w by (auto simp: turns_of_def sorted_append in_time_order_def)
  qed
  then have fits: "fits ?s b i" using I(1) by (intro fitsI)
  have "read (put ?s b i) b' None = drop (length (turns_of b' (ws @ [w])) - cap s) (turns_of b' (ws @ [w]))" for b'
  proof (cases "b' = b")
    case True
    have "read (put ?s b i) b None
        = drop (Suc (length (drop (length (turns_of b ws) - cap s) (turns_of b ws))) - cap s)
            (drop (length (turns_of b ws) - cap s) (turns_of b ws) @ [i])"
      using put_same[OF I(1) fits] unfolding R I(2) .
    also have "\<dots> = drop (Suc (length (turns_of b ws)) - cap s) (turns_of b ws @ [i])"
      by (rule drop_last_snoc)
    finally show ?thesis using True by (simp add: w)
  next
    case False
    then show ?thesis using put_other[OF I(1) False] by (simp add: R w)
  qed
  then show ?case using I put_inv put_cap step by simp
qed

lemma writes_recall:
  assumes "inv s" and "\<And>b. read s b None = []" and "in_time_order ws"
  shows "read (write_all put s ws) b lmt
    = limited lmt (drop (length (turns_of b ws) - cap s) (turns_of b ws))"
proof -
  have w: "inv (write_all put s ws)"
    "read (write_all put s ws) b None = drop (length (turns_of b ws) - cap s) (turns_of b ws)"
    using writes_recall_all[OF assms] by auto
  show ?thesis using w read_limit[OF w(1)] by (cases lmt) (simp_all add: limited_def)
qed

lemma put_isolated: "inv s \<Longrightarrow> b' \<noteq> b \<Longrightarrow> read (put s b i) b' lmt = read s b' lmt"
  using put_inv put_other read_limit by (cases lmt) auto

lemma put_bounded: "inv s \<Longrightarrow> fits s b i \<Longrightarrow> length (read (put s b i) b lmt) \<le> cap s"
  using put_inv[of s b i] put_same[of s b i] read_limit[of "put s b i" b]
  by (cases lmt) (auto simp: limited_def slice_last_def)

end

section \<open>The ring buffer provides it\<close>

definition memory_ok :: "memory \<Rightarrow> bool" where
  "memory_ok m \<longleftrightarrow> dict_ok (mem_store m) \<and>
     (\<forall>b bucket. dget (mem_store m) b = Some bucket \<longrightarrow> int (length bucket) \<le> max 0 (mem_max_items m))"

lemma recall_None: "recall m b None = dget_or (mem_store m) b []"
  by (simp add: recall_def limited_def)

lemma drop_excess: "(if int (length xs) - n > 0 then drop (nat (int (length xs) - n)) xs else xs)
  = drop (length xs - nat n) xs"
  by (cases "n < 0") (auto simp: nat_diff_distrib)

lemma remember_store:
  "mem_store (remember m b i) = dset (mem_store m) b
     (let bucket = dget_or (mem_store m) b [] @ [i] in drop (length bucket - nat (mem_max_items m)) bucket)"
  by (simp add: remember_def Let_def drop_excess[of "_ @ [i]", simplified])

interpretation ring: buyer_memory remember recall "\<lambda>m. nat (mem_max_items m)" memory_ok "\<lambda>_ _ _. True"
proof (unfold_locales, goal_cases)
  case (1 s b i)
  then show ?case
    by (auto simp: memory_ok_def remember_store remember_def Let_def)
next
  case (2 s b i)
  then show ?case by (simp add: remember_def Let_def)
next
  case (3 s b i)
  then show ?case by (simp add: recall_None remember_store dget_or_def[of "dset _ _ _"] Let_def)
next
  case (4 s b' b i)
  then show ?case by (simp add: recall_None remember_store dget_or_def)
next
  case (5 s b n)
  then show ?case by (simp add: recall_def limited_def)
qed simp

section \<open>The table provides it\<close>

definition table_ok :: "table \<Rightarrow> bool" where
  "table_ok t \<longleftrightarrow> distinct (map r_id (tb_rows t)) \<and> (\<forall>r \<in> set (tb_rows t). r_id r < tb_next t)"

definition newest :: "table \<Rightarrow> pystr \<Rightarrow> interaction \<Rightarrow> bool" where
  "newest t b i \<longleftrightarrow> (\<forall>r \<in> set (by_age t b). bi_at (r_turn r) \<le> bi_at i)"

lemma set_by_age: "set (by_age t b) = {r \<in> set (tb_rows t). r_buyer r = b}"
  by (simp add: by_age_def)

lemma distinct_by_age: "table_ok t \<Longrightarrow> distinct (map r_id (by_age t b))"
proof -
  assume "table_ok t"
  then have "distinct (map r_id (filter (\<lambda>r. r_buyer r = b) (tb_rows t)))"
    by (simp add: table_ok_def distinct_map_filter)
  then have "inj_on r_id (set (by_age t b)) \<and> distinct (by_age t b)"
    by (simp add: by_age_def distinct_map)
  then show ?thesis by (simp add: distinct_map)
qed

lemma insert_max [simp]: "tb_max_items (insert_row t b i) = tb_max_items t"
  by (simp add: insert_row_def)

lemma insert_ok: "table_ok t \<Longrightarrow> table_ok (insert_row t b i)"
  by (auto simp: table_ok_def insert_row_def)

lemma filter_rows_by_age:
  "by_age (t\<lparr>tb_rows := filter P (tb_rows t)\<rparr>) b = filter P (by_age t b)"
  by (simp add: by_age_def filter_sort conj_commute)

lemma by_age_insert_same:
  assumes "table_ok t" and "newest t b i"
  shows "by_age (insert_row t b i) b = by_age t b @ [\<lparr>r_id = tb_next t, r_buyer = b, r_turn = i\<rparr>]"
proof -
  let ?r = "\<lparr>r_id = tb_next t, r_buyer = b, r_turn = i\<rparr>" and ?xs = "filter (\<lambda>r. r_buyer r = b) (tb_rows t)"
  have "row_key x \<le> row_key ?r" if "x \<in> set ?xs" for x
  proof -
    have "bi_at (r_turn x) \<le> bi_at i" "r_id x < tb_next t"
      using assms that by (auto simp: newest_def set_by_age table_ok_def)
    then show ?thesis by (auto simp: row_key_def less_eq_prod_def)
  qed
  then have "sort_key row_key (?xs @ [?r]) = sort_key row_key ?xs @ [?r]"
    by (rule sort_key_snoc)
  then show ?thesis by (simp add: by_age_def insert_row_def)
qed

lemma by_age_insert_other: "b' \<noteq> b \<Longrightarrow> by_age (insert_row t b i) b' = by_age t b'"
  by (simp add: by_age_def insert_row_def)

lemma rev_drop_rev: "rev (drop n (rev xs)) = take (length xs - n) xs"
  by (simp add: rev_drop)

lemma trim_by_age:
  assumes "table_ok t"
  shows "by_age (trim t b) b' =
    (if b' = b then drop (length (by_age t b) - tb_max_items t) (by_age t b) else by_age t b')"
proof -
  let ?s = "by_age t b" and ?k = "length (by_age t b) - tb_max_items t"
  have D: "set (map r_id (drop (tb_max_items t) (rev ?s))) = set (map r_id (take ?k ?s))"
    by (metis rev_drop_rev rev_map set_rev)
  have eq: "by_age (trim t b) b' = filter (\<lambda>r. r_id r \<notin> set (map r_id (take ?k ?s))) (by_age t b')"
    by (simp only: trim_def Let_def D filter_rows_by_age)
  show ?thesis
  proof (cases "b' = b")
    case True
    have "distinct (map r_id (take ?k ?s @ drop ?k ?s))" using distinct_by_age[OF assms] by simp
    from filter_distinct_suffix[OF this] True eq show ?thesis by simp
  next
    case False
    have "r_id r \<notin> set (map r_id (take ?k ?s))" if r: "r \<in> set (by_age t b')" for r
    proof
      assume "r_id r \<in> set (map r_id (take ?k ?s))"
      then obtain q where q: "q \<in> set ?s" "r_id q = r_id r" by (auto dest: in_set_takeD)
      then have "q = r"
        using r assms inj_onD[of r_id "set (tb_rows t)" q r]
        by (simp add: table_ok_def set_by_age distinct_map)
      with q r False show False by (simp add: set_by_age)
    qed
    then have "filter (\<lambda>r. r_id r \<notin> set (map r_id (take ?k ?s))) (by_age t b') = by_age t b'"
      by (intro filter_True) blast
    with eq False show ?thesis by simp
  qed
qed

lemma trim_ok: "table_ok t \<Longrightarrow> table_ok (trim t b)"
  by (auto simp: table_ok_def trim_def Let_def distinct_map_filter)

lemma pg_recall_None: "pg_recall t b None = map r_turn (by_age t b)"
  by (simp add: pg_recall_def)

lemma pg_recall_limited:
  assumes "table_ok t"
  shows "pg_recall t b (Some n) = limited (Some n) (pg_recall t b None)"
proof (cases "n \<le> 0")
  case True
  then show ?thesis by (simp add: pg_recall_def limited_def)
next
  case False
  let ?s = "by_age t b"
  have "sorted (map row_key ?s)" by (simp add: by_age_def)
  moreover have "distinct (map row_key ?s)"
    using distinct_by_age[OF assms, of b] by (auto simp: distinct_map row_key_def inj_on_def)
  ultimately have "sort_key row_key (rev (drop (length ?s - nat n) ?s)) = drop (length ?s - nat n) ?s"
    by (intro sort_key_rev) (simp_all add: drop_map[symmetric] sorted_wrt_drop)
  moreover have "rev (drop (length ?s - nat n) ?s) = take (nat n) (rev ?s)"
    by (cases "nat n \<le> length ?s") (simp_all add: rev_drop)
  ultimately show ?thesis
    using False by (simp add: pg_recall_def limited_def slice_last_def drop_map)
qed

interpretation pg: buyer_memory pg_remember pg_recall tb_max_items table_ok newest
proof (unfold_locales, goal_cases)
  case (1 s b i)
  then show ?case by (simp add: pg_remember_def trim_ok insert_ok)
next
  case (2 s b i)
  then show ?case by (simp add: pg_remember_def trim_def insert_row_def Let_def)
next
  case (3 s b i)
  then show ?case
    by (simp add: pg_remember_def pg_recall_None trim_by_age insert_ok by_age_insert_same drop_map[symmetric])
next
  case (4 s b' b i)
  then show ?case
    by (simp add: pg_remember_def pg_recall_None trim_by_age insert_ok by_age_insert_other)
next
  case (5 s b n)
  then show ?case by (rule pg_recall_limited)
next
  case (6 s b i)
  then show ?case by (simp add: newest_def pg_recall_None)
qed

lemma pg_empty_ok: "tb_rows t = [] \<Longrightarrow> table_ok t"
  by (simp add: table_ok_def)

section \<open>Listing the threads\<close>

lemma preview_bound: "length (preview text) \<le> preview_max"
proof -
  have "length (rstrip (take (preview_max - 1) x)) \<le> preview_max - 1" for x
    using length_rstrip_le[of "take (preview_max - 1) x"] by simp
  then show ?thesis by (simp add: preview_def Let_def preview_max_def)
qed

lemma set_rstrip: "set (rstrip s) \<subseteq> set s"
  by (auto simp: rstrip_def dest: set_dropWhileD)

lemma set_strip: "set (strip s) \<subseteq> set s"
  using set_rstrip[of "lstrip s"] by (auto simp: strip_def lstrip_def dest: set_dropWhileD)

lemma preview_one_line: "10 \<notin> set (preview text)"
proof -
  have "10 \<notin> set (replace_char 10 [32] text)"
    by (auto simp: replace_char_def)
  then have one: "10 \<notin> set (strip (replace_char 10 [32] text))"
    using set_strip by blast
  then have "10 \<notin> set (rstrip (take n (strip (replace_char 10 [32] text))))" for n
    using set_rstrip in_set_takeD by fastforce
  with one show ?thesis by (simp add: preview_def Let_def)
qed

lemma list_threads_mem:
  assumes "dict_ok (mem_store m)" and "x \<in> set (list_threads m prefix lmt)"
  shows "\<exists>bucket. dget (mem_store m) (ts_buyer_id x) = Some bucket \<and> bucket \<noteq> [] \<and>
    ts_message_count x = length bucket \<and> ts_last_at x = bi_at (last bucket) \<and>
    ts_last_text x = preview (bi_text (last bucket)) \<and>
    (\<forall>p. prefix = Some p \<longrightarrow> startswith (ts_buyer_id x) p)"
proof -
  from assms(2) obtain b bucket where "(b, bucket) \<in> set (mem_store m)" "bucket \<noteq> []"
    "\<not> (\<exists>p. prefix = Some p \<and> \<not> startswith b p)"
    "x = \<lparr>ts_buyer_id = b, ts_message_count = length bucket,
          ts_last_at = bi_at (last bucket), ts_last_text = preview (bi_text (last bucket))\<rparr>"
    using set_slice_to_subset by (fastforce simp: list_threads_def List.map_filter_def split: if_splits)
  with assms(1) show ?thesis by (auto simp: dget_mem_iff)
qed

lemma list_threads_sorted: "sorted_wrt (\<lambda>x y. ts_last_at y \<le> ts_last_at x) (list_threads m prefix lmt)"
  using sorted_sort_desc by (auto simp: list_threads_def Let_def slice_to_def intro: sorted_wrt_take)

lemma list_threads_length: "0 \<le> lmt \<Longrightarrow> int (length (list_threads m prefix lmt)) \<le> lmt"
  by (auto simp: list_threads_def Let_def slice_to_def)

text \<open>
  The SQL prefix filter: exact for a prefix without \<open>%\<close>, \<open>_\<close> and backslash.
\<close>

lemma like_prefix:
  assumes "37 \<notin> set p" and "95 \<notin> set p" and "92 \<notin> set p"
  shows "like (p @ [37]) s \<longleftrightarrow> startswith s p"
proof -
  have all: "like [37] s" for s by (induction s) simp_all
  show ?thesis
    using assms
  proof (induction p arbitrary: s)
    case Nil
    then show ?case using all by (simp add: startswith_def)
  next
    case (Cons c p)
    then show ?case by (cases s) (auto simp: startswith_def)
  qed
qed

end
