(* ===== verification/Ingestion.thy ===== *)
theory Ingestion
  imports Domain_Models
begin

text \<open>
  The fact store and what fills it: Hindsight (\<open>sdk/wapsell/ingestion/hindsight.py\<close>), the file
  extractors (\<open>extractors/\<close>), the preprocessor (\<open>preprocessor.py\<close>) and the queue worker
  (\<open>services/preprocessor/worker.py\<close>). Reading a file is a parameter: the rows of a CSV file,
  the paragraphs of a DOCX file, the pages of a PDF file. A path is its final name.
\<close>

section \<open>Hindsight\<close>

type_synonym facts = "fact list"

definition add_fact :: "facts \<Rightarrow> fact \<Rightarrow> facts" where
  "add_fact fs f = fs @ [f]"

definition query_facts :: "facts \<Rightarrow> pystr \<Rightarrow> pystr option \<Rightarrow> int \<Rightarrow> facts" where
  "query_facts fs text tenant_id top_k =
     (let needle = strip (lower text);
          scope = (if needle \<noteq> []
                   then filter (\<lambda>f. tenant_id = None \<or> tenant_id = Some (f_tenant_id f)) fs else []);
          found = filter (\<lambda>f. contains needle (lower (f_content f))) scope
      in slice_to found top_k)"

definition all_for :: "facts \<Rightarrow> pystr \<Rightarrow> facts" where
  "all_for fs tenant_id = filter (\<lambda>f. f_tenant_id f = tenant_id) fs"

text \<open>\<open>_to_or_tsquery\<close>: the words of at least three characters, once each, joined by \<open>|\<close>.\<close>

fun words :: "pystr \<Rightarrow> pystr \<Rightarrow> pystr list" where
  "words w [] = (if w = [] then [] else [w])"
| "words w (c # s) =
     (if is_word c then words (w @ [c]) s else (if w = [] then words [] s else w # words [] s))"

fun keep_first :: "'a list \<Rightarrow> 'a list \<Rightarrow> 'a list" where
  "keep_first seen [] = []"
| "keep_first seen (x # xs) = (if x \<in> set seen then keep_first seen xs else x # keep_first (x # seen) xs)"

definition to_or_tsquery :: "pystr \<Rightarrow> pystr" where
  "to_or_tsquery text =
     (let tokens = map lower (words [] text);
          significant = filter (\<lambda>t. length t \<ge> 3) tokens
      in join (lit '' | '') (keep_first [] significant))"

section \<open>Extractors\<close>

record chunk =
  ck_text :: pystr
  ck_source :: pystr
  ck_metadata :: "pystr dict"

type_synonym extractor = "pystr \<Rightarrow> chunk list res"

text \<open>One chunk per element whose text is not blank; the element's index is in the metadata.\<close>

definition csv_chunks :: "pystr \<Rightarrow> pystr dict list \<Rightarrow> chunk list" where
  "csv_chunks name rows =
     List.map_filter
       (\<lambda>(index, row).
          let text = join (lit '' | '') (map (\<lambda>(k, v). k @ (lit '': '') @ v) row)
          in if strip text \<noteq> []
             then Some \<lparr>ck_text = text, ck_source = name, ck_metadata = [((lit ''row''), nat_digits index)]\<rparr>
             else None)
       (enumerate 0 rows)"

definition docx_chunks :: "pystr \<Rightarrow> pystr list \<Rightarrow> chunk list" where
  "docx_chunks name paragraphs =
     List.map_filter
       (\<lambda>(index, p).
          let text = strip p
          in if text \<noteq> []
             then Some \<lparr>ck_text = text, ck_source = name, ck_metadata = [((lit ''paragraph''), nat_digits index)]\<rparr>
             else None)
       (enumerate 0 paragraphs)"

definition pdf_chunks :: "pystr \<Rightarrow> pystr option list \<Rightarrow> chunk list" where
  "pdf_chunks name pages =
     List.map_filter
       (\<lambda>(index, p).
          let text = strip (case p of None \<Rightarrow> [] | Some t \<Rightarrow> t)
          in if text \<noteq> []
             then Some \<lparr>ck_text = text, ck_source = name,
                        ck_metadata = [((lit ''page''), nat_digits (index + 1))]\<rparr>
             else None)
       (enumerate 0 pages)"

definition mock_chunk :: "pystr \<Rightarrow> pystr \<Rightarrow> pystr \<Rightarrow> chunk list" where
  "mock_chunk modality text name =
     [\<lparr>ck_text = text, ck_source = name,
       ck_metadata = [((lit ''modality''), modality), ((lit ''mocked''), (lit ''true''))]\<rparr>]"

definition mock_audio :: extractor where
  "mock_audio name = Inr (mock_chunk (lit ''audio'') (lit ''[mocked transcript: audio content goes here]'') name)"

definition mock_video :: extractor where
  "mock_video name = Inr (mock_chunk (lit ''video'') (lit ''[mocked description: visual content goes here]'') name)"

definition mock_image :: extractor where
  "mock_image name = Inr (mock_chunk (lit ''image'') (lit ''[mocked caption: image content goes here]'') name)"

record readers =
  rd_csv :: "pystr \<Rightarrow> pystr dict list res"
  rd_docx :: "pystr \<Rightarrow> pystr list res"
  rd_pdf :: "pystr \<Rightarrow> pystr option list res"

definition reading :: "('a \<Rightarrow> chunk list) \<Rightarrow> 'a res \<Rightarrow> chunk list res" where
  "reading f r = (case r of Inl e \<Rightarrow> Inl e | Inr x \<Rightarrow> Inr (f x))"

definition default_extractors :: "readers \<Rightarrow> extractor dict" where
  "default_extractors rd =
     [((lit ''.csv''), \<lambda>p. reading (csv_chunks p) (rd_csv rd p)),
      ((lit ''.pdf''), \<lambda>p. reading (pdf_chunks p) (rd_pdf rd p)),
      ((lit ''.docx''), \<lambda>p. reading (docx_chunks p) (rd_docx rd p)),
      ((lit ''.mp3''), mock_audio), ((lit ''.wav''), mock_audio), ((lit ''.m4a''), mock_audio), ((lit ''.ogg''), mock_audio),
      ((lit ''.mp4''), mock_video), ((lit ''.mov''), mock_video), ((lit ''.webm''), mock_video),
      ((lit ''.jpg''), mock_image), ((lit ''.jpeg''), mock_image), ((lit ''.png''), mock_image), ((lit ''.webp''), mock_image)]"

section \<open>Preprocessor\<close>

text \<open>\<open>Path.suffix\<close>: from the last dot on, unless the name starts or ends with it.\<close>

definition path_suffix :: "pystr \<Rightarrow> pystr" where
  "path_suffix name =
     (let tail = rev (takeWhile (\<lambda>c. c \<noteq> 46) (rev name))
      in if 46 \<in> set name \<and> tail \<noteq> [] \<and> length tail + 1 < length name then 46 # tail else [])"

definition supported_extensions :: "extractor dict \<Rightarrow> pystr list" where
  "supported_extensions ex = sort (dkeys ex)"

definition tuple_repr :: "pystr list \<Rightarrow> pystr" where
  "tuple_repr xs =
     (lit ''('') @ join (lit '', '') (map str_repr xs) @ (if length xs = 1 then (lit '','') else []) @ (lit '')'')"

definition chunk_fact :: "pystr \<Rightarrow> pystr \<Rightarrow> time \<Rightarrow> pystr \<Rightarrow> chunk \<Rightarrow> fact" where
  "chunk_fact tenant_id source now uid c =
     \<lparr>f_id = uid, f_tenant_id = tenant_id, f_source = source, f_content = ck_text c,
      f_metadata = ck_metadata c, f_created_at = now\<rparr>"

definition process ::
  "extractor dict \<Rightarrow> (nat \<Rightarrow> pystr) \<Rightarrow> time \<Rightarrow> facts \<Rightarrow> pystr \<Rightarrow> pystr \<Rightarrow> pystr option
     \<Rightarrow> facts \<times> fact list res" where
  "process ex uids now store path tenant_id source_label =
     (let ext = lower (path_suffix path)
      in case dget ex ext of
           None \<Rightarrow> (store, Inl (UnsupportedFormatError
                     ((lit ''no extractor for '') @ str_repr ext @ (lit '' (supported: '')
                      @ tuple_repr (supported_extensions ex) @ (lit '')''))))
         | Some extract \<Rightarrow>
             (case extract path of
                Inl e \<Rightarrow> (store, Inl e)
              | Inr chunks \<Rightarrow>
                  (let source = (case source_label of None \<Rightarrow> path | Some l \<Rightarrow> if l = [] then path else l);
                       new = map (\<lambda>(n, c). chunk_fact tenant_id source now (uids n) c) (enumerate 0 chunks)
                   in (foldl add_fact store new, Inr new))))"

section \<open>The worker\<close>

record job =
  jb_tenant_id :: pystr
  jb_path :: pystr
  jb_source_label :: "pystr option"

text \<open>
  \<open>drain\<close>: \<open>stop n\<close> is the state of the stop event when the loop tests it for the \<open>n\<close>-th time.
  A job is taken off the queue before it runs; when it raises, \<open>drain\<close> raises and the rest of
  the queue stays. The result carries the store, the rest of the queue and the count.
\<close>

fun drain ::
  "(nat \<Rightarrow> facts \<Rightarrow> job \<Rightarrow> facts \<times> fact list res) \<Rightarrow> (nat \<Rightarrow> bool) \<Rightarrow> nat \<Rightarrow> facts \<Rightarrow> job list
     \<Rightarrow> facts \<times> job list \<times> nat res" where
  "drain run stop n store [] = (store, [], Inr n)"
| "drain run stop n store (j # q) =
     (if stop n then (store, j # q, Inr n)
      else (case run n store j of
              (store', Inl e) \<Rightarrow> (store', q, Inl e)
            | (store', Inr _) \<Rightarrow> drain run stop (Suc n) store' q))"

definition run_job ::
  "extractor dict \<Rightarrow> (nat \<Rightarrow> nat \<Rightarrow> pystr) \<Rightarrow> time \<Rightarrow> nat \<Rightarrow> facts \<Rightarrow> job \<Rightarrow> facts \<times> fact list res" where
  "run_job ex uids now n store j = process ex (uids n) now store (jb_path j) (jb_tenant_id j) (jb_source_label j)"

section \<open>Queries\<close>

lemma query_mem:
  "f \<in> set (query_facts fs q (Some t) k) \<Longrightarrow>
     f \<in> set fs \<and> f_tenant_id f = t \<and> contains (strip (lower q)) (lower (f_content f)) \<and> strip (lower q) \<noteq> []"
  using set_slice_to_subset by (fastforce simp: query_facts_def Let_def split: if_splits)

lemma query_bound: "0 \<le> k \<Longrightarrow> int (length (query_facts fs q t k)) \<le> k"
  by (auto simp: query_facts_def Let_def slice_to_def)

lemma query_isolated:
  "query_facts (filter (\<lambda>f. f_tenant_id f = t) fs) q (Some t) k = query_facts fs q (Some t) k"
proof -
  have "filter (\<lambda>f. Some t = None \<or> Some t = Some (f_tenant_id f)) (filter (\<lambda>f. f_tenant_id f = t) fs)
      = filter (\<lambda>f. Some t = None \<or> Some t = Some (f_tenant_id f)) fs"
    unfolding filter_filter by (rule filter_cong) auto
  then show ?thesis unfolding query_facts_def Let_def by simp
qed

lemma set_words: "t \<in> set (words w s) \<Longrightarrow> \<forall>c \<in> set w. is_word c \<Longrightarrow> \<forall>c \<in> set t. is_word c"
proof (induction w s rule: words.induct)
  case (2 w c s)
  show ?case
  proof (cases "is_word c")
    case True
    then have "t \<in> set (words (w @ [c]) s)" using "2.prems"(1) by simp
    moreover have "\<forall>x \<in> set (w @ [c]). is_word x" using "2.prems"(2) True by simp
    ultimately show ?thesis by (rule "2.IH"(1)[OF True])
  next
    case False
    then have "t = w \<or> t \<in> set (words [] s)" using "2.prems"(1) by (simp split: if_splits)
    moreover have "\<forall>x \<in> set t. is_word x" if "t \<in> set (words [] s)"
    proof (cases "w = []")
      case True
      from "2.IH"(2)[OF False True that] show ?thesis by simp
    next
      case w: False
      from "2.IH"(3)[OF False w that] show ?thesis by simp
    qed
    ultimately show ?thesis using "2.prems"(2) by blast
  qed
qed (simp split: if_splits)

lemma set_keep_first: "set (keep_first seen xs) = set xs - set seen"
  by (induction seen xs rule: keep_first.induct) auto

lemma distinct_keep_first: "distinct (keep_first seen xs)"
  by (induction seen xs rule: keep_first.induct) (auto simp: set_keep_first)

lemma tsquery_tokens:
  "\<exists>ts. to_or_tsquery q = join (lit '' | '') ts \<and> distinct ts \<and>
     (\<forall>t \<in> set ts. 3 \<le> length t \<and> (\<exists>w. t = lower w \<and> (\<forall>c \<in> set w. is_word c)))"
  by (rule exI[of _ "keep_first [] (filter (\<lambda>t. length t \<ge> 3) (map lower (words [] q)))"])
    (auto simp: to_or_tsquery_def Let_def set_keep_first distinct_keep_first dest: set_words)

section \<open>Ingestion\<close>

lemma fold_add_fact: "foldl add_fact store new = store @ new"
  by (induction new arbitrary: store) (simp_all add: add_fact_def)

lemma process_store: "process ex uids now store p t l = (store', r) \<Longrightarrow>
    store' = store @ (case r of Inl _ \<Rightarrow> [] | Inr new \<Rightarrow> new)"
  by (auto simp: process_def Let_def fold_add_fact split: option.splits sum.splits)

lemma process_facts:
  assumes "process ex uids now store p t l = (store', Inr new)"
  shows "\<exists>extract chunks. dget ex (lower (path_suffix p)) = Some extract \<and> extract p = Inr chunks
    \<and> length new = length chunks
    \<and> (\<forall>n < length new. f_tenant_id (new ! n) = t \<and> f_content (new ! n) = ck_text (chunks ! n)
         \<and> f_metadata (new ! n) = ck_metadata (chunks ! n) \<and> f_id (new ! n) = uids n)"
  using assms by (auto simp: process_def Let_def chunk_fact_def nth_enumerate_eq split: option.splits sum.splits)

lemma process_tenant:
  assumes "process ex uids now store p t l = (store', r)"
  shows "all_for store' t' = all_for store t' @ (if t' = t then (case r of Inl _ \<Rightarrow> [] | Inr new \<Rightarrow> new) else [])"
proof -
  have "f_tenant_id f = t" if "r = Inr new" "f \<in> set new" for new f
    using that assms by (auto simp: process_def Let_def chunk_fact_def split: option.splits sum.splits)
  then have "filter (\<lambda>f. f_tenant_id f = t') new = (if t' = t then new else [])" if "r = Inr new" for new
    using that by (auto intro: filter_True simp: filter_empty_conv)
  then show ?thesis
    using process_store[OF assms] by (auto simp: all_for_def split: sum.splits)
qed

lemma drain_all:
  "(\<And>n store j. j \<in> set q \<Longrightarrow> \<exists>store' fs. run n store j = (store', Inr fs)) \<Longrightarrow> (\<And>n. \<not> stop n) \<Longrightarrow>
     \<exists>store'. drain run stop n store q = (store', [], Inr (n + length q))"
proof (induction q arbitrary: n store)
  case (Cons j q)
  obtain store' fs where "run n store j = (store', Inr fs)" using Cons.prems(1) by fastforce
  moreover have "\<exists>s2. drain run stop (Suc n) store' q = (s2, [], Inr (Suc n + length q))"
    by (rule Cons.IH) (use Cons.prems in auto)
  moreover have "\<not> stop n" by (rule Cons.prems(2))
  ultimately show ?case by auto
qed simp

text \<open>A job that raises is consumed, the ones before it are stored, the ones after it stay.\<close>

lemma drain_raises:
  assumes "drain run stop n store q = (store', rest, Inl e)"
  shows "\<exists>before j. q = before @ j # rest \<and>
    (\<exists>mid. drain run stop n store before = (mid, [], Inr (n + length before))
       \<and> run (n + length before) mid j = (store', Inl e))"
  using assms
proof (induction q arbitrary: n store)
  case (Cons j q)
  show ?case
  proof (cases "snd (run n store j)")
    case (Inl x)
    with Cons.prems show ?thesis
      by (intro exI[of _ "[]"] exI[of _ j]) (auto split: prod.splits if_splits)
  next
    case (Inr fs)
    then obtain s1 where s1: "run n store j = (s1, Inr fs)" by (metis prod.collapse)
    have ns: "\<not> stop n" using Cons.prems by (auto split: if_splits)
    with s1 Cons.prems have "drain run stop (Suc n) s1 q = (store', rest, Inl e)" by simp
    from Cons.IH[OF this] obtain before k mid where
      "q = before @ k # rest" "drain run stop (Suc n) s1 before = (mid, [], Inr (Suc n + length before))"
      "run (Suc n + length before) mid k = (store', Inl e)" by blast
    with s1 ns show ?thesis by (intro exI[of _ "j # before"] exI[of _ k]) simp
  qed
qed simp

end
