(* ===== verification/Resources.thy ===== *)
theory Resources
  imports Domain_Models
begin

text \<open>
  The resource layer (\<open>sdk/wapsell/resources/models.py\<close>, \<open>repository.py\<close>): items, registered
  data sources and the query log, with their in-memory adapters. \<open>upsert\<close> replaces the items that
  share (tenant, source, external id); the search filters by field and by text. The locale
  \<open>resource_repository\<close> extends \<open>keyed_store\<close> with the laws of the item store that its clients
  use; the in-memory adapter is proved to provide it.
\<close>

section \<open>Models\<close>

datatype source_kind = HTML | JSON_API | WEBHOOK | MANUAL | CSV

definition kind_str :: "source_kind \<Rightarrow> pystr" where
  "kind_str k = (case k of HTML \<Rightarrow> (lit ''html'') | JSON_API \<Rightarrow> (lit ''json_api'') | WEBHOOK \<Rightarrow> (lit ''webhook'')
     | MANUAL \<Rightarrow> (lit ''manual'') | CSV \<Rightarrow> (lit ''csv''))"

record data_source =
  ds_id :: pystr
  ds_tenant_id :: pystr
  ds_kind :: source_kind
  ds_name :: pystr
  ds_config :: "json dict"
  ds_last_synced_at :: "time option"
  ds_last_sync_ok :: "bool option"
  ds_last_sync_count :: "int option"
  ds_last_sync_error :: "pystr option"
  ds_status :: pystr
  ds_created_at :: time

record resource =
  re_id :: pystr
  re_tenant_id :: pystr
  re_source_id :: "pystr option"
  re_kind :: pystr
  re_external_id :: "pystr option"
  re_data :: "json dict"
  re_summary :: pystr
  re_status :: pystr
  re_created_at :: time
  re_updated_at :: time

record query_log_entry =
  ql_id :: "int option"
  ql_tenant_id :: pystr
  ql_buyer_id :: "pystr option"
  ql_query_text :: "pystr option"
  ql_filters :: "json dict"
  ql_result_count :: int
  ql_created_at :: time

section \<open>Items\<close>

type_synonym resource_store = "resource dict"

definition res_add :: "resource_store \<Rightarrow> resource \<Rightarrow> resource_store" where
  "res_add d r = dset d (re_id r) r"

definition res_get :: "resource_store \<Rightarrow> pystr \<Rightarrow> resource option" where
  "res_get d i = dget d i"

definition dedup_key :: "resource \<Rightarrow> pystr \<times> pystr option \<times> pystr option" where
  "dedup_key r = (re_tenant_id r, re_source_id r, re_external_id r)"

definition upsert :: "resource_store \<Rightarrow> resource \<Rightarrow> resource_store" where
  "upsert d r =
     (let key = dedup_key r;
          d' = (if re_external_id r \<noteq> None \<and> re_source_id r \<noteq> None
                then fold (\<lambda>existing acc. if dedup_key existing = key \<and> re_id existing \<noteq> re_id r
                                          then dpop acc (re_id existing) else acc)
                       (dvalues d) d
                else d)
      in dset d' (re_id r) r)"

definition find_by_external_id :: "resource_store \<Rightarrow> pystr \<Rightarrow> pystr \<Rightarrow> pystr \<Rightarrow> resource option" where
  "find_by_external_id d tenant_id kind external_id =
     find (\<lambda>r. re_tenant_id r = tenant_id \<and> re_kind r = kind \<and> re_external_id r = Some external_id)
       (dvalues d)"

definition res_list_for :: "resource_store \<Rightarrow> pystr \<Rightarrow> pystr option \<Rightarrow> int \<Rightarrow> resource list" where
  "res_list_for d tenant_id kind lmt =
     (let results = filter (\<lambda>r. re_tenant_id r = tenant_id \<and> re_status r = (lit ''active'')
                                \<and> (kind = None \<or> kind = Some (re_kind r))) (dvalues d)
      in slice_to (sort_desc re_created_at results) lmt)"

definition res_delete :: "resource_store \<Rightarrow> pystr \<Rightarrow> resource_store" where
  "res_delete d i = dpop d i"

section \<open>Search\<close>

text \<open>\<open>_as_number\<close> and \<open>_matches_filter\<close>. A bound that is not a number makes the filter raise.\<close>

definition as_number :: "json \<Rightarrow> pyfloat option" where
  "as_number v = (case float_of_json v of Inl _ \<Rightarrow> None | Inr f \<Rightarrow> Some f)"

definition matches_filter :: "json dict \<Rightarrow> pystr \<Rightarrow> json \<Rightarrow> bool res" where
  "matches_filter data key value =
     (if startswith key (lit ''max_'') then
        (case as_number (dget_or data (drop 4 key) JNull) of
           None \<Rightarrow> Inr True
         | Some a \<Rightarrow> (case float_of_json value of Inl e \<Rightarrow> Inl e | Inr v \<Rightarrow> Inr (float_le a v)))
      else if startswith key (lit ''min_'') then
        (case as_number (dget_or data (drop 4 key) JNull) of
           None \<Rightarrow> Inr False
         | Some a \<Rightarrow> (case float_of_json value of Inl e \<Rightarrow> Inl e | Inr v \<Rightarrow> Inr (float_le v a)))
      else
        (let actual = dget_or data key JNull
         in case (as_str actual, as_str value) of
              (Some a, Some v) \<Rightarrow> Inr (lower a = lower v)
            | _ \<Rightarrow> Inr (py_eq actual value)))"

fun matches_all :: "json dict \<Rightarrow> json dict \<Rightarrow> bool res" where
  "matches_all data [] = Inr True"
| "matches_all data ((k, v) # fs) =
     (case matches_filter data k v of
        Inl e \<Rightarrow> Inl e
      | Inr b \<Rightarrow> if \<not> b then Inr False else matches_all data fs)"

definition haystack :: "resource \<Rightarrow> pystr" where
  "haystack r = lower (re_summary r @ (lit '' '') @ dumps False (JObj (re_data r)))"

definition matches :: "json dict \<Rightarrow> pystr \<Rightarrow> resource \<Rightarrow> bool res" where
  "matches f needle r =
     (case matches_all (re_data r) f of
        Inl e \<Rightarrow> Inl e
      | Inr b \<Rightarrow> Inr (b \<and> (needle = [] \<or> contains needle (haystack r))))"

fun filter_res :: "('a \<Rightarrow> bool res) \<Rightarrow> 'a list \<Rightarrow> 'a list res" where
  "filter_res p [] = Inr []"
| "filter_res p (x # xs) =
     (case p x of
        Inl e \<Rightarrow> Inl e
      | Inr b \<Rightarrow> (case filter_res p xs of Inl e \<Rightarrow> Inl e | Inr ys \<Rightarrow> Inr (if b then x # ys else ys)))"

definition res_search ::
  "resource_store \<Rightarrow> pystr \<Rightarrow> json dict option \<Rightarrow> pystr option \<Rightarrow> pystr option \<Rightarrow> int
     \<Rightarrow> resource list res" where
  "res_search d tenant_id filters query_text kind lmt =
     (let candidates = res_list_for d tenant_id kind 10000;
          f = (case filters of None \<Rightarrow> [] | Some x \<Rightarrow> x);
          needle = strip (lower (case query_text of None \<Rightarrow> [] | Some q \<Rightarrow> q))
      in case filter_res (matches f needle) candidates of
           Inl e \<Rightarrow> Inl e
         | Inr rs \<Rightarrow> Inr (slice_to rs lmt))"

section \<open>Data sources\<close>

type_synonym source_store = "data_source dict"

definition src_add :: "source_store \<Rightarrow> data_source \<Rightarrow> source_store" where
  "src_add d s = dset d (ds_id s) s"

definition src_get :: "source_store \<Rightarrow> pystr \<Rightarrow> data_source option" where
  "src_get d i = dget d i"

definition src_list_for :: "source_store \<Rightarrow> pystr \<Rightarrow> data_source list" where
  "src_list_for d tenant_id = sort_desc ds_created_at (filter (\<lambda>s. ds_tenant_id s = tenant_id) (dvalues d))"

definition src_list_all_active :: "source_store \<Rightarrow> data_source list" where
  "src_list_all_active d = sort_desc ds_created_at (filter (\<lambda>s. ds_status s = (lit ''active'')) (dvalues d))"

definition src_update :: "source_store \<Rightarrow> data_source \<Rightarrow> source_store res" where
  "src_update d s =
     (if dget d (ds_id s) = None then Inl (KeyError ((lit ''unknown source: '') @ ds_id s))
      else Inr (dset d (ds_id s) s))"

definition src_delete :: "source_store \<Rightarrow> pystr \<Rightarrow> source_store" where
  "src_delete d i = dpop d i"

interpretation sources_by_id: keyed_store ds_id src_add src_get
  by unfold_locales (simp_all add: src_add_def src_get_def store_intros)

section \<open>Query log\<close>

record query_log =
  qg_entries :: "query_log_entry list"
  qg_next_id :: int

definition new_query_log :: query_log where
  "new_query_log = \<lparr>qg_entries = [], qg_next_id = 1\<rparr>"

definition log_query :: "query_log \<Rightarrow> query_log_entry \<Rightarrow> query_log \<times> query_log_entry" where
  "log_query q e =
     (let stored = e\<lparr>ql_id := Some (qg_next_id q)\<rparr>
      in (\<lparr>qg_entries = qg_entries q @ [stored], qg_next_id = qg_next_id q + 1\<rparr>, stored))"

definition list_recent :: "query_log \<Rightarrow> pystr \<Rightarrow> int \<Rightarrow> query_log_entry list" where
  "list_recent q tenant_id lmt =
     slice_to (sort_desc (\<lambda>e. (ql_created_at e, (case ql_id e of None \<Rightarrow> 0 | Some i \<Rightarrow> i)))
                 (filter (\<lambda>e. ql_tenant_id e = tenant_id) (qg_entries q))) lmt"

section \<open>The contract of the item store\<close>

text \<open>Two items clash when both have a source and an external id and agree on the dedup key.\<close>

definition clash :: "resource \<Rightarrow> resource \<Rightarrow> bool" where
  "clash a b \<longleftrightarrow> re_source_id b \<noteq> None \<and> re_external_id b \<noteq> None \<and> dedup_key a = dedup_key b"

definition dedup_ok :: "resource set \<Rightarrow> bool" where
  "dedup_ok R \<longleftrightarrow> (\<forall>a \<in> R. \<forall>b \<in> R. clash a b \<longrightarrow> re_id a = re_id b)"

locale resource_repository = keyed_store re_id add get
  for add :: "resource dict \<Rightarrow> resource \<Rightarrow> resource dict" and get :: "resource dict \<Rightarrow> pystr \<Rightarrow> resource option" +
  fixes put :: "resource dict \<Rightarrow> resource \<Rightarrow> resource dict"
    and by_external :: "resource dict \<Rightarrow> pystr \<Rightarrow> pystr \<Rightarrow> pystr \<Rightarrow> resource option"
  assumes put_ok2: "store_ok re_id d \<Longrightarrow> store_ok re_id (put d r)"
    and put_get2: "store_ok re_id d \<Longrightarrow> get (put d r) i =
          (if i = re_id r then Some r
           else case get d i of None \<Rightarrow> None | Some e \<Rightarrow> if clash e r then None else Some e)"
    and ext_Some: "by_external d t k x = Some r \<Longrightarrow>
          r \<in> set (dvalues d) \<and> re_tenant_id r = t \<and> re_kind r = k \<and> re_external_id r = Some x"
    and ext_None: "by_external d t k x = None \<Longrightarrow> r \<in> set (dvalues d) \<Longrightarrow>
          \<not> (re_tenant_id r = t \<and> re_kind r = k \<and> re_external_id r = Some x)"
begin

lemma put_items:
  assumes "store_ok re_id d"
  shows "x \<in> set (dvalues (put d r)) \<longleftrightarrow>
    x = r \<or> (x \<in> set (dvalues d) \<and> re_id x \<noteq> re_id r \<and> \<not> clash x r)"
proof -
  have "x \<in> set (dvalues (put d r)) \<longleftrightarrow> get (put d r) (re_id x) = Some x"
    using get_mem[OF put_ok2[OF assms]] by blast
  moreover have "x \<in> set (dvalues d) \<longleftrightarrow> get d (re_id x) = Some x"
    using get_mem[OF assms] by blast
  ultimately show ?thesis
    by (simp add: put_get2[OF assms]) (auto split: option.splits)
qed

lemma clash_sym: "clash a b \<Longrightarrow> clash b a"
  by (auto simp: clash_def dedup_key_def)

lemma put_dedup:
  assumes "store_ok re_id d" and "dedup_ok (set (dvalues d))"
  shows "dedup_ok (set (dvalues (put d r)))"
  unfolding dedup_ok_def
proof (intro ballI impI)
  fix a b assume "a \<in> set (dvalues (put d r))" "b \<in> set (dvalues (put d r))" "clash a b"
  then show "re_id a = re_id b"
    using assms(2) clash_sym unfolding put_items[OF assms(1)] dedup_ok_def by blast
qed

text \<open>Writing twice is writing once, and the later write of a key is the one kept.\<close>

lemma put_replaces:
  assumes "store_ok re_id d" and "clash a b" and "get d (re_id a) = None"
  shows "get (put (put d a) b) i = get (put d b) i"
proof -
  have ext: "clash e a \<longleftrightarrow> clash e b" for e
    using assms(2) by (auto simp: clash_def dedup_key_def)
  show ?thesis
    using assms(2,3) by (auto simp: put_get2 put_ok2 assms(1) ext split: option.splits)
qed

lemma put_twice:
  "store_ok re_id d \<Longrightarrow> get (put (put d r) r) i = get (put d r) i"
  by (auto simp: put_get2 put_ok2 split: option.splits)

lemma put_other_tenant:
  "store_ok re_id d \<Longrightarrow> get d i = Some e \<Longrightarrow> re_tenant_id e \<noteq> re_tenant_id r \<Longrightarrow> i \<noteq> re_id r
     \<Longrightarrow> get (put d r) i = Some e"
  by (auto simp: put_get2 clash_def dedup_key_def)

lemma external_iff:
  "(\<exists>r. by_external d t k x = Some r) \<longleftrightarrow>
     (\<exists>r \<in> set (dvalues d). re_tenant_id r = t \<and> re_kind r = k \<and> re_external_id r = Some x)"
  using ext_Some ext_None by (metis not_Some_eq)

end

lemma fold_pops:
  "dget (fold (\<lambda>e acc. if P e then dpop acc (f e) else acc) es d) i =
     (if \<exists>e \<in> set es. P e \<and> f e = i then None else dget d i)"
  by (induction es arbitrary: d) auto

lemma fold_pops_store:
  "store_ok ident d \<Longrightarrow> store_ok ident (fold (\<lambda>e acc. if P e then dpop acc (f e) else acc) es d)"
  by (induction es arbitrary: d) (auto intro: store_ok_dpop)

lemma store_lookup:
  "store_ok ident d \<Longrightarrow> dget d i = Some x \<longleftrightarrow> x \<in> set (dvalues d) \<and> ident x = i"
  unfolding store_ok_def by (force simp: dvalues_def dget_mem_iff[symmetric])

interpretation resources: resource_repository res_add res_get upsert find_by_external_id
proof (unfold_locales, goal_cases)
  case (1 d i)
  show ?case by (simp add: res_get_def)
next
  case (2 d x i)
  show ?case by (simp add: res_get_def res_add_def)
next
  case (3 d x)
  then show ?case by (simp add: res_add_def store_intros)
next
  case (4 d x)
  then show ?case by (simp add: res_add_def res_get_def store_intros)
next
  case (5 d r)
  then show ?case by (simp add: upsert_def Let_def store_ok_dset fold_pops_store)
next
  case (6 d r i)
  have mem: "(\<exists>e \<in> set (dvalues d). Q e \<and> re_id e = i) \<longleftrightarrow> (\<exists>e. dget d i = Some e \<and> Q e)" for Q
    using store_lookup[OF 6] by blast
  have pop: "dget (fold (\<lambda>e acc. if dedup_key e = dedup_key r \<and> re_id e \<noteq> re_id r
        then dpop acc (re_id e) else acc) (dvalues d) d) i =
      (if \<exists>e. dget d i = Some e \<and> dedup_key e = dedup_key r \<and> re_id e \<noteq> re_id r then None else dget d i)"
    unfolding fold_pops mem ..
  have "dget d i = Some e \<Longrightarrow> re_id e = i" for e
    using store_lookup[OF 6] by blast
  then show ?case
    by (cases "dget d i") (auto simp: upsert_def res_get_def Let_def pop clash_def)
next
  case (7 d t k x r)
  then show ?case by (auto simp: find_by_external_id_def dest: find_Some_mem)
next
  case (8 d t k x r)
  then show ?case by (auto simp: find_by_external_id_def dest: find_None_all)
qed

section \<open>Listings and search\<close>

lemma filter_res_eq:
  "(\<And>x. x \<in> set xs \<Longrightarrow> p x = Inr (q x)) \<Longrightarrow> filter_res p xs = Inr (filter q xs)"
  by (induction xs) auto

lemma filter_res_Inr:
  "filter_res p xs = Inr ys \<Longrightarrow> ys = filter (\<lambda>x. p x = Inr True) xs \<and> (\<forall>x \<in> set xs. \<exists>b. p x = Inr b)"
  by (induction xs arbitrary: ys) (auto split: sum.splits if_splits)

lemma list_for_mem:
  "r \<in> set (res_list_for d t k lmt) \<Longrightarrow> r \<in> set (dvalues d) \<and> re_tenant_id r = t \<and> re_status r = (lit ''active'')
     \<and> (\<forall>kd. k = Some kd \<longrightarrow> re_kind r = kd)"
  using set_slice_to_subset by (fastforce simp: res_list_for_def Let_def)

lemma list_for_complete:
  "r \<in> set (dvalues d) \<Longrightarrow> re_tenant_id r = t \<Longrightarrow> re_status r = (lit ''active'') \<Longrightarrow>
     (\<And>kd. k = Some kd \<Longrightarrow> re_kind r = kd) \<Longrightarrow> int (length d) \<le> lmt \<Longrightarrow> r \<in> set (res_list_for d t k lmt)"
proof -
  assume r: "r \<in> set (dvalues d)" "re_tenant_id r = t" "re_status r = (lit ''active'')"
    "\<And>kd. k = Some kd \<Longrightarrow> re_kind r = kd" "int (length d) \<le> lmt"
  let ?q = "\<lambda>r. re_tenant_id r = t \<and> re_status r = (lit ''active'') \<and> (k = None \<or> k = Some (re_kind r))"
  have "length (filter ?q (dvalues d)) \<le> length d"
    using length_filter_le[of ?q "dvalues d"] by (simp add: dvalues_def)
  then have "int (length (sort_desc re_created_at (filter ?q (dvalues d)))) \<le> lmt"
    using r(5) by simp
  moreover have "k = None \<or> k = Some (re_kind r)" using r(4) by (cases k) auto
  ultimately show ?thesis using r(1-3) by (simp add: res_list_for_def Let_def slice_to_all)
qed

lemma list_for_sorted: "sorted_wrt (\<lambda>x y. re_created_at y \<le> re_created_at x) (res_list_for d t k lmt)"
  using sorted_sort_desc by (auto simp: res_list_for_def Let_def slice_to_def intro: sorted_wrt_take)

text \<open>
  A search that returns lists items of the tenant that pass every filter and contain the text;
  nothing else, newest first, and at most \<open>limit\<close> of them.
\<close>

lemma search_sound:
  assumes "res_search d t filters q k lmt = Inr rs" and "r \<in> set rs"
  shows "r \<in> set (dvalues d) \<and> re_tenant_id r = t \<and> re_status r = (lit ''active'')
    \<and> (\<forall>kd. k = Some kd \<longrightarrow> re_kind r = kd)
    \<and> matches_all (re_data r) (case filters of None \<Rightarrow> [] | Some f \<Rightarrow> f) = Inr True
    \<and> (\<forall>txt. q = Some txt \<longrightarrow> contains (strip (lower txt)) (haystack r))"
proof -
  let ?f = "case filters of None \<Rightarrow> [] | Some f \<Rightarrow> f"
  let ?n = "strip (lower (case q of None \<Rightarrow> [] | Some q \<Rightarrow> q))"
  obtain ys where ys: "filter_res (matches ?f ?n) (res_list_for d t k 10000) = Inr ys" "rs = slice_to ys lmt"
    using assms(1) by (auto simp: res_search_def Let_def split: sum.splits)
  then have "r \<in> set (filter (\<lambda>x. matches ?f ?n x = Inr True) (res_list_for d t k 10000))"
    using assms(2) filter_res_Inr[OF ys(1)] set_slice_to_subset by fastforce
  then have "r \<in> set (res_list_for d t k 10000)" "matches ?f ?n r = Inr True" by auto
  with list_for_mem[of r d t k 10000] show ?thesis
    by (auto simp: matches_def split: sum.splits)
qed

lemma search_complete:
  assumes "res_search d t filters q k lmt = Inr rs" and "int (length d) \<le> 10000" and "int (length d) \<le> lmt"
    and "r \<in> set (dvalues d)" and "re_tenant_id r = t" and "re_status r = (lit ''active'')"
    and "\<And>kd. k = Some kd \<Longrightarrow> re_kind r = kd"
    and "matches_all (re_data r) (case filters of None \<Rightarrow> [] | Some f \<Rightarrow> f) = Inr True"
    and "\<And>txt. q = Some txt \<Longrightarrow> contains (strip (lower txt)) (haystack r)"
  shows "r \<in> set rs"
proof -
  let ?f = "case filters of None \<Rightarrow> [] | Some f \<Rightarrow> f"
  let ?n = "strip (lower (case q of None \<Rightarrow> [] | Some q \<Rightarrow> q))"
  obtain ys where ys: "filter_res (matches ?f ?n) (res_list_for d t k 10000) = Inr ys" "rs = slice_to ys lmt"
    using assms(1) by (auto simp: res_search_def Let_def split: sum.splits)
  have "length (res_list_for d t k 10000) \<le> length d"
  proof -
    have "length (slice_to (sort_desc re_created_at (filter p (dvalues d))) n) \<le> length d" for p n
      using length_slice_to_le[of "sort_desc re_created_at (filter p (dvalues d))" n]
        length_filter_le[of p "dvalues d"] by simp
    then show ?thesis by (simp add: res_list_for_def Let_def)
  qed
  moreover have "length ys \<le> length (res_list_for d t k 10000)"
    using filter_res_Inr[OF ys(1)] by auto
  ultimately have "rs = ys" using ys(2) assms(3) by (simp add: slice_to_all)
  have "r \<in> set (res_list_for d t k 10000)"
    by (rule list_for_complete[OF assms(4,5,6,7,2)])
  moreover have "matches ?f ?n r = Inr True"
    using assms(8,9) by (cases q) (auto simp: matches_def)
  ultimately show ?thesis
    using filter_res_Inr[OF ys(1)] \<open>rs = ys\<close> by simp
qed

lemma search_length: "res_search d t f q k lmt = Inr rs \<Longrightarrow> 0 \<le> lmt \<Longrightarrow> int (length rs) \<le> lmt"
  by (auto simp: res_search_def Let_def slice_to_def split: sum.splits)

text \<open>Only a bound that is not a number can make a search raise.\<close>

definition bound_ok :: "pystr \<times> json \<Rightarrow> bool" where
  "bound_ok kv \<longleftrightarrow> (startswith (fst kv) (lit ''max_'') \<or> startswith (fst kv) (lit ''min_''))
     \<longrightarrow> (\<exists>v. float_of_json (snd kv) = Inr v)"

lemma matches_all_total: "\<forall>kv \<in> set f. bound_ok kv \<Longrightarrow> \<exists>b. matches_all data f = Inr b"
proof (induction f)
  case (Cons kv f)
  obtain k v where kv: "kv = (k, v)" by (cases kv)
  have "\<exists>b. matches_filter data k v = Inr b"
    using Cons.prems by (auto simp: kv matches_filter_def bound_ok_def Let_def split: option.splits sum.splits)
  then obtain b where b: "matches_filter data k v = Inr b" by blast
  with Cons show ?case by (cases b) (auto simp: kv intro: exI[of _ False])
qed (auto intro: exI[of _ True])

lemma filter_res_total: "(\<And>x. x \<in> set xs \<Longrightarrow> \<exists>b. p x = Inr b) \<Longrightarrow> \<exists>ys. filter_res p xs = Inr ys"
proof (induction xs)
  case (Cons x xs)
  obtain b ys where "p x = Inr b" "filter_res p xs = Inr ys"
    using Cons by (meson list.set_intros)
  then show ?case by simp
qed simp

lemma search_total: "\<forall>kv \<in> set f. bound_ok kv \<Longrightarrow> \<exists>rs. res_search d t (Some f) q k lmt = Inr rs"
proof -
  assume ok: "\<forall>kv \<in> set f. bound_ok kv"
  define n where "n = strip (lower (case q of None \<Rightarrow> [] | Some q \<Rightarrow> q))"
  have "\<exists>b. matches f n r = Inr b" for r
    using matches_all_total[OF ok, of "re_data r"] by (auto simp: matches_def)
  then obtain ys where "filter_res (matches f n) (res_list_for d t k 10000) = Inr ys"
    using filter_res_total[of "res_list_for d t k 10000" "matches f n"] by auto
  then show ?thesis by (simp add: res_search_def Let_def n_def)
qed

section \<open>Sources and the log\<close>

lemma src_update_spec:
  "store_ok ds_id d \<Longrightarrow> src_update d s = Inr d' \<Longrightarrow>
     store_ok ds_id d' \<and> dkeys d' = dkeys d \<and> src_get d' i = (if i = ds_id s then Some s else src_get d i)"
  by (auto simp: src_update_def src_get_def dkeys_dset dget_None_iff[symmetric] store_intros split: if_splits)

definition log_ok :: "query_log \<Rightarrow> bool" where
  "log_ok q \<longleftrightarrow> qg_next_id q = int (length (qg_entries q)) + 1 \<and>
     (\<forall>n < length (qg_entries q). ql_id (qg_entries q ! n) = Some (int n + 1))"

lemma log_query_ok: "log_ok q \<Longrightarrow> log_ok (fst (log_query q e))"
  by (auto simp: log_ok_def log_query_def Let_def nth_append less_Suc_eq)

lemma log_query_append:
  "qg_entries (fst (log_query q e)) = qg_entries q @ [snd (log_query q e)] \<and>
   ql_id (snd (log_query q e)) = Some (qg_next_id q) \<and> ql_tenant_id (snd (log_query q e)) = ql_tenant_id e"
  by (simp add: log_query_def Let_def)

lemma list_recent_mem: "e \<in> set (list_recent q t lmt) \<Longrightarrow> e \<in> set (qg_entries q) \<and> ql_tenant_id e = t"
  using set_slice_to_subset by (fastforce simp: list_recent_def)

end
