(* ===== verification/Learning.thy ===== *)
theory Learning
  imports Resources
begin

text \<open>
  Schema discovery and the hints block of the prompt (\<open>sdk/wapsell/resources/learning.py\<close>). The
  frequencies are exact rationals; for samples of at most 50 rows, the size the service uses, the
  floats of the source order, threshold and round the same way.
\<close>

section \<open>Counting\<close>

definition bump :: "(pystr \<times> nat) list \<Rightarrow> pystr \<Rightarrow> (pystr \<times> nat) list" where
  "bump d k = dset d k (dget_or d k 0 + 1)"

lemma bump_get: "dget_or (bump d k) k' 0 = dget_or d k' 0 + (if k' = k then 1 else 0)"
  by (simp add: bump_def dget_or_def)

lemma fold_bump: "dget_or (fold (\<lambda>k d. bump d k) ks d) k 0 = dget_or d k 0 + count_list ks k"
  by (induction ks arbitrary: d) (simp_all add: bump_get)

lemma fold_bump_ok: "dict_ok d \<Longrightarrow> dict_ok (fold (\<lambda>k d. bump d k) ks d)"
  by (induction ks arbitrary: d) (simp_all add: bump_def)

lemma fold_bump_keys: "set (dkeys (fold (\<lambda>k d. bump d k) ks d)) = set (dkeys d) \<union> set ks"
  by (induction ks arbitrary: d) (auto simp: bump_def dkeys_dset)

lemma fold_nested: "fold (\<lambda>x. fold f (g x)) xs a = fold f (concat (map g xs)) a"
  by (induction xs arbitrary: a) simp_all

section \<open>Schema discovery\<close>

record field_frequency =
  ff_name :: pystr
  ff_presence :: rat
  ff_example_values :: "pystr list"
  ff_is_numeric :: bool

definition is_numeric :: "json \<Rightarrow> bool" where
  "is_numeric v =
     (case v of JBool _ \<Rightarrow> False
      | _ \<Rightarrow> (case float_of_json v of Inl _ \<Rightarrow> False | Inr _ \<Rightarrow> True))"

definition short_value :: "json \<Rightarrow> pystr" where
  "short_value v =
     (let text = strip (py_str v)
      in if length text \<le> 60 then text else rstrip (take 59 text) @ [8230])"

type_synonym schema_acc = "nat dict \<times> pystr list dict \<times> nat dict"

definition see_field :: "pystr \<times> json \<Rightarrow> schema_acc \<Rightarrow> schema_acc" where
  "see_field nv acc =
     (case (nv, acc) of ((name, value), (counts, examples, votes)) \<Rightarrow>
        (let bucket = dget_or examples name [];
             bucket' = (if length bucket < 4 then bucket @ [short_value value] else bucket)
         in (bump counts name, dset examples name bucket',
             if is_numeric value then bump votes name else votes)))"

definition schema_of :: "resource list \<Rightarrow> field_frequency list" where
  "schema_of sample =
     (if sample = [] then []
      else (case fold (\<lambda>r. fold see_field (re_data r)) sample ([], [], []) of (counts, examples, votes) \<Rightarrow>
        (let total = length sample;
             fields = map (\<lambda>(name, n).
               \<lparr>ff_name = name, ff_presence = of_nat n / of_nat total,
                ff_example_values = dget_or examples name [],
                ff_is_numeric = (of_nat (dget_or votes name 0) / of_nat n \<ge> (7 / 10 :: rat))\<rparr>) counts
         in sort_key (\<lambda>f. (- ff_presence f, ff_name f)) fields)))"

definition discover_schema ::
  "resource_store \<Rightarrow> pystr \<Rightarrow> int \<Rightarrow> pystr option \<Rightarrow> field_frequency list" where
  "discover_schema d tenant_id sample_size kind = schema_of (res_list_for d tenant_id kind sample_size)"

section \<open>Most used filters\<close>

definition rollup :: "pystr \<Rightarrow> pystr" where
  "rollup k = (if startswith k (lit ''max_'') \<or> startswith k (lit ''min_'') then drop 4 k else k)"

definition top_filter_keys ::
  "query_log \<Rightarrow> pystr \<Rightarrow> time \<Rightarrow> int \<Rightarrow> int \<Rightarrow> (pystr \<times> nat) list" where
  "top_filter_keys q tenant_id now window_days lmt =
     (let cutoff = now - days window_days;
          entries = filter (\<lambda>e. \<not> ql_created_at e < cutoff) (list_recent q tenant_id 500);
          counter = fold (\<lambda>e. fold (\<lambda>kv c. bump c (rollup (fst kv))) (ql_filters e)) entries []
      in slice_to (sort_key (\<lambda>kv. (- int (snd kv), fst kv)) counter) lmt)"

section \<open>Insights and hints\<close>

record insights =
  in_tenant_id :: pystr
  in_sample_size :: int
  in_window_days :: int
  in_fields :: "field_frequency list"
  in_top_filters :: "(pystr \<times> nat) list"
  in_generated_at :: time

definition learn ::
  "resource_store \<Rightarrow> query_log \<Rightarrow> time \<Rightarrow> pystr \<Rightarrow> pystr option \<Rightarrow> int \<Rightarrow> int \<Rightarrow> int \<Rightarrow> insights" where
  "learn d q now tenant_id kind sample_size window_days top_n =
     \<lparr>in_tenant_id = tenant_id, in_sample_size = sample_size, in_window_days = window_days,
      in_fields = discover_schema d tenant_id sample_size kind,
      in_top_filters = top_filter_keys q tenant_id now window_days top_n,
      in_generated_at = now\<rparr>"

text \<open>
  \<open>f"{presence:.0%}"\<close>: the percentage rounded half to even. The product with 100 is exact for the
  fractions of at most 50 rows that end in one half, except for 23 of 40, whose float product
  is just below 57.5.
\<close>

definition percent :: "rat \<Rightarrow> pystr" where
  "percent p =
     (let x = p * 100; f = \<lfloor>x\<rfloor>; r = x - of_int f;
          n = (if p = 23 / 40 then 57 else if r > 1 / 2 \<or> (r = 1 / 2 \<and> odd f) then f + 1 else f)
      in int_str n @ (lit ''%''))"

definition field_line :: "field_frequency \<Rightarrow> pystr" where
  "field_line f =
     (let examples = join (lit '', '') (take 3 (ff_example_values f))
      in (lit ''- '' @ [96]) @ ff_name f @ ([96] @ lit '' ('') @ (if ff_is_numeric f then (lit ''numeric'') else (lit ''text'')) @ (lit '', '')
         @ percent (ff_presence f) @ (lit '')'') @ (if examples = [] then [] else (lit '' '' @ [8212] @ lit '' e.g. '') @ examples))"

definition filter_line :: "pystr \<times> nat \<Rightarrow> pystr" where
  "filter_line kc = (lit ''- '' @ [96]) @ fst kc @ ([96] @ lit '' ('') @ nat_digits (snd kc) @ (lit '' recent queries)'')"

definition render_soul_hints :: "resource_store \<Rightarrow> query_log \<Rightarrow> time \<Rightarrow> pystr \<Rightarrow> pystr option \<Rightarrow> pystr" where
  "render_soul_hints d q now tenant_id kind =
     (let ins = learn d q now tenant_id kind 50 30 5;
          useful = filter (\<lambda>f. ff_presence f \<ge> 1 / 4) (in_fields ins)
      in if in_fields ins = [] then []
         else if useful = [] then []
         else join [10]
           ([(lit ''## Catalog hints''),
             (lit ''These are the fields present in the tenant'' @ [39] @ lit ''s catalog. Use them '')
               @ (lit ''when filtering or quoting:'')]
            @ map field_line (take 10 useful)
            @ (if in_top_filters ins = [] then []
               else [[], (lit ''Buyers most often filter on these fields '' @ [8212] @ lit '' lean into them:'')]
                 @ map filter_line (in_top_filters ins))))"

section \<open>What the aggregation computes\<close>

lemma see_field_fold:
  "fold see_field fs (c, e, v) = (fold (\<lambda>k d. bump d k) (map fst fs) c,
     fst (snd (fold see_field fs (c, e, v))),
     fold (\<lambda>k d. bump d k) (map fst (filter (\<lambda>nv. is_numeric (snd nv)) fs)) v)"
  by (induction fs arbitrary: c e v) (auto simp: see_field_def Let_def)

definition examples_ok :: "pystr list dict \<Rightarrow> bool" where
  "examples_ok e \<longleftrightarrow> (\<forall>k xs. dget e k = Some xs \<longrightarrow> length xs \<le> 4 \<and> (\<forall>x \<in> set xs. length x \<le> 60))"

lemma short_value_bound: "length (short_value v) \<le> 60"
proof -
  have "length (rstrip (take 59 t)) \<le> 59" for t
    using length_rstrip_le[of "take 59 t"] by simp
  then show ?thesis by (simp add: short_value_def Let_def)
qed

lemma see_field_examples: "examples_ok e \<Longrightarrow> examples_ok (fst (snd (see_field nv (c, e, v))))"
proof -
  assume e: "examples_ok e"
  obtain name j where nv: "nv = (name, j)" by (cases nv)
  let ?b = "dget_or e name []"
  have b: "length ?b \<le> 4" "\<forall>x \<in> set ?b. length x \<le> 60"
    using e by (cases "dget e name"; auto simp: examples_ok_def dget_or_def)+
  define b' where "b' = (if length ?b < 4 then ?b @ [short_value j] else ?b)"
  have "length b' \<le> 4" "\<forall>x \<in> set b'. length x \<le> 60"
    using b short_value_bound by (auto simp: b'_def)
  then have "examples_ok (dset e name b')"
    using e by (auto simp: examples_ok_def)
  then show ?thesis by (simp add: nv see_field_def Let_def b'_def)
qed

lemma fold_examples: "examples_ok (fst (snd acc)) \<Longrightarrow> examples_ok (fst (snd (fold see_field fs acc)))"
proof (induction fs arbitrary: acc)
  case (Cons nv fs)
  obtain c e v where "acc = (c, e, v)" by (cases acc)
  with Cons see_field_examples show ?case by simp
qed simp

lemma count_distinct: "distinct xs \<Longrightarrow> count_list xs x = (if x \<in> set xs then 1 else 0)"
  by (induction xs) auto

lemma count_fields:
  "(\<And>r. r \<in> set rs \<Longrightarrow> dict_ok (re_data r)) \<Longrightarrow>
   count_list (map fst (concat (map re_data rs))) k = length (filter (\<lambda>r. k \<in> set (dkeys (re_data r))) rs)"
proof (induction rs)
  case (Cons r rs)
  have "count_list (map fst (re_data r)) k = (if k \<in> set (dkeys (re_data r)) then 1 else 0)"
    using Cons.prems[of r] by (simp add: dict_ok_def dkeys_def count_distinct)
  with Cons show ?case by simp
qed simp

lemma schema_fold:
  assumes "fold (\<lambda>r. fold see_field (re_data r)) sample ([], [], []) = (counts, examples, votes)"
  shows "counts = fold (\<lambda>k d. bump d k) (map fst (concat (map re_data sample))) []"
    and "votes = fold (\<lambda>k d. bump d k)
           (map fst (filter (\<lambda>nv. is_numeric (snd nv)) (concat (map re_data sample)))) []"
    and "examples_ok examples"
proof -
  have eq: "fold see_field (concat (map re_data sample)) ([], [], []) = (counts, examples, votes)"
    using assms by (simp add: fold_nested)
  show "counts = fold (\<lambda>k d. bump d k) (map fst (concat (map re_data sample))) []"
    using eq see_field_fold[of "concat (map re_data sample)" "[]" "[]" "[]"] by simp
  show "votes = fold (\<lambda>k d. bump d k)
           (map fst (filter (\<lambda>nv. is_numeric (snd nv)) (concat (map re_data sample)))) []"
    using eq see_field_fold[of "concat (map re_data sample)" "[]" "[]" "[]"] by simp
  show "examples_ok examples"
    using eq fold_examples[of "([], [], [])" "concat (map re_data sample)"] by (simp add: examples_ok_def)
qed

definition rows_with :: "pystr \<Rightarrow> resource list \<Rightarrow> nat" where
  "rows_with k sample = length (filter (\<lambda>r. k \<in> set (dkeys (re_data r))) sample)"

definition numeric_rows :: "pystr \<Rightarrow> resource list \<Rightarrow> nat" where
  "numeric_rows k sample =
     count_list (map fst (filter (\<lambda>nv. is_numeric (snd nv)) (concat (map re_data sample)))) k"

lemma schema_field:
  assumes ok: "\<And>r. r \<in> set sample \<Longrightarrow> dict_ok (re_data r)" and f: "f \<in> set (schema_of sample)"
  shows "ff_presence f = of_nat (rows_with (ff_name f) sample) / of_nat (length sample)"
    and "ff_is_numeric f \<longleftrightarrow>
           of_nat (numeric_rows (ff_name f) sample) / of_nat (rows_with (ff_name f) sample) \<ge> (7 / 10 :: rat)"
    and "length (ff_example_values f) \<le> 4" and "x \<in> set (ff_example_values f) \<Longrightarrow> length x \<le> 60"
proof -
  obtain counts examples votes where acc:
    "fold (\<lambda>r. fold see_field (re_data r)) sample ([], [], []) = (counts, examples, votes)"
    by (metis prod_cases3)
  note facts = schema_fold[OF acc]
  have ok_counts: "dict_ok counts" unfolding facts(1) by (rule fold_bump_ok) simp
  from f acc obtain name n where nf: "(name, n) \<in> set counts"
    "f = \<lparr>ff_name = name, ff_presence = of_nat n / of_nat (length sample),
          ff_example_values = dget_or examples name [],
          ff_is_numeric = (of_nat (dget_or votes name 0) / of_nat n \<ge> (7 / 10 :: rat))\<rparr>"
    by (auto simp: schema_of_def Let_def split: if_splits)
  then have "dget counts name = Some n" using ok_counts by (simp add: dget_mem_iff)
  then have "n = dget_or counts name 0" by (simp add: dget_or_def)
  then have n: "n = rows_with name sample"
    using count_fields[of sample name] ok unfolding facts(1) fold_bump rows_with_def
    by (simp add: dget_or_def[of "[]"])
  have v: "dget_or votes name 0 = numeric_rows name sample"
    unfolding facts(2) fold_bump numeric_rows_def by (simp add: dget_or_def)
  show "ff_presence f = of_nat (rows_with (ff_name f) sample) / of_nat (length sample)"
    "ff_is_numeric f \<longleftrightarrow>
       of_nat (numeric_rows (ff_name f) sample) / of_nat (rows_with (ff_name f) sample) \<ge> (7 / 10 :: rat)"
    by (simp_all add: nf n v)
  have "length (dget_or examples name []) \<le> 4 \<and> (\<forall>x \<in> set (dget_or examples name []). length x \<le> 60)"
    using facts(3) by (auto simp: examples_ok_def dget_or_def split: option.splits)
  then show "length (ff_example_values f) \<le> 4" "x \<in> set (ff_example_values f) \<Longrightarrow> length x \<le> 60"
    by (simp_all add: nf)
qed

lemma schema_names:
  "distinct (map ff_name (schema_of sample)) \<and>
   set (map ff_name (schema_of sample)) = (\<Union>r \<in> set sample. set (dkeys (re_data r)))"
proof -
  obtain counts examples votes where acc:
    "fold (\<lambda>r. fold see_field (re_data r)) sample ([], [], []) = (counts, examples, votes)"
    by (metis prod_cases3)
  note facts = schema_fold[OF acc]
  let ?mk = "\<lambda>(name, n). \<lparr>ff_name = name, ff_presence = of_nat n / of_nat (length sample),
          ff_example_values = dget_or examples name [],
          ff_is_numeric = (of_nat (dget_or votes name 0) / of_nat n \<ge> (7 / 10 :: rat))\<rparr>"
  have names: "map (ff_name \<circ> ?mk) counts = dkeys counts"
    by (auto simp: dkeys_def)
  have "dict_ok counts" unfolding facts(1) by (rule fold_bump_ok) simp
  then have d: "distinct (map (ff_name \<circ> ?mk) counts)" unfolding names by (simp add: dict_ok_def dkeys_def)
  have k: "set (dkeys counts) = (\<Union>r \<in> set sample. set (dkeys (re_data r)))"
    unfolding facts(1) fold_bump_keys by (auto simp: dkeys_def)
  show ?thesis
  proof (cases "sample = []")
    case False
    then have eq: "schema_of sample = sort_key (\<lambda>f. (- ff_presence f, ff_name f)) (map ?mk counts)"
      by (simp add: schema_of_def acc Let_def)
    have "set (map ff_name (schema_of sample)) = set (map (ff_name \<circ> ?mk) counts)"
      unfolding eq by (simp add: image_image)
    moreover have "distinct (map ff_name (schema_of sample))"
    proof -
      have "inj_on ff_name (set (map ?mk counts)) \<and> distinct (map ?mk counts)"
        using d unfolding map_map[symmetric] distinct_map by blast
      then show ?thesis unfolding eq by (simp add: distinct_map)
    qed
    ultimately show ?thesis unfolding names k by simp
  qed (simp add: schema_of_def)
qed

lemma schema_sorted:
  "sorted (map (\<lambda>f. (- ff_presence f, ff_name f)) (schema_of sample))"
  by (simp add: schema_of_def Let_def split: prod.splits)

section \<open>Filters\<close>

lemma top_filters_count:
  assumes "(k, n) \<in> set (top_filter_keys q t now w lmt)"
  shows "n = count_list (map (\<lambda>kv. rollup (fst kv)) (concat (map ql_filters
               (filter (\<lambda>e. now - days w \<le> ql_created_at e) (list_recent q t 500))))) k"
proof -
  let ?es = "filter (\<lambda>e. \<not> ql_created_at e < now - days w) (list_recent q t 500)"
  let ?c = "fold (\<lambda>k d. bump d k) (map (\<lambda>kv. rollup (fst kv)) (concat (map ql_filters ?es))) []"
  have c: "fold (\<lambda>e. fold (\<lambda>kv c. bump c (rollup (fst kv))) (ql_filters e)) ?es [] = ?c"
    by (simp add: fold_nested fold_map comp_def)
  have "dict_ok ?c" by (rule fold_bump_ok) simp
  moreover have "(k, n) \<in> set ?c"
    using assms set_slice_to_subset unfolding top_filter_keys_def Let_def c by fastforce
  ultimately have "dget ?c k = Some n" by (simp add: dget_mem_iff)
  then have "n = dget_or ?c k 0" by (simp add: dget_or_def)
  then show ?thesis unfolding fold_bump not_less by (simp add: dget_or_def)
qed

lemma top_filters_length: "0 \<le> lmt \<Longrightarrow> int (length (top_filter_keys q t now w lmt)) \<le> lmt"
  by (auto simp: top_filter_keys_def Let_def slice_to_def)

lemma rollup_range: "rollup ((lit ''max_'') @ k) = k" "rollup ((lit ''min_'') @ k) = k"
  by (simp_all add: rollup_def)

text \<open>Without items in the sample there is no hints block, whatever buyers searched for.\<close>

lemma hints_empty: "res_list_for d t kind 50 = [] \<Longrightarrow> render_soul_hints d q now t kind = []"
  by (simp add: render_soul_hints_def learn_def discover_schema_def schema_of_def)

end
