(* ===== verification/Agent.thy ===== *)
theory Agent
  imports Soul Handoff Buyer_Memory Ingestion Learning
begin

text \<open>
  The language-model port (\<open>sdk/wapsell/llm/port.py\<close>) with its three adapters, and the agent loop
  (\<open>sdk/wapsell/agent/loop.py\<close>), which turns an inbound message into a reply. The loop reads
  memory, facts and items through \<open>ports\<close>, whose calls may raise; it writes nothing.
\<close>

section \<open>Messages and replies\<close>

datatype chat_role = System | User | Assistant

definition chat_role_str :: "chat_role \<Rightarrow> pystr" where
  "chat_role_str r = (case r of System \<Rightarrow> (lit ''system'') | User \<Rightarrow> (lit ''user'') | Assistant \<Rightarrow> (lit ''assistant''))"

record llm_message =
  lm_role :: chat_role
  lm_content :: pystr

record llm_reply =
  lr_text :: pystr
  lr_model :: pystr
  lr_metadata :: "json dict"

definition msg :: "chat_role \<Rightarrow> pystr \<Rightarrow> llm_message" where
  "msg r c = \<lparr>lm_role = r, lm_content = c\<rparr>"

section \<open>Adapters\<close>

definition echo_template :: pystr where
  "echo_template = (lit ''Recibimos tu mensaje. Te respondemos en breve con la informaci'' @ [243] @ lit ''n del cat'' @ [225] @ lit ''logo.'')"

definition echo_complete :: "pystr \<Rightarrow> llm_message list \<Rightarrow> pystr \<Rightarrow> llm_reply" where
  "echo_complete template messages model =
     (let last_user = (case find (\<lambda>m. lm_role m = User) (rev messages) of None \<Rightarrow> [] | Some m \<Rightarrow> lm_content m);
          echo = (if last_user \<noteq> [] then template @ (lit '' (te dijiste: '') @ take 120 last_user @ (lit '')'') else template)
      in \<lparr>lr_text = echo, lr_model = model, lr_metadata = [((lit ''adapter''), JStr (lit ''echo''))]\<rparr>)"

record scripted =
  sl_replies :: "pystr list"
  sl_calls :: "llm_message list list"

definition scripted_complete ::
  "scripted \<Rightarrow> llm_message list \<Rightarrow> pystr \<Rightarrow> scripted \<times> llm_reply res" where
  "scripted_complete st messages model =
     (let st' = st\<lparr>sl_calls := sl_calls st @ [messages]\<rparr>
      in case sl_replies st' of
           [] \<Rightarrow> (st', Inl (LLMError (lit ''ScriptedLLM ran out of canned replies'')))
         | r # rs \<Rightarrow>
             (st'\<lparr>sl_replies := rs\<rparr>,
              Inr \<lparr>lr_text = r, lr_model = model,
                   lr_metadata = [((lit ''adapter''), JStr (lit ''scripted'')),
                                  ((lit ''call_index''), JInt (int (length (sl_calls st')) - 1))]\<rparr>))"

text \<open>
  OpenRouter. The HTTP client answers with a status, a text and the parsed body or the text of
  its decoding error; a network failure is the text of the exception. Python's subscripts: a
  missing key and an index out of range are caught by the adapter, a value that cannot be
  subscripted is a \<open>TypeError\<close>, which is not. A dictionary subscripted with 0 raises
  \<open>KeyError(0)\<close>, whose text is the one of the \<open>IndexError\<close> used here.
\<close>

record chat_response =
  cr_status :: nat
  cr_text :: pystr
  cr_json :: "pystr + json"

type_synonym http_post = "pystr \<Rightarrow> json \<Rightarrow> pystr dict \<Rightarrow> pystr + chat_response"

definition subscript_error :: "json \<Rightarrow> exn" where
  "subscript_error j =
     (case j of JStr _ \<Rightarrow> TypeError (lit ''string indices must be integers, not '' @ [39] @ lit ''str'' @ [39])
      | JList _ \<Rightarrow> TypeError (lit ''list indices must be integers or slices, not str'')
      | JNull \<Rightarrow> TypeError ([39] @ lit ''NoneType'' @ [39] @ lit '' object is not subscriptable'')
      | JBool _ \<Rightarrow> TypeError ([39] @ lit ''bool'' @ [39] @ lit '' object is not subscriptable'')
      | JInt _ \<Rightarrow> TypeError ([39] @ lit ''int'' @ [39] @ lit '' object is not subscriptable'')
      | _ \<Rightarrow> TypeError ([39] @ lit ''float'' @ [39] @ lit '' object is not subscriptable''))"

definition at_key :: "string \<Rightarrow> json \<Rightarrow> json res" where
  "at_key k j =
     (case j of
        JObj d \<Rightarrow> (case dget d (lit k) of None \<Rightarrow> Inl (KeyError (lit k)) | Some v \<Rightarrow> Inr v)
      | v \<Rightarrow> Inl (subscript_error v))"

definition at_zero :: "json \<Rightarrow> json res" where
  "at_zero j =
     (case j of
        JList xs \<Rightarrow> (case xs of [] \<Rightarrow> Inl (IndexError (lit ''list index out of range'')) | x # _ \<Rightarrow> Inr x)
      | JStr s \<Rightarrow> (case s of [] \<Rightarrow> Inl (IndexError (lit ''string index out of range'')) | c # _ \<Rightarrow> Inr (JStr [c]))
      | JObj _ \<Rightarrow> Inl (IndexError (lit ''0''))
      | v \<Rightarrow> Inl (subscript_error v))"

definition choice_of :: "json \<Rightarrow> json res" where
  "choice_of data =
     and_then (and_then (and_then (at_key ''choices'' data) at_zero) (at_key ''message'')) (at_key ''content'')"

definition request_body :: "llm_message list \<Rightarrow> pystr \<Rightarrow> int \<Rightarrow> json \<Rightarrow> json" where
  "request_body messages model max_tokens temperature =
     JObj [((lit ''model''), JStr model),
           ((lit ''messages''), JList (map (\<lambda>m. JObj [((lit ''role''), JStr (chat_role_str (lm_role m))),
                                              ((lit ''content''), JStr (lm_content m))]) messages)),
           ((lit ''max_tokens''), JInt max_tokens), ((lit ''temperature''), temperature)]"

definition request_headers :: "pystr \<Rightarrow> pystr \<Rightarrow> pystr \<Rightarrow> pystr dict" where
  "request_headers api_key referer title =
     [((lit ''Authorization''), (lit ''Bearer '') @ api_key), ((lit ''Content-Type''), (lit ''application/json'')),
      ((lit ''HTTP-Referer''), referer), ((lit ''X-Title''), title)]"

definition openrouter_complete ::
  "http_post \<Rightarrow> pystr \<Rightarrow> pystr dict \<Rightarrow> llm_message list \<Rightarrow> pystr \<Rightarrow> int \<Rightarrow> json \<Rightarrow> llm_reply res" where
  "openrouter_complete post base_url headers messages model max_tokens temperature =
     (case post (base_url @ (lit ''/chat/completions'')) (request_body messages model max_tokens temperature) headers of
        Inl exc \<Rightarrow> Inl (LLMError ((lit ''openrouter request failed: '') @ exc))
      | Inr r \<Rightarrow>
          if cr_status r \<ge> 400
          then Inl (LLMError ((lit ''openrouter '') @ nat_digits (cr_status r) @ (lit '': '') @ cr_text r))
          else (case cr_json r of
                  Inl exc \<Rightarrow> Inl (LLMError ((lit ''openrouter response shape unexpected: '') @ exc))
                | Inr data \<Rightarrow>
                    (case choice_of data of
                       Inl (KeyError m) \<Rightarrow>
                         Inl (LLMError ((lit ''openrouter response shape unexpected: '') @ exn_text (KeyError m)))
                     | Inl (IndexError m) \<Rightarrow> Inl (LLMError ((lit ''openrouter response shape unexpected: '') @ m))
                     | Inl e \<Rightarrow> Inl e
                     | Inr choice \<Rightarrow>
                         (let usage = (case data of JObj d \<Rightarrow> dget_or d (lit ''usage'') (JObj []) | _ \<Rightarrow> JObj [])
                          in Inr \<lparr>lr_text = py_str choice, lr_model = model,
                                  lr_metadata = [((lit ''adapter''), JStr (lit ''openrouter'')), ((lit ''usage''), usage)]\<rparr>))))"

section \<open>The agent loop\<close>

definition handoff_model :: pystr where
  "handoff_model = (lit ''<handoff>'')"

record agent_turn =
  at_reply :: pystr
  at_model :: pystr
  at_facts_cited :: "fact list"
  at_history_used :: nat
  at_handoff :: "handoff_decision option"
  at_resources_cited :: "resource list"

text \<open>
  The ports of the loop and its constants. \<open>pt_search\<close> and \<open>pt_hints\<close> are absent when the loop
  is built without a resource repository or a learning service.
\<close>

record ports =
  pt_recall :: "pystr \<Rightarrow> int option \<Rightarrow> interaction list res"
  pt_facts :: "pystr \<Rightarrow> pystr \<Rightarrow> int \<Rightarrow> fact list res"
  pt_search :: "(pystr \<Rightarrow> pystr \<Rightarrow> pystr option \<Rightarrow> int \<Rightarrow> resource list res) option"
  pt_hints :: "(pystr \<Rightarrow> pystr res) option"
  pt_llm :: "llm_message list \<Rightarrow> pystr \<Rightarrow> llm_reply res"
  pt_resource_kind :: "pystr option"
  pt_resource_top_k :: int
  pt_history_turns :: int
  pt_rag_top_k :: int

definition render_facts_block :: "fact list \<Rightarrow> pystr" where
  "render_facts_block facts =
     join [10] ((lit ''## Catalog facts (use only what'' @ [39] @ lit ''s here; never invent prices or stock)'')
       # map (\<lambda>(i, f). nat_digits i @ (lit ''. ['') @ f_source f @ (lit ''] '') @ f_content f) (enumerate 1 facts))"

definition resource_lines :: "nat \<times> resource \<Rightarrow> pystr list" where
  "resource_lines ir =
     (case ir of (i, r) \<Rightarrow>
        (let ref = (case re_external_id r of None \<Rightarrow> re_id r | Some x \<Rightarrow> if x = [] then re_id r else x);
             data_compact = join (lit '', '') (map (\<lambda>(k, v). k @ (lit '': '') @ py_str v) (filter (\<lambda>kv. snd kv \<noteq> JNull) (re_data r)))
         in [nat_digits i @ (lit ''. **'') @ ref @ (lit ''** '' @ [8212] @ lit '' '') @ re_summary r]
            @ (if data_compact = [] then [] else [(lit ''   - '') @ data_compact])))"

definition render_resources_block :: "resource list \<Rightarrow> pystr" where
  "render_resources_block rs =
     join [10]
       ([(lit ''## Catalog items (structured, source of truth '' @ [8212] @ lit '' never invent fields)''),
         (lit ''Each item has an '' @ [96] @ lit ''id'' @ [96] @ lit '' you can quote and a '' @ [96] @ lit ''data'' @ [96] @ lit '' dict with all available attributes.'')]
        @ concat (map resource_lines (enumerate 1 rs)))"

definition history_message :: "interaction \<Rightarrow> llm_message" where
  "history_message turn = msg (if bi_role turn = Agent then Assistant else User) (bi_text turn)"

definition system_prompt ::
  "ports \<Rightarrow> tenant \<Rightarrow> fact list \<Rightarrow> resource list \<Rightarrow> soul_config option \<Rightarrow> pystr" where
  "system_prompt P t facts rs soul_cfg =
     (let hints = (case pt_hints P of
                     None \<Rightarrow> []
                   | Some render \<Rightarrow> (case render (t_id t) of Inl _ \<Rightarrow> [] | Inr h \<Rightarrow> h));
          soul = soul_build t soul_cfg hints;
          rag_block = (if facts \<noteq> [] then render_facts_block facts else []);
          resources_block = (if rs \<noteq> [] then render_resources_block rs else []);
          system_parts = [soul] @ (if resources_block \<noteq> [] then [resources_block] else [])
                         @ (if rag_block \<noteq> [] then [rag_block] else [])
      in join [10, 10] system_parts)"

definition compose_prompt ::
  "ports \<Rightarrow> tenant \<Rightarrow> interaction list \<Rightarrow> fact list \<Rightarrow> resource list \<Rightarrow> pystr \<Rightarrow> soul_config option
     \<Rightarrow> llm_message list" where
  "compose_prompt P t history facts rs message soul_cfg =
     [msg System (system_prompt P t facts rs soul_cfg)] @ map history_message history @ [msg User message]"

definition respond ::
  "ports \<Rightarrow> tenant \<Rightarrow> pystr \<Rightarrow> pystr \<Rightarrow> soul_config option \<Rightarrow> agent_turn res" where
  "respond P t buyer_id message soul_cfg =
     (let decision = evaluate message (t_handoff_config t)
      in case (hd_escalate decision, t_handoff_config t) of
           (True, Some hc) \<Rightarrow>
             Inr \<lparr>at_reply = hc_message hc, at_model = handoff_model, at_facts_cited = [],
                  at_history_used = 0, at_handoff = Some decision, at_resources_cited = []\<rparr>
         | _ \<Rightarrow>
             and_then (pt_recall P buyer_id (Some (pt_history_turns P))) (\<lambda>history.
             and_then (pt_facts P message (t_id t) (pt_rag_top_k P)) (\<lambda>facts.
               (let rs = (case pt_search P of
                            None \<Rightarrow> []
                          | Some search \<Rightarrow>
                              (case search (t_id t) message (pt_resource_kind P) (pt_resource_top_k P) of
                                 Inl _ \<Rightarrow> [] | Inr rs \<Rightarrow> rs));
                    prompt = compose_prompt P t history facts rs message soul_cfg
                in and_then (pt_llm P prompt (t_model t)) (\<lambda>reply.
                     Inr \<lparr>at_reply = lr_text reply, at_model = lr_model reply, at_facts_cited = facts,
                          at_history_used = length history, at_handoff = None,
                          at_resources_cited = rs\<rparr>)))))"

section \<open>Properties of the adapters\<close>

lemma openrouter_reply:
  "openrouter_complete post base hs ms model mt temp = Inr r \<Longrightarrow>
     lr_model r = model \<and> (\<exists>resp data choice. post (base @ (lit ''/chat/completions'')) (request_body ms model mt temp) hs = Inr resp
       \<and> cr_status resp < 400 \<and> cr_json resp = Inr data \<and> choice_of data = Inr choice \<and> lr_text r = py_str choice)"
  by (auto simp: openrouter_complete_def Let_def not_le split: sum.splits exn.splits if_splits)

lemma openrouter_errors:
  assumes "openrouter_complete post base hs ms model mt temp = Inl e"
  shows "(\<exists>m. e = LLMError m) \<or> (\<exists>m. e = TypeError m)"
proof -
  have sub: "\<exists>m. subscript_error j = TypeError m" for j
    by (cases j) (simp_all add: subscript_error_def)
  have "x \<in> range KeyError \<union> range IndexError \<union> range TypeError" if "choice_of d = Inl x" for d x
    using that sub
    by (auto simp: choice_of_def and_then_def at_key_def at_zero_def
        split: sum.splits json.splits option.splits list.splits) (metis rangeI)+
  then show ?thesis
    using assms by (fastforce simp: openrouter_complete_def Let_def split: sum.splits exn.splits if_splits)
qed

section \<open>Properties of the loop\<close>

lemma respond_handoff:
  assumes "t_handoff_config t = Some hc" and "hd_escalate (evaluate message (Some hc))"
  shows "respond P t b message cfg =
    Inr \<lparr>at_reply = hc_message hc, at_model = handoff_model, at_facts_cited = [], at_history_used = 0,
         at_handoff = Some (evaluate message (Some hc)), at_resources_cited = []\<rparr>"
  using assms by (simp add: respond_def Let_def)

lemma respond_no_handoff:
  assumes "\<not> hd_escalate (evaluate message (t_handoff_config t))"
    and "respond P t b message cfg = Inr turn"
  shows "at_handoff turn = None \<and>
    (\<exists>history facts reply. pt_recall P b (Some (pt_history_turns P)) = Inr history
       \<and> pt_facts P message (t_id t) (pt_rag_top_k P) = Inr facts
       \<and> pt_llm P (compose_prompt P t history facts (at_resources_cited turn) message cfg) (t_model t) = Inr reply
       \<and> at_reply turn = lr_text reply \<and> at_facts_cited turn = facts \<and> at_history_used turn = length history)"
  using assms
  by (auto simp: respond_def Let_def and_then_def split: sum.splits option.splits)

text \<open>The search and the learning service cannot make a turn fail.\<close>

lemma respond_best_effort:
  assumes "pt_recall P b (Some (pt_history_turns P)) = Inr history"
    and "pt_facts P message (t_id t) (pt_rag_top_k P) = Inr facts"
    and "\<And>prompt. \<exists>reply. pt_llm P prompt (t_model t) = Inr reply"
  shows "\<exists>turn. respond P t b message cfg = Inr turn"
proof (cases "hd_escalate (evaluate message (t_handoff_config t)) \<and> t_handoff_config t \<noteq> None")
  case True
  then show ?thesis using respond_handoff by fastforce
next
  case False
  define rs where "rs = (case pt_search P of None \<Rightarrow> [] | Some search \<Rightarrow>
    (case search (t_id t) message (pt_resource_kind P) (pt_resource_top_k P) of Inl _ \<Rightarrow> [] | Inr rs \<Rightarrow> rs))"
  obtain reply where "pt_llm P (compose_prompt P t history facts rs message cfg) (t_model t) = Inr reply"
    using assms(3) by blast
  with False assms(1,2) show ?thesis
    by (auto simp: respond_def Let_def rs_def split: option.splits bool.splits)
qed

text \<open>What the loop cites is what the tenant's own stores return.\<close>

lemma join_contains: "x \<in> set xs \<Longrightarrow> contains x (join sep xs)"
proof (induction sep xs rule: join.induct)
  case (3 sep y z xs)
  then show ?case by (auto intro: contains_here contains_skip)
qed auto

lemma contains_trans: "contains a b \<Longrightarrow> contains b c \<Longrightarrow> contains a c"
  unfolding contains_iff by (metis append.assoc)

lemma facts_in_prompt:
  assumes "f \<in> set facts"
  shows "contains (f_content f) (system_prompt P t facts rs cfg)"
proof -
  let ?line = "\<lambda>(i, f). nat_digits i @ (lit ''. ['') @ f_source f @ (lit ''] '') @ f_content f"
  have "f \<in> snd ` set (enumerate 1 facts)"
    using assms by (metis list.set_map map_snd_enumerate)
  then obtain i where i: "(i, f) \<in> set (enumerate 1 facts)" by force
  have "contains (f_content f) (?line (i, f))"
    by (simp only: prod.case) (rule contains_skip contains_self)+
  moreover have "contains (?line (i, f)) (render_facts_block facts)"
    unfolding render_facts_block_def by (rule join_contains) (use i in force)
  moreover have "contains (render_facts_block facts) (system_prompt P t facts rs cfg)"
  proof -
    have "render_facts_block facts \<noteq> []"
      by (cases facts) (simp_all add: render_facts_block_def)
    with assms show ?thesis
      unfolding system_prompt_def Let_def by (intro join_contains) auto
  qed
  ultimately show ?thesis using contains_trans by blast
qed

text \<open>The whole conversation reaches the model, in order, between the system prompt and the message.\<close>

lemma prompt_dialogue:
  "map lm_content (tl (compose_prompt P t h f r m cfg)) = map bi_text h @ [m]"
  by (simp add: compose_prompt_def history_message_def msg_def comp_def)

end
