(* ===== verification/Bot_Pauses.thy ===== *)
theory Bot_Pauses
  imports Domain_Models
begin

text \<open>
  The bot-pause registry (\<open>sdk/wapsell/inbox/repository.py\<close>): which (tenant, buyer) pairs a human
  has taken over, and until when. The in-memory adapter and the Postgres adapter (table
  \<open>bot_pauses\<close> with primary key (tenant, buyer), its statements as list operations) both provide
  the locale \<open>bot_pauses\<close>.
\<close>

record bot_pause =
  bp_tenant_id :: pystr
  bp_buyer_id :: pystr
  bp_paused_until :: time

type_synonym pause_store = "((pystr \<times> pystr) \<times> bot_pause) list"

section \<open>In memory\<close>

definition pause_get :: "pause_store \<Rightarrow> pystr \<Rightarrow> pystr \<Rightarrow> bot_pause option" where
  "pause_get d t b = dget d (t, b)"

definition is_paused :: "pause_store \<Rightarrow> pystr \<Rightarrow> pystr \<Rightarrow> time \<Rightarrow> bool" where
  "is_paused d t b now =
     (case dget d (t, b) of None \<Rightarrow> False | Some p \<Rightarrow> bp_paused_until p > now)"

definition pause :: "pause_store \<Rightarrow> pystr \<Rightarrow> pystr \<Rightarrow> time \<Rightarrow> pause_store" where
  "pause d t b until =
     dset d (t, b) \<lparr>bp_tenant_id = t, bp_buyer_id = b, bp_paused_until = until\<rparr>"

definition resume :: "pause_store \<Rightarrow> pystr \<Rightarrow> pystr \<Rightarrow> pause_store" where
  "resume d t b = dpop d (t, b)"

definition list_active :: "pause_store \<Rightarrow> pystr \<Rightarrow> time \<Rightarrow> bot_pause list" where
  "list_active d t now =
     map snd (filter (\<lambda>((tid, _), p). tid = t \<and> bp_paused_until p > now) d)"

section \<open>Postgres\<close>

definition pg_upsert :: "bot_pause list \<Rightarrow> pystr \<Rightarrow> pystr \<Rightarrow> time \<Rightarrow> bot_pause list" where
  "pg_upsert rows t b until =
     (if \<exists>p \<in> set rows. bp_tenant_id p = t \<and> bp_buyer_id p = b
      then map (\<lambda>p. if bp_tenant_id p = t \<and> bp_buyer_id p = b then p\<lparr>bp_paused_until := until\<rparr> else p) rows
      else rows @ [\<lparr>bp_tenant_id = t, bp_buyer_id = b, bp_paused_until = until\<rparr>])"

definition pg_delete :: "bot_pause list \<Rightarrow> pystr \<Rightarrow> pystr \<Rightarrow> bot_pause list" where
  "pg_delete rows t b = filter (\<lambda>p. \<not> (bp_tenant_id p = t \<and> bp_buyer_id p = b)) rows"

definition pg_get :: "bot_pause list \<Rightarrow> pystr \<Rightarrow> pystr \<Rightarrow> bot_pause option" where
  "pg_get rows t b = find (\<lambda>p. bp_tenant_id p = t \<and> bp_buyer_id p = b) rows"

definition pg_is_paused :: "bot_pause list \<Rightarrow> pystr \<Rightarrow> pystr \<Rightarrow> time \<Rightarrow> bool" where
  "pg_is_paused rows t b cutoff \<longleftrightarrow>
     filter (\<lambda>p. bp_tenant_id p = t \<and> bp_buyer_id p = b \<and> bp_paused_until p > cutoff) rows \<noteq> []"

definition pg_list_active :: "bot_pause list \<Rightarrow> pystr \<Rightarrow> time \<Rightarrow> bot_pause list" where
  "pg_list_active rows t cutoff =
     sort_desc bp_paused_until (filter (\<lambda>p. bp_tenant_id p = t \<and> bp_paused_until p > cutoff) rows)"

section \<open>The contract\<close>

text \<open>A history of pauses and resumes, replayed through an adapter.\<close>

definition replay ::
  "('s \<Rightarrow> pystr \<Rightarrow> pystr \<Rightarrow> time \<Rightarrow> 's) \<Rightarrow> ('s \<Rightarrow> pystr \<Rightarrow> pystr \<Rightarrow> 's) \<Rightarrow> 's
     \<Rightarrow> (pystr \<times> pystr \<times> time option) list \<Rightarrow> 's" where
  "replay put_pause end_pause s ops =
     foldl (\<lambda>s (t, b, u). case u of None \<Rightarrow> end_pause s t b | Some u \<Rightarrow> put_pause s t b u) s ops"

locale bot_pauses =
  fixes inv :: "'s \<Rightarrow> bool"
    and lookup :: "'s \<Rightarrow> pystr \<Rightarrow> pystr \<Rightarrow> bot_pause option"
    and paused :: "'s \<Rightarrow> pystr \<Rightarrow> pystr \<Rightarrow> time \<Rightarrow> bool"
    and put :: "'s \<Rightarrow> pystr \<Rightarrow> pystr \<Rightarrow> time \<Rightarrow> 's"
    and drop_pause :: "'s \<Rightarrow> pystr \<Rightarrow> pystr \<Rightarrow> 's"
    and active :: "'s \<Rightarrow> pystr \<Rightarrow> time \<Rightarrow> bot_pause list"
  assumes put_inv: "inv s \<Longrightarrow> inv (put s t b u)"
    and drop_inv: "inv s \<Longrightarrow> inv (drop_pause s t b)"
    and put_lookup: "inv s \<Longrightarrow> lookup (put s t b u) t' b' =
          (if t' = t \<and> b' = b then Some \<lparr>bp_tenant_id = t, bp_buyer_id = b, bp_paused_until = u\<rparr>
           else lookup s t' b')"
    and drop_lookup: "inv s \<Longrightarrow> lookup (drop_pause s t b) t' b' =
          (if t' = t \<and> b' = b then None else lookup s t' b')"
    and paused_iff: "inv s \<Longrightarrow> paused s t b now \<longleftrightarrow>
          (\<exists>p. lookup s t b = Some p \<and> bp_paused_until p > now)"
    and active_iff: "inv s \<Longrightarrow> p \<in> set (active s t now) \<longleftrightarrow>
          bp_tenant_id p = t \<and> lookup s t (bp_buyer_id p) = Some p \<and> bp_paused_until p > now"
begin

lemma put_paused:
  "inv s \<Longrightarrow> paused (put s t b u) t' b' now \<longleftrightarrow> (if t' = t \<and> b' = b then u > now else paused s t' b' now)"
  by (simp add: paused_iff put_inv put_lookup)

lemma drop_paused:
  "inv s \<Longrightarrow> paused (drop_pause s t b) t' b' now \<longleftrightarrow> \<not> (t' = t \<and> b' = b) \<and> paused s t' b' now"
  by (auto simp: paused_iff drop_inv drop_lookup)

lemma expires: "inv s \<Longrightarrow> paused s t b now \<Longrightarrow> earlier \<le> now \<Longrightarrow> paused s t b earlier"
  by (auto simp: paused_iff)

lemma replay_inv: "inv s \<Longrightarrow> inv (replay put drop_pause s ops)"
  by (induction ops arbitrary: s) (auto simp: replay_def put_inv drop_inv split: option.splits)

lemma last_write_wins:
  assumes "inv s"
  shows "paused (replay put drop_pause s ops) t b now \<longleftrightarrow>
    (case find (\<lambda>(t', b', _). t' = t \<and> b' = b) (rev ops) of
       None \<Rightarrow> paused s t b now
     | Some (_, _, u) \<Rightarrow> (case u of None \<Rightarrow> False | Some u \<Rightarrow> u > now))"
proof (induction ops rule: rev_induct)
  case Nil
  then show ?case by (simp add: replay_def)
next
  case (snoc x ops)
  obtain t' b' u where x: "x = (t', b', u)" by (cases x)
  have "replay put drop_pause s (ops @ [x]) = (case u of None \<Rightarrow> drop_pause (replay put drop_pause s ops) t' b' | Some u \<Rightarrow> put (replay put drop_pause s ops) t' b' u)"
    by (cases u) (simp_all add: replay_def x)
  with snoc show ?case
    using replay_inv[OF assms, of ops]
    by (cases u) (auto simp: x put_paused drop_paused split: option.splits)
qed

lemma active_covers: "inv s \<Longrightarrow> (\<exists>p \<in> set (active s t now). bp_buyer_id p = b) \<longleftrightarrow>
    (\<exists>p. lookup s t b = Some p \<and> bp_tenant_id p = t \<and> bp_buyer_id p = b \<and> bp_paused_until p > now)"
  by (auto simp: active_iff)

end

definition pauses_ok :: "pause_store \<Rightarrow> bool" where
  "pauses_ok d \<longleftrightarrow> dict_ok d \<and> (\<forall>(k, p) \<in> set d. k = (bp_tenant_id p, bp_buyer_id p))"

interpretation mem_pauses: bot_pauses pauses_ok pause_get is_paused pause resume list_active
proof (unfold_locales, goal_cases)
  case (1 s t b u)
  then show ?case by (auto simp: pauses_ok_def pause_def set_dset)
next
  case (2 s t b)
  then show ?case by (auto simp: pauses_ok_def resume_def set_dpop)
next
  case (3 s t b u t' b')
  then show ?case by (simp add: pause_get_def pause_def)
next
  case (4 s t b t' b')
  then show ?case by (simp add: pause_get_def resume_def)
next
  case (5 s t b now)
  then show ?case by (simp add: is_paused_def pause_get_def split: option.splits)
next
  case (6 s p t now)
  then have k: "(k, p) \<in> set s \<Longrightarrow> k = (bp_tenant_id p, bp_buyer_id p)" for k
    by (auto simp: pauses_ok_def)
  have "p \<in> set (list_active s t now) \<longleftrightarrow> (\<exists>k. (k, p) \<in> set s \<and> fst k = t) \<and> bp_paused_until p > now"
    unfolding list_active_def set_map set_filter by (auto simp: image_iff)
  also have "\<dots> \<longleftrightarrow> ((t, bp_buyer_id p), p) \<in> set s \<and> bp_tenant_id p = t \<and> bp_paused_until p > now"
    using k by (metis fst_conv prod.inject)
  finally show ?case
    using 6 by (auto simp: pause_get_def pauses_ok_def dget_mem_iff)
qed

definition pause_rows_ok :: "bot_pause list \<Rightarrow> bool" where
  "pause_rows_ok rows \<longleftrightarrow> distinct (map (\<lambda>p. (bp_tenant_id p, bp_buyer_id p)) rows)"

lemma pg_get_iff:
  assumes "pause_rows_ok rows"
  shows "pg_get rows t b = Some p \<longleftrightarrow> p \<in> set rows \<and> bp_tenant_id p = t \<and> bp_buyer_id p = b"
proof
  show "pg_get rows t b = Some p \<Longrightarrow> p \<in> set rows \<and> bp_tenant_id p = t \<and> bp_buyer_id p = b"
    by (auto simp: pg_get_def dest: find_Some_mem)
  assume "p \<in> set rows \<and> bp_tenant_id p = t \<and> bp_buyer_id p = b"
  then show "pg_get rows t b = Some p"
    using assms unfolding pg_get_def pause_rows_ok_def
    by (intro find_unique) (auto simp: distinct_map dest: inj_onD)
qed

lemma pg_upsert_ok: "pause_rows_ok rows \<Longrightarrow> pause_rows_ok (pg_upsert rows t b u)"
proof -
  assume ok: "pause_rows_ok rows"
  have "map (\<lambda>p. (bp_tenant_id p, bp_buyer_id p))
      (map (\<lambda>p. if bp_tenant_id p = t \<and> bp_buyer_id p = b then p\<lparr>bp_paused_until := u\<rparr> else p) rows)
    = map (\<lambda>p. (bp_tenant_id p, bp_buyer_id p)) rows" by simp
  with ok show ?thesis by (auto simp: pg_upsert_def pause_rows_ok_def simp del: map_map)
qed

lemma find_map_same: "(\<And>x. Q (f x) = Q x) \<Longrightarrow> find Q (map f xs) = map_option f (find Q xs)"
  by (induction xs) auto

lemma pg_upsert_get:
  "pg_get (pg_upsert rows t b u) t' b' =
     (if t' = t \<and> b' = b then Some \<lparr>bp_tenant_id = t, bp_buyer_id = b, bp_paused_until = u\<rparr>
      else pg_get rows t' b')"
proof (cases "\<exists>p \<in> set rows. bp_tenant_id p = t \<and> bp_buyer_id p = b")
  case True
  let ?f = "\<lambda>p. if bp_tenant_id p = t \<and> bp_buyer_id p = b then p\<lparr>bp_paused_until := u\<rparr> else p"
  have eq: "pg_get (pg_upsert rows t b u) t' b' = map_option ?f (pg_get rows t' b')"
    using True unfolding pg_upsert_def pg_get_def by (subst if_P, assumption) (rule find_map_same, simp)
  show ?thesis
  proof (cases "pg_get rows t' b'")
    case None
    then have "\<not> (t' = t \<and> b' = b)" using True by (auto simp: pg_get_def dest: find_None_all)
    with None eq show ?thesis by auto
  next
    case (Some p)
    then have "bp_tenant_id p = t'" "bp_buyer_id p = b'" by (auto simp: pg_get_def dest: find_Some_mem)
    with Some eq show ?thesis by auto
  qed
next
  case False
  then have "pg_get rows t b = None"
    by (auto simp: pg_get_def find_None_iff)
  with False show ?thesis
    by (auto simp: pg_upsert_def pg_get_def find_append split: option.splits)
qed

interpretation pg_pauses: bot_pauses pause_rows_ok pg_get pg_is_paused pg_upsert pg_delete pg_list_active
proof (unfold_locales, goal_cases)
  case (1 s t b u)
  then show ?case by (rule pg_upsert_ok)
next
  case (2 s t b)
  then show ?case by (simp add: pause_rows_ok_def pg_delete_def distinct_map_filter)
next
  case (3 s t b u t' b')
  show ?case by (rule pg_upsert_get)
next
  case (4 s t b t' b')
  show ?case by (induction s) (auto simp: pg_get_def pg_delete_def)
next
  case (5 s t b now)
  then show ?case by (auto simp: pg_get_iff pg_is_paused_def filter_empty_conv)
next
  case (6 s p t now)
  then show ?case by (auto simp: pg_get_iff pg_list_active_def)
qed

text \<open>Both adapters answer a history of writes alike.\<close>

lemma adapters_agree:
  "is_paused (replay pause resume [] ops) t b now \<longleftrightarrow> pg_is_paused (replay pg_upsert pg_delete [] ops) t b now"
proof -
  have "pauses_ok []" "pause_rows_ok []" by (simp_all add: pauses_ok_def pause_rows_ok_def)
  from mem_pauses.last_write_wins[OF this(1)] pg_pauses.last_write_wins[OF this(2)]
  show ?thesis by (simp add: is_paused_def pg_is_paused_def split: option.splits)
qed

end
