(* ===== verification/Crm_Recorder.thy ===== *)
theory Crm_Recorder
  imports Resources
begin

text \<open>
  The CRM recorder (\<open>sdk/wapsell/crm/recorder.py\<close>): one \<open>contact\<close> item per (tenant, phone) and
  one \<open>activity\<close> item per turn, kept in the item store. The identifier a new item gets is an
  argument of the operation; an operation reads the clock once (\<open>now\<close>).
\<close>

definition contact_kind :: pystr where
  "contact_kind = (lit ''contact'')"

definition activity_kind :: pystr where
  "activity_kind = (lit ''activity'')"

definition contact_external_id :: "pystr \<Rightarrow> pystr" where
  "contact_external_id from_number = (lit ''buyer:'') @ from_number"

definition activity_external_id :: "pystr \<Rightarrow> pystr \<Rightarrow> pystr" where
  "activity_external_id message_id direction = direction @ (lit '':'') @ message_id"

definition summary_max :: nat where
  "summary_max = 240"

text \<open>A string in a boolean position: \<open>None\<close> and the empty string are false.\<close>

definition nonempty :: "pystr option \<Rightarrow> pystr option" where
  "nonempty s = (case s of None \<Rightarrow> None | Some x \<Rightarrow> if x = [] then None else Some x)"

definition new_resource ::
  "pystr \<Rightarrow> time \<Rightarrow> pystr \<Rightarrow> pystr \<Rightarrow> pystr \<Rightarrow> json dict \<Rightarrow> pystr \<Rightarrow> resource" where
  "new_resource uid now tenant_id kind external_id data summary =
     \<lparr>re_id = uid, re_tenant_id = tenant_id, re_source_id = None, re_kind = kind,
      re_external_id = Some external_id, re_data = data, re_summary = summary, re_status = (lit ''active''),
      re_created_at = now, re_updated_at = now\<rparr>"

definition upsert_contact_for_inbound ::
  "resource_store \<Rightarrow> pystr \<Rightarrow> time \<Rightarrow> pystr \<Rightarrow> pystr \<Rightarrow> pystr option \<Rightarrow> time option
     \<Rightarrow> (resource_store \<times> resource) res" where
  "upsert_contact_for_inbound d uid now tenant_id from_number profile_name tm =
     (let when = (case tm of None \<Rightarrow> now | Some t \<Rightarrow> t);
          ext_id = contact_external_id from_number
      in case find_by_external_id d tenant_id contact_kind ext_id of
           None \<Rightarrow>
             (let data = [((lit ''phone''), JStr from_number), ((lit ''source''), JStr (lit ''whatsapp'')),
                          ((lit ''first_contact_at''), JStr (isoformat when)),
                          ((lit ''last_seen_at''), JStr (isoformat when)), ((lit ''turn_count''), JInt 1)];
                  data = (case nonempty profile_name of None \<Rightarrow> data | Some n \<Rightarrow> dset data (lit ''name'') (JStr n));
                  summary = (case nonempty profile_name of None \<Rightarrow> (lit ''+'') @ from_number | Some n \<Rightarrow> n);
                  r = new_resource uid now tenant_id contact_kind ext_id data (take summary_max summary)
              in Inr (res_add d r, r))
         | Some existing \<Rightarrow>
             (let new_data = dset (re_data existing) (lit ''last_seen_at'') (JStr (isoformat when))
              in case int_of_json (dget_or new_data (lit ''turn_count'') (JInt 0)) of
                   Inl e \<Rightarrow> Inl e
                 | Inr n \<Rightarrow>
                     (let new_data = dset new_data (lit ''turn_count'') (JInt (n + 1));
                          new_data = (case nonempty profile_name of
                                        None \<Rightarrow> new_data
                                      | Some p \<Rightarrow> if truthy (jget new_data ''name'') then new_data
                                                  else dset new_data (lit ''name'') (JStr p));
                          new_summary = (case nonempty (as_str (jget new_data ''name'')) of
                                           Some s \<Rightarrow> s
                                         | None \<Rightarrow> if re_summary existing \<noteq> [] then re_summary existing
                                                   else (lit ''+'') @ from_number);
                          updated = existing\<lparr>re_data := new_data,
                                             re_summary := take summary_max new_summary,
                                             re_updated_at := when\<rparr>
                      in Inr (upsert d updated, updated))))"

definition record_activity ::
  "resource_store \<Rightarrow> pystr \<Rightarrow> time \<Rightarrow> pystr \<Rightarrow> pystr \<Rightarrow> pystr \<Rightarrow> pystr \<Rightarrow> pystr \<Rightarrow> pystr \<Rightarrow> time option
     \<Rightarrow> json dict option \<Rightarrow> resource_store \<times> resource" where
  "record_activity d uid now tenant_id contact_id direction text message_id activity_type tm extra =
     (let when = (case tm of None \<Rightarrow> now | Some t \<Rightarrow> t);
          ext_id = activity_external_id message_id direction
      in case find_by_external_id d tenant_id activity_kind ext_id of
           Some existing \<Rightarrow> (d, existing)
         | None \<Rightarrow>
             (let summary = replace_char 10 [32] (strip text);
                  summary = (if length summary > summary_max
                             then rstrip (take (summary_max - 1) summary) @ [8230] else summary);
                  data = [((lit ''contact_id''), JStr contact_id), ((lit ''type''), JStr activity_type),
                          ((lit ''direction''), JStr direction), ((lit ''at''), JStr (isoformat when)),
                          ((lit ''text''), JStr text), ((lit ''message_id''), JStr message_id)];
                  data = (case extra of None \<Rightarrow> data | Some x \<Rightarrow> dmerge data x);
                  r = new_resource uid now tenant_id activity_kind ext_id data summary
              in (res_add d r, r)))"

definition whatsapp_message :: pystr where
  "whatsapp_message = (lit ''whatsapp_message'')"

text \<open>Two identifiers: one for a new contact, one for the activity.\<close>

definition record_inbound ::
  "resource_store \<Rightarrow> pystr \<Rightarrow> pystr \<Rightarrow> time \<Rightarrow> pystr \<Rightarrow> pystr \<Rightarrow> pystr \<Rightarrow> pystr \<Rightarrow> pystr option \<Rightarrow> time option
     \<Rightarrow> (resource_store \<times> resource \<times> resource) res" where
  "record_inbound d uid1 uid2 now tenant_id from_number text message_id profile_name tm =
     (case upsert_contact_for_inbound d uid1 now tenant_id from_number profile_name tm of
        Inl e \<Rightarrow> Inl e
      | Inr (d1, contact) \<Rightarrow>
          (case record_activity d1 uid2 now tenant_id (re_id contact) (lit ''inbound'') text message_id
                  whatsapp_message tm None of
             (d2, activity) \<Rightarrow> Inr (d2, contact, activity)))"

definition record_outbound ::
  "resource_store \<Rightarrow> pystr \<Rightarrow> time \<Rightarrow> pystr \<Rightarrow> pystr \<Rightarrow> pystr \<Rightarrow> pystr \<Rightarrow> time option \<Rightarrow> json dict option
     \<Rightarrow> resource_store \<times> resource option" where
  "record_outbound d uid now tenant_id from_number text reply_to tm extra =
     (case find_by_external_id d tenant_id contact_kind (contact_external_id from_number) of
        None \<Rightarrow> (d, None)
      | Some contact \<Rightarrow>
          (case record_activity d uid now tenant_id (re_id contact) (lit ''outbound'') text reply_to
                  whatsapp_message tm extra of
             (d', r) \<Rightarrow> (d', Some r)))"

section \<open>Looking up after a write\<close>

text \<open>
  The key the recorder finds items by. \<open>ext_unique\<close>: at most one item per tenant, kind and
  external identifier, among the items that have one.
\<close>

definition ext_key :: "resource \<Rightarrow> pystr \<times> pystr \<times> pystr option" where
  "ext_key r = (re_tenant_id r, re_kind r, re_external_id r)"

definition ext_unique :: "pystr \<Rightarrow> pystr \<Rightarrow> resource_store \<Rightarrow> bool" where
  "ext_unique t kind d \<longleftrightarrow> (\<forall>x. \<forall>a \<in> set (dvalues d). \<forall>b \<in> set (dvalues d).
     ext_key a = (t, kind, Some x) \<longrightarrow> ext_key b = (t, kind, Some x) \<longrightarrow> re_id a = re_id b)"

lemma ext_uniqueD:
  "ext_unique t k d \<Longrightarrow> a \<in> set (dvalues d) \<Longrightarrow> b \<in> set (dvalues d) \<Longrightarrow>
     ext_key a = (t, k, Some x) \<Longrightarrow> ext_key b = (t, k, Some x) \<Longrightarrow> re_id a = re_id b"
  unfolding ext_unique_def by blast

lemma find_ext_SomeD:
  "find_by_external_id d t k x = Some r \<Longrightarrow> r \<in> set (dvalues d) \<and> ext_key r = (t, k, Some x)"
  using resources.ext_Some[of d t k x r] by (simp add: ext_key_def)

lemma find_ext_NoneD:
  "find_by_external_id d t k x = None \<Longrightarrow> r \<in> set (dvalues d) \<Longrightarrow> ext_key r \<noteq> (t, k, Some x)"
  using resources.ext_None[of d t k x r] by (simp add: ext_key_def)

lemma find_ext_unique:
  assumes "ext_unique t k d" and "store_ok re_id d" and "r \<in> set (dvalues d)" and "ext_key r = (t, k, Some x)"
  shows "find_by_external_id d t k x = Some r"
proof (cases "find_by_external_id d t k x")
  case None
  with assms(3,4) show ?thesis by (auto dest: find_ext_NoneD)
next
  case (Some q)
  then have q: "q \<in> set (dvalues d)" "ext_key q = (t, k, Some x)" using find_ext_SomeD by blast+
  then have "re_id q = re_id r"
    using ext_uniqueD[OF assms(1) _ assms(3) _ assms(4)] by blast
  then have "q = r" using resources.ident_unique[OF assms(2) q(1) assms(3)] by blast
  with Some show ?thesis by simp
qed


text \<open>Two ways to write the store: a new item, or a new version of an item without a source.\<close>

lemma add_items:
  "store_ok re_id d \<Longrightarrow> dget d (re_id r) = None \<Longrightarrow>
     store_ok re_id (res_add d r) \<and> set (dvalues (res_add d r)) = insert r (set (dvalues d))"
  using resources.put_ok[of d r] resources.put_fresh[of d r] by (simp add: res_get_def)

lemma upsert_sourceless:
  "re_source_id r = None \<Longrightarrow> upsert d r = res_add d r"
  by (simp add: upsert_def res_add_def)

lemma replace_items:
  assumes "store_ok re_id d" and "re_source_id r = None"
  shows "store_ok re_id (upsert d r) \<and>
    set (dvalues (upsert d r)) = insert r {x \<in> set (dvalues d). re_id x \<noteq> re_id r}"
  using assms resources.put_ok[OF assms(1), of r] resources.put_values[OF assms(1), of _ r]
  by (auto simp: upsert_sourceless)

lemma ext_unique_add:
  assumes "ext_unique t k d" and "store_ok re_id d" and "dget d (re_id r) = None"
    and "\<And>x. ext_key r = (t, k, Some x) \<Longrightarrow> find_by_external_id d t k x = None"
  shows "ext_unique t k (res_add d r)"
  unfolding ext_unique_def
proof (intro allI ballI impI)
  fix x a b
  assume "a \<in> set (dvalues (res_add d r))" "b \<in> set (dvalues (res_add d r))"
    and k: "ext_key a = (t, k, Some x)" "ext_key b = (t, k, Some x)"
  then have ab: "a = r \<or> a \<in> set (dvalues d)" "b = r \<or> b \<in> set (dvalues d)"
    using add_items[OF assms(2,3)] by blast+
  have "r = a \<Longrightarrow> b \<notin> set (dvalues d)" "r = b \<Longrightarrow> a \<notin> set (dvalues d)"
    using k assms(4)[of x] find_ext_NoneD by blast+
  then show "re_id a = re_id b"
    using ab ext_uniqueD[OF assms(1) _ _ k] by blast
qed

lemma ext_unique_replace:
  assumes "ext_unique t k d" and "store_ok re_id d" and "old \<in> set (dvalues d)"
    and "re_id new = re_id old" and "ext_key new = ext_key old" and "re_source_id new = None"
  shows "ext_unique t k (upsert d new)"
  unfolding ext_unique_def
proof (intro allI ballI impI)
  fix x a b
  assume ab: "a \<in> set (dvalues (upsert d new))" "b \<in> set (dvalues (upsert d new))"
    and k: "ext_key a = (t, k, Some x)" "ext_key b = (t, k, Some x)"
  have old: "\<exists>c \<in> set (dvalues d). re_id c = re_id y \<and> ext_key c = ext_key y"
    if "y \<in> set (dvalues (upsert d new))" for y
    using that assms(3-5) replace_items[OF assms(2,6)] by auto
  obtain a' b' where "a' \<in> set (dvalues d)" "re_id a' = re_id a" "ext_key a' = ext_key a"
    "b' \<in> set (dvalues d)" "re_id b' = re_id b" "ext_key b' = ext_key b"
    using old[OF ab(1)] old[OF ab(2)] by blast
  then show "re_id a = re_id b"
    using ext_uniqueD[OF assms(1), of a' b' x] k by simp
qed

section \<open>Contacts\<close>

text \<open>
  What the recorder keeps: identifiers key the store, there is one contact per phone and one
  activity per message, and contacts have no source.
\<close>

definition crm_ok :: "pystr \<Rightarrow> resource_store \<Rightarrow> bool" where
  "crm_ok t d \<longleftrightarrow> store_ok re_id d \<and> ext_unique t contact_kind d \<and> ext_unique t activity_kind d \<and>
     (\<forall>r \<in> set (dvalues d). re_tenant_id r = t \<and> re_kind r = contact_kind \<longrightarrow> re_source_id r = None)"

lemma crm_ok_store: "crm_ok t d \<Longrightarrow> store_ok re_id d"
  by (simp add: crm_ok_def)

lemma new_resource_sel [simp]:
  "re_id (new_resource u now t k x data s) = u"
  "re_source_id (new_resource u now t k x data s) = None"
  "re_data (new_resource u now t k x data s) = data"
  "re_kind (new_resource u now t k x data s) = k"
  "re_tenant_id (new_resource u now t k x data s) = t"
  "ext_key (new_resource u now t k x data s) = (t, k, Some x)"
  by (simp_all add: new_resource_def ext_key_def)

lemma kinds_differ [simp]: "contact_kind \<noteq> activity_kind" "activity_kind \<noteq> contact_kind"
  by (simp_all add: contact_kind_def activity_kind_def)

lemma crm_ok_add:
  assumes "crm_ok t d" and "dget d u = None" and "k = contact_kind \<or> k = activity_kind"
    and "find_by_external_id d t k x = None"
  shows "crm_ok t (res_add d (new_resource u now t k x data s))"
proof -
  let ?r = "new_resource u now t k x data s"
  have u: "dget d (re_id ?r) = None" using assms(2) by simp
  have "ext_unique t k' (res_add d ?r)" if "ext_unique t k' d" for k'
    using that assms(4) by (intro ext_unique_add[OF _ crm_ok_store[OF assms(1)] u]) auto
  then show ?thesis
    using assms(1) add_items[OF crm_ok_store[OF assms(1)] u] by (auto simp: crm_ok_def)
qed

lemma contact_step:
  assumes "upsert_contact_for_inbound d u now t phone name tm = Inr (d', c)" and "crm_ok t d"
    and "dget d u = None"
  shows "crm_ok t d' \<and> find_by_external_id d' t contact_kind (contact_external_id phone) = Some c"
proof (cases "find_by_external_id d t contact_kind (contact_external_id phone)")
  case None
  obtain data s where d': "d' = res_add d c"
    and c: "c = new_resource u now t contact_kind (contact_external_id phone) data s"
    using assms(1) None by (auto simp: upsert_contact_for_inbound_def Let_def)
  have ok: "crm_ok t d'" unfolding d' c by (rule crm_ok_add) (use assms None in auto)
  have "c \<in> set (dvalues d')"
    using add_items[OF crm_ok_store[OF assms(2)], of c] assms(3) by (simp add: d' c)
  then have "find_by_external_id d' t contact_kind (contact_external_id phone) = Some c"
    using ok by (intro find_ext_unique) (auto simp: crm_ok_def c)
  with ok show ?thesis by simp
next
  case (Some old)
  then have old: "old \<in> set (dvalues d)" "ext_key old = (t, contact_kind, Some (contact_external_id phone))"
    using find_ext_SomeD by blast+
  then have "re_source_id old = None"
    using assms(2) by (auto simp: crm_ok_def ext_key_def)
  moreover obtain data s w where c: "c = old\<lparr>re_data := data, re_summary := s, re_updated_at := w\<rparr>"
    and d': "d' = upsert d c"
    using assms(1) Some by (auto simp: upsert_contact_for_inbound_def Let_def split: sum.splits)
  ultimately have src: "re_source_id c = None" and id: "re_id c = re_id old" and k: "ext_key c = ext_key old"
    by (simp_all add: ext_key_def)
  note items = replace_items[OF crm_ok_store[OF assms(2)] src]
  have u: "ext_unique t k' d'" if "ext_unique t k' d" for k'
    unfolding d' by (rule ext_unique_replace[OF that crm_ok_store[OF assms(2)] old(1) id k src])
  have ok: "crm_ok t d'"
    using assms(2) u items src by (auto simp: crm_ok_def d')
  have "c \<in> set (dvalues d')" using items by (simp add: d')
  then have "find_by_external_id d' t contact_kind (contact_external_id phone) = Some c"
    using ok k old(2) by (intro find_ext_unique) (auto simp: crm_ok_def)
  with ok show ?thesis by simp
qed

lemma activity_step:
  assumes "record_activity d u now t cid dir text mid ty tm extra = (d', a)" and "crm_ok t d"
    and "dget d u = None"
  shows "crm_ok t d' \<and> find_by_external_id d' t activity_kind (activity_external_id mid dir) = Some a
    \<and> (\<forall>x. find_by_external_id d' t contact_kind x = find_by_external_id d t contact_kind x)"
proof (cases "find_by_external_id d t activity_kind (activity_external_id mid dir)")
  case (Some old)
  with assms show ?thesis by (auto simp: record_activity_def)
next
  case None
  obtain data s where d': "d' = res_add d a"
    and a: "a = new_resource u now t activity_kind (activity_external_id mid dir) data s"
    using assms(1) None by (auto simp: record_activity_def Let_def)
  have ok: "crm_ok t d'" unfolding d' a by (rule crm_ok_add) (use assms None in auto)
  have items: "set (dvalues d') = insert a (set (dvalues d))"
    using add_items[OF crm_ok_store[OF assms(2)], of a] assms(3) by (simp add: d' a)
  have 1: "find_by_external_id d' t activity_kind (activity_external_id mid dir) = Some a"
    using ok items by (intro find_ext_unique) (auto simp: crm_ok_def a)
  have "find_by_external_id d' t contact_kind x = find_by_external_id d t contact_kind x" for x
  proof (cases "find_by_external_id d t contact_kind x")
    case None
    have "find_by_external_id d' t contact_kind x \<noteq> Some r" for r
      using None items find_ext_SomeD[of d' t contact_kind x r] find_ext_NoneD[OF None, of r]
      by (auto simp: a)
    with None show ?thesis by auto
  next
    case (Some c)
    then have "find_by_external_id d' t contact_kind x = Some c"
      using ok items find_ext_SomeD[OF Some] by (intro find_ext_unique) (auto simp: crm_ok_def)
    with Some show ?thesis by simp
  qed
  with ok 1 show ?thesis by blast
qed

lemma activity_again:
  assumes "record_activity d u now t cid dir text mid ty tm extra = (d', a)" and "crm_ok t d"
    and "dget d u = None"
  shows "record_activity d' u' now' t cid' dir text' mid ty' tm' extra' = (d', a)"
  using activity_step[OF assms] by (simp add: record_activity_def Let_def)

lemma store_fresh: "store_ok re_id d \<Longrightarrow> dget d i = None \<longleftrightarrow> i \<notin> re_id ` set (dvalues d)"
proof -
  assume ok: "store_ok re_id d"
  have "(\<exists>x. dget d i = Some x) \<longleftrightarrow> i \<in> re_id ` set (dvalues d)"
    by (auto simp: store_lookup[OF ok])
  then show ?thesis by (metis not_Some_eq)
qed

lemma contact_ids:
  assumes "upsert_contact_for_inbound d u now t phone name tm = Inr (d', c)" and "crm_ok t d"
    and "dget d u = None"
  shows "re_id ` set (dvalues d') \<subseteq> insert u (re_id ` set (dvalues d))"
    and "{r \<in> set (dvalues d'). re_kind r = activity_kind} = {r \<in> set (dvalues d). re_kind r = activity_kind}"
proof -
  have "re_id ` set (dvalues d') \<subseteq> insert u (re_id ` set (dvalues d)) \<and>
    {r \<in> set (dvalues d'). re_kind r = activity_kind} = {r \<in> set (dvalues d). re_kind r = activity_kind}"
  proof (cases "find_by_external_id d t contact_kind (contact_external_id phone)")
    case None
    then obtain data s where d': "d' = res_add d (new_resource u now t contact_kind (contact_external_id phone) data s)"
      using assms(1) by (auto simp: upsert_contact_for_inbound_def Let_def)
    have "set (dvalues d') = insert (new_resource u now t contact_kind (contact_external_id phone) data s) (set (dvalues d))"
      unfolding d' using add_items[OF crm_ok_store[OF assms(2)]] assms(3) by simp
    then show ?thesis by auto
  next
    case (Some old)
    then have old: "old \<in> set (dvalues d)" "re_kind old = contact_kind" "re_source_id old = None"
      using find_ext_SomeD[OF Some] assms(2) by (auto simp: crm_ok_def ext_key_def)
    obtain data s w where d': "d' = upsert d (old\<lparr>re_data := data, re_summary := s, re_updated_at := w\<rparr>)"
      using assms(1) Some by (auto simp: upsert_contact_for_inbound_def Let_def split: sum.splits)
    have "set (dvalues d') = insert (old\<lparr>re_data := data, re_summary := s, re_updated_at := w\<rparr>)
        {x \<in> set (dvalues d). re_id x \<noteq> re_id old}"
      unfolding d' using replace_items[OF crm_ok_store[OF assms(2)]] old by simp
    moreover have "\<forall>x \<in> set (dvalues d). re_kind x = activity_kind \<longrightarrow> re_id x \<noteq> re_id old"
      using resources.ident_unique[OF crm_ok_store[OF assms(2)] _ old(1)] old(2) by force
    ultimately show ?thesis using old by auto
  qed
  then show "re_id ` set (dvalues d') \<subseteq> insert u (re_id ` set (dvalues d))"
    "{r \<in> set (dvalues d'). re_kind r = activity_kind} = {r \<in> set (dvalues d). re_kind r = activity_kind}"
    by blast+
qed

lemma inbound_step:
  assumes "record_inbound d u v now t phone text mid name tm = Inr (d', c, a)" and "crm_ok t d"
    and "dget d u = None" and "dget d v = None" and "u \<noteq> v"
  shows "crm_ok t d' \<and> find_by_external_id d' t contact_kind (contact_external_id phone) = Some c
    \<and> find_by_external_id d' t activity_kind (activity_external_id mid (lit ''inbound'')) = Some a"
proof -
  obtain d1 where s1: "upsert_contact_for_inbound d u now t phone name tm = Inr (d1, c)"
    and s2: "record_activity d1 v now t (re_id c) (lit ''inbound'') text mid whatsapp_message tm None = (d', a)"
    using assms(1) by (auto simp: record_inbound_def split: sum.splits prod.splits)
  have ok: "crm_ok t d1" using contact_step[OF s1 assms(2,3)] by blast
  have "v \<notin> re_id ` set (dvalues d1)"
    using contact_ids(1)[OF s1 assms(2,3)] assms(4,5) store_fresh[OF crm_ok_store[OF assms(2)]] by auto
  then have v: "dget d1 v = None" using store_fresh[OF crm_ok_store[OF ok]] by blast
  from contact_step[OF s1 assms(2,3)] activity_step[OF s2 ok v] show ?thesis by simp
qed

text \<open>The turn counter goes up by one on every inbound message, the first one included.\<close>

definition turn_count :: "resource \<Rightarrow> json" where
  "turn_count c = dget_or (re_data c) (lit ''turn_count'') (JInt 0)"

definition known_turns :: "resource_store \<Rightarrow> pystr \<Rightarrow> pystr \<Rightarrow> json" where
  "known_turns d t phone =
     (case find_by_external_id d t contact_kind (contact_external_id phone) of
        None \<Rightarrow> JInt 0 | Some c \<Rightarrow> turn_count c)"

lemma contact_turns:
  assumes "known_turns d t phone = JInt n"
  shows "\<exists>d' c. upsert_contact_for_inbound d u now t phone name tm = Inr (d', c) \<and> turn_count c = JInt (n + 1)"
proof (cases "find_by_external_id d t contact_kind (contact_external_id phone)")
  case None
  with assms have "n = 0" by (simp add: known_turns_def)
  with None show ?thesis
    by (cases "nonempty name")
      (simp_all add: upsert_contact_for_inbound_def Let_def turn_count_def dget_or_def)
next
  case (Some old)
  with assms have "dget_or (dset (re_data old) (lit ''last_seen_at'') v) (lit ''turn_count'') (JInt 0) = JInt n" for v
    by (simp add: known_turns_def turn_count_def dget_or_def)
  with Some show ?thesis
    by (cases "nonempty name")
      (simp_all add: upsert_contact_for_inbound_def Let_def turn_count_def dget_or_def[of "dset _ _ _"])
qed

definition inbound_step_res ::
  "(nat \<Rightarrow> pystr) \<Rightarrow> time \<Rightarrow> pystr \<Rightarrow> pystr \<Rightarrow> pystr option \<Rightarrow> resource_store res \<Rightarrow> nat \<times> pystr \<times> pystr
     \<Rightarrow> resource_store res" where
  "inbound_step_res uids now t phone name r m =
     (case r of Inl e \<Rightarrow> Inl e
      | Inr d \<Rightarrow> (case m of (n, text, mid) \<Rightarrow>
          (case record_inbound d (uids (2 * n)) (uids (2 * n + 1)) now t phone text mid name None of
             Inl e \<Rightarrow> Inl e | Inr (d', _) \<Rightarrow> Inr d')))"

definition inbound_all ::
  "(nat \<Rightarrow> pystr) \<Rightarrow> time \<Rightarrow> pystr \<Rightarrow> pystr \<Rightarrow> pystr option \<Rightarrow> (pystr \<times> pystr) list \<Rightarrow> resource_store res" where
  "inbound_all uids now t phone name msgs =
     foldl (inbound_step_res uids now t phone name) (Inr []) (enumerate 0 msgs)"

definition activity_ids :: "resource_store \<Rightarrow> pystr option set" where
  "activity_ids d = re_external_id ` {r \<in> set (dvalues d). re_kind r = activity_kind}"

lemma activity_effect:
  assumes "record_activity d u now t cid dir text mid ty tm extra = (d', a)" and "crm_ok t d"
    and "dget d u = None"
  shows "re_id ` set (dvalues d') \<subseteq> insert u (re_id ` set (dvalues d))"
    and "activity_ids d' = insert (Some (activity_external_id mid dir)) (activity_ids d)"
proof -
  have "re_id ` set (dvalues d') \<subseteq> insert u (re_id ` set (dvalues d)) \<and>
    activity_ids d' = insert (Some (activity_external_id mid dir)) (activity_ids d)"
  proof (cases "find_by_external_id d t activity_kind (activity_external_id mid dir)")
    case None
    then obtain data s where d': "d' = res_add d (new_resource u now t activity_kind (activity_external_id mid dir) data s)"
      using assms(1) by (auto simp: record_activity_def Let_def)
    have "set (dvalues d') = insert (new_resource u now t activity_kind (activity_external_id mid dir) data s) (set (dvalues d))"
      unfolding d' using add_items[OF crm_ok_store[OF assms(2)]] assms(3) by simp
    moreover have "{r \<in> insert (new_resource u now t activity_kind x data s) D. re_kind r = activity_kind}
        = insert (new_resource u now t activity_kind x data s) {r \<in> D. re_kind r = activity_kind}" for x D
      by auto
    ultimately show ?thesis by (simp add: activity_ids_def) (simp add: new_resource_def)
  next
    case (Some old)
    then have "d' = d" using assms(1) by (auto simp: record_activity_def)
    moreover have "Some (activity_external_id mid dir) \<in> activity_ids d"
      using find_ext_SomeD[OF Some] by (force simp: activity_ids_def ext_key_def)
    ultimately show ?thesis by auto
  qed
  then show "re_id ` set (dvalues d') \<subseteq> insert u (re_id ` set (dvalues d))"
    "activity_ids d' = insert (Some (activity_external_id mid dir)) (activity_ids d)"
    by blast+
qed

lemma inbound_all_state:
  assumes "inj uids"
  shows "\<exists>d. inbound_all uids now t phone name msgs = Inr d \<and> crm_ok t d
    \<and> re_id ` set (dvalues d) \<subseteq> uids ` {..<2 * length msgs}
    \<and> known_turns d t phone = JInt (int (length msgs))
    \<and> activity_ids d = (\<lambda>m. Some (activity_external_id (snd m) (lit ''inbound''))) ` set msgs"
proof (induction msgs rule: rev_induct)
  case Nil
  then show ?case
    by (simp add: inbound_all_def crm_ok_def ext_unique_def known_turns_def find_by_external_id_def activity_ids_def)
next
  case (snoc m msgs)
  obtain body mid where m: "m = (body, mid)" by (cases m)
  from snoc obtain d where d: "inbound_all uids now t phone name msgs = Inr d" "crm_ok t d"
    "re_id ` set (dvalues d) \<subseteq> uids ` {..<2 * length msgs}"
    "known_turns d t phone = JInt (int (length msgs))"
    "activity_ids d = (\<lambda>m. Some (activity_external_id (snd m) (lit ''inbound''))) ` set msgs"
    by blast
  let ?u = "uids (2 * length msgs)" and ?v = "uids (2 * length msgs + 1)"
  have fresh: "uids i \<notin> re_id ` set (dvalues d)" if "2 * length msgs \<le> i" for i
  proof
    assume "uids i \<in> re_id ` set (dvalues d)"
    then obtain j where "j < 2 * length msgs" "uids i = uids j" using d(3) by blast
    with that injD[OF assms, of i j] show False by simp
  qed
  have u: "dget d ?u = None" using fresh store_fresh[OF crm_ok_store[OF d(2)]] by simp
  obtain d1 c where s1: "upsert_contact_for_inbound d ?u now t phone name None = Inr (d1, c)"
    and tc: "turn_count c = JInt (int (length msgs) + 1)"
    using contact_turns[OF d(4)] by blast
  obtain d2 a where s2: "record_activity d1 ?v now t (re_id c) (lit ''inbound'') body mid whatsapp_message None None = (d2, a)"
    by (metis surj_pair)
  have ok1: "crm_ok t d1" and c1: "find_by_external_id d1 t contact_kind (contact_external_id phone) = Some c"
    using contact_step[OF s1 d(2) u] by auto
  have "?v \<notin> re_id ` set (dvalues d1)"
    using contact_ids(1)[OF s1 d(2) u] fresh[of "2 * length msgs + 1"] injD[OF assms, of "2 * length msgs + 1" "2 * length msgs"]
    by auto
  then have v: "dget d1 ?v = None" using store_fresh[OF crm_ok_store[OF ok1]] by blast
  have run: "inbound_all uids now t phone name (msgs @ [m]) = Inr d2"
    using d(1) s1 s2 by (simp add: inbound_all_def enumerate_append_eq inbound_step_res_def record_inbound_def m)
  have ok2: "crm_ok t d2" and c2: "find_by_external_id d2 t contact_kind (contact_external_id phone) = Some c"
    using activity_step[OF s2 ok1 v] c1 by auto
  have "re_id ` set (dvalues d2) \<subseteq> insert ?v (insert ?u (re_id ` set (dvalues d)))"
    using contact_ids(1)[OF s1 d(2) u] activity_effect(1)[OF s2 ok1 v] by blast
  also have "\<dots> \<subseteq> uids ` {..<2 * length (msgs @ [m])}"
    using d(3) by auto
  finally have ids: "re_id ` set (dvalues d2) \<subseteq> uids ` {..<2 * length (msgs @ [m])}" .
  have "activity_ids d1 = activity_ids d"
    unfolding activity_ids_def contact_ids(2)[OF s1 d(2) u] ..
  then have acts: "activity_ids d2 = (\<lambda>m. Some (activity_external_id (snd m) (lit ''inbound''))) ` set (msgs @ [m])"
    using activity_effect(2)[OF s2 ok1 v] d(5) by (simp add: m)
  have "known_turns d2 t phone = JInt (int (length (msgs @ [m])))"
    using c2 tc by (simp add: known_turns_def)
  with run ok2 ids acts show ?case by blast
qed

end
