(* ===== verification/Tenants.thy ===== *)
theory Tenants
  imports Domain_Models
begin

text \<open>
  The tenant subsystem (\<open>sdk/wapsell/tenant/\<close>): the repository port, its in-memory adapter, the
  router, the spawner, the supervisor and the manager. The clients are written against the port
  (\<open>tenant_port\<close>, a record of operations over any repository state), as the source writes them
  against \<open>TenantRepositoryPort\<close>; the locale \<open>tenant_repository\<close> states what they rely on, and
  the in-memory adapter is proved to provide it.
\<close>

section \<open>The repository port and its in-memory adapter\<close>

record 's tenant_port =
  tp_add :: "'s \<Rightarrow> tenant \<Rightarrow> 's res"
  tp_get :: "'s \<Rightarrow> pystr \<Rightarrow> tenant option"
  tp_by_slug :: "'s \<Rightarrow> pystr \<Rightarrow> tenant option"
  tp_by_phone :: "'s \<Rightarrow> pystr \<Rightarrow> tenant option"
  tp_list_all :: "'s \<Rightarrow> tenant list"
  tp_update :: "'s \<Rightarrow> tenant \<Rightarrow> 's res"

type_synonym tenant_store = "tenant dict"

definition mem_add :: "tenant_store \<Rightarrow> tenant \<Rightarrow> tenant_store" where
  "mem_add d t = dset d (t_id t) t"

definition mem_get :: "tenant_store \<Rightarrow> pystr \<Rightarrow> tenant option" where
  "mem_get d tid = dget d tid"

definition mem_by_slug :: "tenant_store \<Rightarrow> pystr \<Rightarrow> tenant option" where
  "mem_by_slug d slug = find (\<lambda>t. t_slug t = slug) (dvalues d)"

definition mem_by_phone :: "tenant_store \<Rightarrow> pystr \<Rightarrow> tenant option" where
  "mem_by_phone d pnid = find (\<lambda>t. t_phone_number_id t = Some pnid) (dvalues d)"

definition mem_list_all :: "tenant_store \<Rightarrow> tenant list" where
  "mem_list_all d = dvalues d"

definition unknown_tenant :: "pystr \<Rightarrow> exn" where
  "unknown_tenant tid = KeyError ((lit ''unknown tenant: '') @ tid)"

definition mem_update :: "tenant_store \<Rightarrow> tenant \<Rightarrow> tenant_store res" where
  "mem_update d t =
     (if dget d (t_id t) = None then Inl (unknown_tenant (t_id t)) else Inr (dset d (t_id t) t))"

definition mem_tenants :: "tenant_store tenant_port" where
  "mem_tenants =
     \<lparr>tp_add = (\<lambda>d t. Inr (mem_add d t)), tp_get = mem_get, tp_by_slug = mem_by_slug, tp_by_phone = mem_by_phone,
      tp_list_all = mem_list_all, tp_update = mem_update\<rparr>"

interpretation tenants_by_id: keyed_store t_id mem_add mem_get
  by unfold_locales (simp_all add: mem_add_def mem_get_def store_intros)

section \<open>Router\<close>

definition try_resolve :: "'s tenant_port \<Rightarrow> 's \<Rightarrow> pystr \<Rightarrow> tenant option" where
  "try_resolve P s pnid = tp_by_phone P s pnid"

definition resolve :: "'s tenant_port \<Rightarrow> 's \<Rightarrow> pystr \<Rightarrow> tenant res" where
  "resolve P s pnid =
     (case tp_by_phone P s pnid of
        None \<Rightarrow> Inl (UnknownTenantError ((lit ''no tenant for phone_number_id='') @ str_repr pnid))
      | Some t \<Rightarrow> Inr t)"

section \<open>Spawner\<close>

type_synonym spawner = "pystr set"

definition spawn :: "spawner \<Rightarrow> tenant \<Rightarrow> spawner" where
  "spawn r t = insert (t_id t) r"

definition stop :: "spawner \<Rightarrow> pystr \<Rightarrow> spawner" where
  "stop r tid = r - {tid}"

definition is_running :: "spawner \<Rightarrow> pystr \<Rightarrow> bool" where
  "is_running r tid \<longleftrightarrow> tid \<in> r"

section \<open>Supervisor\<close>

record tenant_health =
  th_tenant_id :: pystr
  th_status :: tenant_status
  th_running :: bool

definition require :: "'s tenant_port \<Rightarrow> 's \<Rightarrow> pystr \<Rightarrow> tenant res" where
  "require P s tid = (case tp_get P s tid of None \<Rightarrow> Inl (unknown_tenant tid) | Some t \<Rightarrow> Inr t)"

text \<open>
  The spawner acts before the repository is written: when the write raises, the runtime has
  already changed, so the spawner state is returned on every path.
\<close>

definition bring_up :: "'s tenant_port \<Rightarrow> 's \<Rightarrow> spawner \<Rightarrow> pystr \<Rightarrow> spawner \<times> ('s \<times> tenant) res" where
  "bring_up P s r tid =
     (case require P s tid of
        Inl e \<Rightarrow> (r, Inl e)
      | Inr t \<Rightarrow>
          (let r' = spawn r t; activated = t\<lparr>t_status := ACTIVE\<rparr>
           in (r', case tp_update P s activated of Inl e \<Rightarrow> Inl e | Inr s' \<Rightarrow> Inr (s', activated))))"

definition bring_down :: "'s tenant_port \<Rightarrow> 's \<Rightarrow> spawner \<Rightarrow> pystr \<Rightarrow> spawner \<times> ('s \<times> tenant) res" where
  "bring_down P s r tid =
     (case require P s tid of
        Inl e \<Rightarrow> (r, Inl e)
      | Inr t \<Rightarrow>
          (let r' = stop r tid; suspended = t\<lparr>t_status := SUSPENDED\<rparr>
           in (r', case tp_update P s suspended of Inl e \<Rightarrow> Inl e | Inr s' \<Rightarrow> Inr (s', suspended))))"

definition health :: "'s tenant_port \<Rightarrow> 's \<Rightarrow> spawner \<Rightarrow> pystr \<Rightarrow> tenant_health res" where
  "health P s r tid =
     (case require P s tid of
        Inl e \<Rightarrow> Inl e
      | Inr t \<Rightarrow> Inr \<lparr>th_tenant_id = tid, th_status = t_status t, th_running = is_running r tid\<rparr>)"

section \<open>Manager\<close>

definition create ::
  "'s tenant_port \<Rightarrow> 's \<Rightarrow> pystr \<Rightarrow> time \<Rightarrow> pystr \<Rightarrow> pystr \<Rightarrow> pystr option \<Rightarrow> ('s \<times> tenant) res" where
  "create P s uid now name slug model =
     (if tp_by_slug P s slug \<noteq> None
      then Inl (ValueError ((lit ''tenant slug already exists: '') @ str_repr slug))
      else (let m = (case model of None \<Rightarrow> default_model | Some x \<Rightarrow> if x = [] then default_model else x);
                t = new_tenant uid now name slug m
            in case tp_add P s t of Inl e \<Rightarrow> Inl e | Inr s' \<Rightarrow> Inr (s', t)))"

definition manager_get :: "'s tenant_port \<Rightarrow> 's \<Rightarrow> pystr \<Rightarrow> tenant res" where
  "manager_get P s tid =
     (case tp_get P s tid of None \<Rightarrow> Inl (unknown_tenant tid) | Some t \<Rightarrow> Inr t)"

text \<open>\<open>TenantManager.activate\<close>: the spawner is optional.\<close>

definition activate ::
  "'s tenant_port \<Rightarrow> 's \<Rightarrow> spawner option \<Rightarrow> pystr \<Rightarrow> spawner option \<times> ('s \<times> tenant) res" where
  "activate P s sp tid =
     (case manager_get P s tid of
        Inl e \<Rightarrow> (sp, Inl e)
      | Inr t \<Rightarrow>
          (let sp' = map_option (\<lambda>r. spawn r t) sp; activated = t\<lparr>t_status := ACTIVE\<rparr>
           in (sp', case tp_update P s activated of Inl e \<Rightarrow> Inl e | Inr s' \<Rightarrow> Inr (s', activated))))"

section \<open>What the clients rely on\<close>

definition slugs_unique :: "tenant set \<Rightarrow> bool" where
  "slugs_unique T \<longleftrightarrow> (\<forall>a \<in> T. \<forall>b \<in> T. t_slug a = t_slug b \<longrightarrow> t_id a = t_id b)"

definition phones_unique :: "tenant set \<Rightarrow> bool" where
  "phones_unique T \<longleftrightarrow>
     (\<forall>a \<in> T. \<forall>b \<in> T. t_phone_number_id a = t_phone_number_id b \<longrightarrow> t_phone_number_id a \<noteq> None
        \<longrightarrow> t_id a = t_id b)"

lemma slugs_unique_insert:
  "slugs_unique T \<Longrightarrow> t_slug t \<notin> t_slug ` T \<Longrightarrow> slugs_unique (insert t T)"
  unfolding slugs_unique_def by (metis imageI insertE)

lemma phones_uniqueI:
  "(\<And>a b. a \<in> T \<Longrightarrow> b \<in> T \<Longrightarrow> t_phone_number_id a = t_phone_number_id b \<Longrightarrow>
     t_phone_number_id a \<noteq> None \<Longrightarrow> t_id a = t_id b) \<Longrightarrow> phones_unique T"
  unfolding phones_unique_def by blast

lemma phones_uniqueD:
  "phones_unique T \<Longrightarrow> a \<in> T \<Longrightarrow> b \<in> T \<Longrightarrow> t_phone_number_id a = t_phone_number_id b \<Longrightarrow>
     t_phone_number_id a \<noteq> None \<Longrightarrow> t_id a = t_id b"
  unfolding phones_unique_def by blast

lemma phones_unique_insert:
  assumes "phones_unique T" and "t_phone_number_id t = None \<or> t_phone_number_id t \<notin> t_phone_number_id ` T"
  shows "phones_unique (insert t T)"
proof (rule phones_uniqueI)
  fix a b
  assume ab: "a \<in> insert t T" "b \<in> insert t T" "t_phone_number_id a = t_phone_number_id b"
    "t_phone_number_id a \<noteq> None"
  have other: "x \<in> T \<Longrightarrow> t_phone_number_id t \<noteq> None \<Longrightarrow> t_phone_number_id x \<noteq> t_phone_number_id t" for x
    using assms(2) by (metis imageI)
  show "t_id a = t_id b"
  proof (cases "a = t \<or> b = t")
    case True
    with ab other show ?thesis by (metis insertE)
  next
    case False
    with ab phones_uniqueD[OF assms(1)] show ?thesis by blast
  qed
qed

text \<open>
  The laws are stated on the listing as a set: an adapter may list in insertion order or in
  creation order. \<open>fits s t\<close> says that the adapter takes \<open>t\<close>: a database with a unique slug
  refuses a second one and does not rewrite the creation time, but any adapter takes a new tenant
  with a free slug and a tenant that keeps its slug and its creation time.
\<close>

locale tenant_repository =
  fixes P :: "'s tenant_port" and inv :: "'s \<Rightarrow> bool" and fits :: "'s \<Rightarrow> tenant \<Rightarrow> bool"
  assumes get_iff: "inv s \<Longrightarrow> tp_get P s i = Some t \<longleftrightarrow> t \<in> set (tp_list_all P s) \<and> t_id t = i"
    and slug_Some: "inv s \<Longrightarrow> tp_by_slug P s sl = Some t \<Longrightarrow> t \<in> set (tp_list_all P s) \<and> t_slug t = sl"
    and slug_None: "inv s \<Longrightarrow> tp_by_slug P s sl = None \<Longrightarrow> t \<in> set (tp_list_all P s) \<Longrightarrow> t_slug t \<noteq> sl"
    and phone_Some: "inv s \<Longrightarrow> tp_by_phone P s p = Some t
          \<Longrightarrow> t \<in> set (tp_list_all P s) \<and> t_phone_number_id t = Some p"
    and phone_None: "inv s \<Longrightarrow> tp_by_phone P s p = None \<Longrightarrow> t \<in> set (tp_list_all P s)
          \<Longrightarrow> t_phone_number_id t \<noteq> Some p"
    and fits_fresh: "inv s \<Longrightarrow> tp_get P s (t_id t) = None \<Longrightarrow> t_slug t \<notin> t_slug ` set (tp_list_all P s) \<Longrightarrow> fits s t"
    and fits_same: "inv s \<Longrightarrow> tp_get P s (t_id t) = Some u \<Longrightarrow> t_slug u = t_slug t
          \<Longrightarrow> t_created_at u = t_created_at t \<Longrightarrow> fits s t"
    and add_fresh: "inv s \<Longrightarrow> fits s t \<Longrightarrow> tp_get P s (t_id t) = None \<Longrightarrow>
          \<exists>s'. tp_add P s t = Inr s' \<and> inv s' \<and> set (tp_list_all P s') = insert t (set (tp_list_all P s))"
    and update_missing: "inv s \<Longrightarrow> tp_get P s (t_id t) = None \<Longrightarrow> tp_update P s t = Inl (unknown_tenant (t_id t))"
    and update_present: "inv s \<Longrightarrow> fits s t \<Longrightarrow> tp_get P s (t_id t) \<noteq> None \<Longrightarrow>
          \<exists>s'. tp_update P s t = Inr s' \<and> inv s' \<and>
               set (tp_list_all P s') = insert t {x \<in> set (tp_list_all P s). t_id x \<noteq> t_id t}"
begin

lemma get_None: "inv s \<Longrightarrow> tp_get P s i = None \<longleftrightarrow> (\<forall>t \<in> set (tp_list_all P s). t_id t \<noteq> i)"
  using get_iff by (metis not_Some_eq)

lemma ids_unique: "inv s \<Longrightarrow> a \<in> set (tp_list_all P s) \<Longrightarrow> b \<in> set (tp_list_all P s) \<Longrightarrow> t_id a = t_id b \<Longrightarrow> a = b"
  by (metis get_iff option.inject)

lemma slug_free_iff: "inv s \<Longrightarrow> tp_by_slug P s sl = None \<longleftrightarrow> sl \<notin> t_slug ` set (tp_list_all P s)"
  using slug_Some slug_None by (metis imageE imageI not_Some_eq)

lemma create_taken:
  assumes "inv s" and "slug \<in> t_slug ` set (tp_list_all P s)"
  shows "create P s uid now name slug model = Inl (ValueError ((lit ''tenant slug already exists: '') @ str_repr slug))"
  using assms by (simp add: create_def slug_free_iff)

lemma create_free:
  fixes now :: time and name :: pystr and model :: "pystr option"
  assumes "inv s" and "slug \<notin> t_slug ` set (tp_list_all P s)" and "tp_get P s uid = None"
  defines "t \<equiv> new_tenant uid now name slug (if model = None \<or> model = Some [] then default_model else the model)"
  shows "\<exists>s'. create P s uid now name slug model = Inr (s', t) \<and> inv s'
    \<and> set (tp_list_all P s') = insert t (set (tp_list_all P s))"
proof -
  have t: "t_id t = uid" "t_slug t = slug" by (simp_all add: t_def new_tenant_def)
  then obtain s' where "tp_add P s t = Inr s'" "inv s'" "set (tp_list_all P s') = insert t (set (tp_list_all P s))"
    using add_fresh[OF assms(1) fits_fresh[OF assms(1)], of t] assms(2,3) by auto
  then show ?thesis
    using assms(1,2) by (auto simp: create_def slug_free_iff t_def Let_def split: option.splits)
qed

lemma create_keeps:
  assumes "inv s" and "slugs_unique (set (tp_list_all P s))" and "tp_get P s uid = None"
    and "create P s uid now name slug model = Inr (s', t)"
  shows "inv s' \<and> slugs_unique (set (tp_list_all P s')) \<and> tp_get P s' uid = Some t \<and> t_slug t = slug
    \<and> t_phone_number_id t = None \<and> t_status t = PROVISIONING
    \<and> set (tp_list_all P s') = insert t (set (tp_list_all P s))"
proof -
  have free: "slug \<notin> t_slug ` set (tp_list_all P s)"
    using create_taken[OF assms(1), of slug uid now name model] assms(4) by auto
  from create_free[OF assms(1) free assms(3), of now name model] assms(4)
  have i: "inv s'" and l: "set (tp_list_all P s') = insert t (set (tp_list_all P s))"
    and t: "t_id t = uid" "t_slug t = slug" "t_phone_number_id t = None" "t_status t = PROVISIONING"
    by (auto simp: new_tenant_def)
  have "slugs_unique (set (tp_list_all P s'))"
    using assms(2) free t(2) unfolding l by (simp add: slugs_unique_insert)
  with i l t show ?thesis by (simp add: get_iff)
qed

lemma resolve_spec:
  assumes "inv s"
  shows "(\<exists>t. resolve P s p = Inr t) \<longleftrightarrow> Some p \<in> t_phone_number_id ` set (tp_list_all P s)"
    and "resolve P s p = Inr t \<Longrightarrow> t \<in> set (tp_list_all P s) \<and> t_phone_number_id t = Some p"
proof -
  show "resolve P s p = Inr t \<Longrightarrow> t \<in> set (tp_list_all P s) \<and> t_phone_number_id t = Some p"
    using phone_Some[OF assms] by (auto simp: resolve_def split: option.splits)
  show "(\<exists>t. resolve P s p = Inr t) \<longleftrightarrow> Some p \<in> t_phone_number_id ` set (tp_list_all P s)"
  proof (cases "tp_by_phone P s p")
    case None
    then have "Some p \<notin> t_phone_number_id ` set (tp_list_all P s)"
      using phone_None[OF assms None] by (metis imageE)
    with None show ?thesis by (simp add: resolve_def)
  next
    case (Some t)
    then have "t \<in> set (tp_list_all P s)" "t_phone_number_id t = Some p"
      using phone_Some[OF assms] by auto
    then have "Some p \<in> t_phone_number_id ` set (tp_list_all P s)"
      by (metis imageI)
    with Some show ?thesis by (auto simp: resolve_def)
  qed
qed

lemma resolve_unique:
  assumes "inv s" and "phones_unique (set (tp_list_all P s))" and "t \<in> set (tp_list_all P s)" and "t_phone_number_id t = Some p"
  shows "resolve P s p = Inr t"
proof -
  have "Some p \<in> t_phone_number_id ` set (tp_list_all P s)"
    using assms(3,4) by (metis imageI)
  then obtain u where u: "resolve P s p = Inr u"
    using resolve_spec(1)[OF assms(1)] by auto
  then have "u \<in> set (tp_list_all P s)" "t_phone_number_id u = Some p"
    using resolve_spec(2)[OF assms(1)] by auto
  then have "u = t"
    using assms unfolding phones_unique_def by (metis ids_unique option.distinct(1))
  with u show ?thesis by simp
qed

text \<open>A status change through the supervisor: the record changes in that field only.\<close>

lemma bring_up_spec:
  assumes "inv s"
  shows "case tp_get P s tid of
      None \<Rightarrow> bring_up P s r tid = (r, Inl (unknown_tenant tid))
    | Some t \<Rightarrow> (\<exists>s'. bring_up P s r tid = (insert tid r, Inr (s', t\<lparr>t_status := ACTIVE\<rparr>)) \<and> inv s' \<and>
        set (tp_list_all P s') = insert (t\<lparr>t_status := ACTIVE\<rparr>) {x \<in> set (tp_list_all P s). t_id x \<noteq> tid})"
proof (cases "tp_get P s tid")
  case None
  then show ?thesis by (simp add: bring_up_def require_def)
next
  case (Some t)
  then have tid: "t_id t = tid" using get_iff[OF assms] by auto
  then obtain s' where "tp_update P s (t\<lparr>t_status := ACTIVE\<rparr>) = Inr s'" "inv s'"
    "set (tp_list_all P s') = insert (t\<lparr>t_status := ACTIVE\<rparr>) {x \<in> set (tp_list_all P s). t_id x \<noteq> tid}"
    using update_present[OF assms fits_same[OF assms], of "t\<lparr>t_status := ACTIVE\<rparr>" t] Some by auto
  with Some tid show ?thesis by (simp add: bring_up_def require_def spawn_def Let_def)
qed

lemma bring_down_spec:
  assumes "inv s"
  shows "case tp_get P s tid of
      None \<Rightarrow> bring_down P s r tid = (r, Inl (unknown_tenant tid))
    | Some t \<Rightarrow> (\<exists>s'. bring_down P s r tid = (r - {tid}, Inr (s', t\<lparr>t_status := SUSPENDED\<rparr>)) \<and> inv s' \<and>
        set (tp_list_all P s') = insert (t\<lparr>t_status := SUSPENDED\<rparr>) {x \<in> set (tp_list_all P s). t_id x \<noteq> tid})"
proof (cases "tp_get P s tid")
  case None
  then show ?thesis by (simp add: bring_down_def require_def)
next
  case (Some t)
  then have tid: "t_id t = tid" using get_iff[OF assms] by auto
  then obtain s' where "tp_update P s (t\<lparr>t_status := SUSPENDED\<rparr>) = Inr s'" "inv s'"
    "set (tp_list_all P s') = insert (t\<lparr>t_status := SUSPENDED\<rparr>) {x \<in> set (tp_list_all P s). t_id x \<noteq> tid}"
    using update_present[OF assms fits_same[OF assms], of "t\<lparr>t_status := SUSPENDED\<rparr>" t] Some by auto
  with Some tid show ?thesis by (simp add: bring_down_def require_def stop_def Let_def)
qed

end

section \<open>The in-memory adapter provides the contract\<close>

lemma mem_tenants_simps [simp]:
  "tp_add mem_tenants = (\<lambda>d t. Inr (mem_add d t))" "tp_get mem_tenants = mem_get"
  "tp_by_slug mem_tenants = mem_by_slug" "tp_by_phone mem_tenants = mem_by_phone"
  "tp_list_all mem_tenants = mem_list_all" "tp_update mem_tenants = mem_update"
  by (simp_all add: mem_tenants_def)

interpretation mem_repo: tenant_repository mem_tenants "store_ok t_id" "\<lambda>_ _. True"
proof (unfold_locales, goal_cases)
  case (1 s i t)
  then show ?case by (simp add: mem_list_all_def tenants_by_id.get_mem)
next
  case (2 s sl t)
  then show ?case by (auto simp: mem_by_slug_def mem_list_all_def dest: find_Some_mem)
next
  case (3 s sl t)
  then show ?case by (auto simp: mem_by_slug_def mem_list_all_def dest: find_None_all)
next
  case (4 s p t)
  then show ?case by (auto simp: mem_by_phone_def mem_list_all_def dest: find_Some_mem)
next
  case (5 s p t)
  then show ?case by (auto simp: mem_by_phone_def mem_list_all_def dest: find_None_all)
next
  case (8 s t)
  then show ?case by (simp add: mem_list_all_def tenants_by_id.put_ok tenants_by_id.put_fresh)
next
  case (9 s t)
  then show ?case by (simp add: mem_update_def mem_get_def)
next
  case (10 s t)
  then have "mem_update s t = Inr (mem_add s t)"
    by (simp add: mem_update_def mem_get_def mem_add_def)
  then show ?case
    using 10 tenants_by_id.put_ok[of s t] tenants_by_id.put_values[of s _ t]
    by (auto simp: mem_list_all_def)
qed simp_all

end
