(* ===== verification/Events_Onboarding.thy ===== *)
theory Events_Onboarding
  imports Tenants Soul
begin

text \<open>
  The event bus (\<open>sdk/wapsell/events/bus.py\<close>) and the onboarding flow
  (\<open>sdk/wapsell/onboarding/flow.py\<close>), which provisions a tenant from a Meta signup callback. The
  flow is a client of the tenant repository contract; its slug search is a loop with fuel, and
  the fuel given (one more than the number of tenants) is proved to be enough.
\<close>

section \<open>Event bus\<close>

record event =
  ev_type :: pystr
  ev_payload :: "json dict"
  ev_at :: time

text \<open>
  A handler has a name and, for an event it receives, the handlers it subscribes while running.
  \<open>delivered\<close> logs the calls made, in order.
\<close>

datatype handler = Handler pystr "event \<Rightarrow> handler list"

primrec handler_name :: "handler \<Rightarrow> pystr" where
  "handler_name (Handler n f) = n"

primrec handle :: "handler \<Rightarrow> event \<Rightarrow> handler list" where
  "handle (Handler n f) e = f e"

record bus =
  bus_events :: "event list"
  bus_handlers :: "handler list"
  bus_delivered :: "(pystr \<times> event) list"

definition empty_bus :: bus where
  "empty_bus = \<lparr>bus_events = [], bus_handlers = [], bus_delivered = []\<rparr>"

definition subscribe :: "bus \<Rightarrow> handler \<Rightarrow> bus" where
  "subscribe b h = b\<lparr>bus_handlers := bus_handlers b @ [h]\<rparr>"

definition call_handler :: "event \<Rightarrow> handler \<Rightarrow> bus \<Rightarrow> bus" where
  "call_handler e h b =
     fold (\<lambda>x acc. subscribe acc x) (handle h e)
       (b\<lparr>bus_delivered := bus_delivered b @ [(handler_name h, e)]\<rparr>)"

definition publish :: "bus \<Rightarrow> event \<Rightarrow> bus" where
  "publish b e =
     (let b1 = b\<lparr>bus_events := bus_events b @ [e]\<rparr>; snapshot = bus_handlers b1
      in fold (call_handler e) snapshot b1)"

definition by_type :: "bus \<Rightarrow> pystr \<Rightarrow> event list" where
  "by_type b ty = filter (\<lambda>e. ev_type e = ty) (bus_events b)"

lemma fold_subscribe:
  "fold (\<lambda>x acc. subscribe acc x) hs b = b\<lparr>bus_handlers := bus_handlers b @ hs\<rparr>"
  by (induction hs arbitrary: b) (simp_all add: subscribe_def)

lemma fold_call_handler:
  "fold (call_handler e) hs b =
     b\<lparr>bus_handlers := bus_handlers b @ concat (map (\<lambda>h. handle h e) hs),
       bus_delivered := bus_delivered b @ map (\<lambda>h. (handler_name h, e)) hs\<rparr>"
  by (induction hs arbitrary: b) (simp_all add: call_handler_def fold_subscribe)

lemma publish_eq:
  "publish b e =
     b\<lparr>bus_events := bus_events b @ [e],
       bus_handlers := bus_handlers b @ concat (map (\<lambda>h. handle h e) (bus_handlers b)),
       bus_delivered := bus_delivered b @ map (\<lambda>h. (handler_name h, e)) (bus_handlers b)\<rparr>"
  by (simp add: publish_def Let_def fold_call_handler)

section \<open>Slugs\<close>

definition slug_char :: "nat \<Rightarrow> bool" where
  "slug_char c \<longleftrightarrow> (97 \<le> c \<and> c \<le> 122) \<or> is_digit c \<or> c = 45"

fun collapse_hyphens :: "pystr \<Rightarrow> pystr" where
  "collapse_hyphens [] = []"
| "collapse_hyphens [c] = [c]"
| "collapse_hyphens (c # d # s) =
     (if c = 45 \<and> d = 45 then collapse_hyphens (d # s) else c # collapse_hyphens (d # s))"

definition strip_hyphens :: "pystr \<Rightarrow> pystr" where
  "strip_hyphens s = rev (dropWhile (\<lambda>c. c = 45) (rev (dropWhile (\<lambda>c. c = 45) s)))"

definition slugify :: "pystr \<Rightarrow> pystr" where
  "slugify name =
     (let base = replace_char 32 [45] (lower (strip name));
          base = filter slug_char base;
          base = collapse_hyphens base;
          base = strip_hyphens base
      in if base = [] then (lit ''tenant'') else base)"

text \<open>
  What a slug looks like: a non-empty string of lower-case ASCII letters, digits and single
  hyphens, with no hyphen at either end.
\<close>

definition no_double :: "pystr \<Rightarrow> bool" where
  "no_double s \<longleftrightarrow> (\<forall>i. Suc i < length s \<longrightarrow> \<not> (s ! i = 45 \<and> s ! Suc i = 45))"

definition slug_ok :: "pystr \<Rightarrow> bool" where
  "slug_ok s \<longleftrightarrow> s \<noteq> [] \<and> (\<forall>c \<in> set s. slug_char c) \<and> no_double s \<and> hd s \<noteq> 45 \<and> last s \<noteq> 45"

lemma no_double_Nil [simp]: "no_double []"
  by (simp add: no_double_def)

lemma no_double_single [simp]: "no_double [c]"
  by (simp add: no_double_def)

lemma no_double_Cons2 [simp]:
  "no_double (c # d # s) \<longleftrightarrow> \<not> (c = 45 \<and> d = 45) \<and> no_double (d # s)"
  by (auto simp: no_double_def nth_Cons split: nat.splits)

lemma hd_collapse: "s \<noteq> [] \<Longrightarrow> collapse_hyphens s \<noteq> [] \<and> hd (collapse_hyphens s) = hd s"
  by (induction s rule: collapse_hyphens.induct) auto

lemma no_double_collapse: "no_double (collapse_hyphens s)"
proof (induction s rule: collapse_hyphens.induct)
  case (3 c d s)
  show ?case
  proof (cases "c = 45 \<and> d = 45")
    case True
    with 3 show ?thesis by simp
  next
    case False
    obtain e t where et: "collapse_hyphens (d # s) = e # t" and "e = d"
      using hd_collapse[of "d # s"] by (cases "collapse_hyphens (d # s)") auto
    with 3 False show ?thesis by auto
  qed
qed simp_all

lemma set_collapse: "set (collapse_hyphens s) = set s"
  by (induction s rule: collapse_hyphens.induct) auto

lemma collapse_id: "no_double s \<Longrightarrow> collapse_hyphens s = s"
  by (induction s rule: collapse_hyphens.induct) auto

lemma no_double_drop: "no_double s \<Longrightarrow> no_double (drop n s)"
  by (auto simp: no_double_def)

lemma no_double_rev [simp]: "no_double (rev s) \<longleftrightarrow> no_double s"
proof -
  have "no_double (rev t)" if "no_double t" for t :: pystr
    unfolding no_double_def
  proof (intro allI impI notI)
    fix i assume i: "Suc i < length (rev t)" and h: "rev t ! i = 45 \<and> rev t ! Suc i = 45"
    let ?j = "length t - Suc (Suc i)"
    have j: "Suc ?j < length t" "t ! ?j = 45" "t ! Suc ?j = 45"
      using i h by (auto simp: rev_nth Suc_diff_Suc)
    then show False using that unfolding no_double_def by blast
  qed
  from this[of s] this[of "rev s"] show ?thesis by auto
qed

lemma no_double_dropWhile: "no_double s \<Longrightarrow> no_double (dropWhile P s)"
  by (metis dropWhile_eq_drop no_double_drop)

lemma strip_hyphens_ok:
  assumes "no_double s" and "strip_hyphens s \<noteq> []"
  shows "no_double (strip_hyphens s) \<and> hd (strip_hyphens s) \<noteq> 45 \<and> last (strip_hyphens s) \<noteq> 45"
proof -
  let ?u = "dropWhile (\<lambda>c. c = 45) s"
  have ne: "?u \<noteq> []"
    using assms(2) unfolding strip_hyphens_def by (metis dropWhile.simps(1) rev.simps(1))
  have "rev ?u = takeWhile (\<lambda>c. c = 45) (rev ?u) @ dropWhile (\<lambda>c. c = 45) (rev ?u)" by simp
  then have u: "?u = strip_hyphens s @ rev (takeWhile (\<lambda>c. c = 45) (rev ?u))"
    unfolding strip_hyphens_def by (metis rev_append rev_rev_ident)
  then have "hd (strip_hyphens s) = hd ?u"
    using assms(2) by (metis hd_append2)
  moreover have "hd ?u \<noteq> 45" using ne by (rule hd_dropWhile)
  moreover have "last (strip_hyphens s) \<noteq> 45"
    using assms(2) hd_dropWhile[of "\<lambda>c. c = 45" "rev ?u"] by (simp add: strip_hyphens_def last_rev)
  moreover have "no_double (strip_hyphens s)"
    by (simp add: strip_hyphens_def no_double_dropWhile assms(1))
  ultimately show ?thesis by simp
qed

lemma dropWhile_id: "s = [] \<or> \<not> P (hd s) \<Longrightarrow> dropWhile P s = s"
  by (cases s) auto

lemma strip_hyphens_id: "hd s \<noteq> 45 \<Longrightarrow> last s \<noteq> 45 \<Longrightarrow> strip_hyphens s = s"
  by (simp add: strip_hyphens_def dropWhile_id hd_rev)

lemma set_strip_hyphens: "set (strip_hyphens s) \<subseteq> set s"
proof
  fix x assume "x \<in> set (strip_hyphens s)"
  then have "x \<in> set (dropWhile (\<lambda>c. c = 45) (rev (dropWhile (\<lambda>c. c = 45) s)))"
    by (simp add: strip_hyphens_def)
  then have "x \<in> set (rev (dropWhile (\<lambda>c. c = 45) s))" by (rule set_dropWhileD)
  then have "x \<in> set (dropWhile (\<lambda>c. c = 45) s)" by simp
  then show "x \<in> set s" by (rule set_dropWhileD)
qed

lemma slug_ok_tenant: "slug_ok (lit ''tenant'')"
  by (simp add: slug_ok_def lit_def slug_char_def is_digit_def)

lemma slugify_ok: "slug_ok (slugify name)"
proof -
  define b where "b = collapse_hyphens (filter slug_char (replace_char 32 [45] (lower (strip name))))"
  have eq: "slugify name = (if strip_hyphens b = [] then (lit ''tenant'') else strip_hyphens b)"
    by (simp add: slugify_def Let_def b_def)
  have chars: "c \<in> set (strip_hyphens b) \<Longrightarrow> slug_char c" for c
    using set_strip_hyphens[of b] by (auto simp: b_def set_collapse)
  have "no_double b" unfolding b_def by (rule no_double_collapse)
  then show ?thesis
    using strip_hyphens_ok[of b] chars by (simp add: eq slug_ok_tenant) (simp add: slug_ok_def)
qed

lemma slugify_id: "slug_ok s \<Longrightarrow> slugify s = s"
proof -
  assume ok: "slug_ok s"
  have nsp: "slug_char c \<Longrightarrow> \<not> is_space c \<and> lower_cp c = c \<and> c \<noteq> 32" for c
    by (auto simp: slug_char_def is_space_def lower_cp_def is_digit_def)
  have "\<not> is_space (hd s)" "\<not> is_space (last s)"
    using ok nsp by (auto simp: slug_ok_def)
  then have 1: "strip s = s"
    by (simp add: strip_def lstrip_id rstrip_id)
  have 2: "lower s = s"
    using ok nsp by (auto simp: slug_ok_def lower_def intro: map_idI)
  have 3: "replace_char 32 [45] s = s"
  proof -
    have m: "map (\<lambda>x. if x = 32 then [45] else [x]) s = map (\<lambda>x. [x]) s"
      using ok nsp by (auto simp: slug_ok_def)
    show ?thesis unfolding replace_char_def m by simp
  qed
  have 4: "filter slug_char s = s"
    using ok by (auto simp: slug_ok_def intro: filter_True)
  show ?thesis
    using ok 1 2 3 4 by (auto simp: slugify_def slug_ok_def collapse_id strip_hyphens_id)
qed

section \<open>The slug search\<close>

fun slug_search :: "nat \<Rightarrow> 's tenant_port \<Rightarrow> 's \<Rightarrow> pystr \<Rightarrow> pystr \<Rightarrow> nat \<Rightarrow> pystr option" where
  "slug_search 0 P s base candidate suffix = None"
| "slug_search (Suc n) P s base candidate suffix =
     (if tp_by_slug P s candidate \<noteq> None
      then slug_search n P s base (base @ (lit ''-'') @ nat_digits suffix) (Suc suffix)
      else Some candidate)"

definition unique_slug :: "'s tenant_port \<Rightarrow> 's \<Rightarrow> pystr \<Rightarrow> pystr option" where
  "unique_slug P s base = slug_search (Suc (length (tp_list_all P s))) P s base base 2"

definition slug_candidate :: "pystr \<Rightarrow> nat \<Rightarrow> pystr" where
  "slug_candidate base i = (if i = 1 then base else base @ (lit ''-'') @ nat_digits i)"

lemma slug_candidate_inj: "slug_candidate base i = slug_candidate base j \<Longrightarrow> i = j"
  by (auto simp: slug_candidate_def dest: nat_digits_inj split: if_splits)

lemma slug_search_step:
  assumes "1 \<le> i"
  shows "slug_search (Suc n) P s base (slug_candidate base i) (Suc i) =
     (if tp_by_slug P s (slug_candidate base i) \<noteq> None
      then slug_search n P s base (slug_candidate base (Suc i)) (Suc (Suc i))
      else Some (slug_candidate base i))"
  using assms by (simp add: slug_candidate_def)

lemma slug_search_None:
  "1 \<le> i \<Longrightarrow> slug_search n P s base (slug_candidate base i) (Suc i) = None \<Longrightarrow> i \<le> j \<Longrightarrow> j < i + n
     \<Longrightarrow> tp_by_slug P s (slug_candidate base j) \<noteq> None"
proof (induction n arbitrary: i)
  case 0
  then show ?case by simp
next
  case (Suc n)
  have taken: "tp_by_slug P s (slug_candidate base i) \<noteq> None"
    and rest: "slug_search n P s base (slug_candidate base (Suc i)) (Suc (Suc i)) = None"
    using Suc.prems(2) slug_search_step[OF Suc.prems(1), of n P s base] by (auto split: if_splits)
  show ?case
  proof (cases "j = i")
    case True
    with taken show ?thesis by simp
  next
    case False
    with Suc.prems have "Suc i \<le> j" "j < Suc i + n" by auto
    with Suc.IH[OF _ rest] show ?thesis by simp
  qed
qed

lemma slug_search_Some:
  "1 \<le> i \<Longrightarrow> slug_search n P s base (slug_candidate base i) (Suc i) = Some c \<Longrightarrow>
     \<exists>j \<ge> i. c = slug_candidate base j \<and> tp_by_slug P s c = None \<and>
       (\<forall>m. i \<le> m \<and> m < j \<longrightarrow> tp_by_slug P s (slug_candidate base m) \<noteq> None)"
proof (induction n arbitrary: i)
  case 0
  then show ?case by simp
next
  case (Suc n)
  show ?case
  proof (cases "tp_by_slug P s (slug_candidate base i)")
    case None
    with Suc.prems have "c = slug_candidate base i"
      using slug_search_step[OF Suc.prems(1), of n P s base] by simp
    with None show ?thesis by (intro exI[of _ i]) auto
  next
    case (Some t)
    with Suc.prems have "slug_search n P s base (slug_candidate base (Suc i)) (Suc (Suc i)) = Some c"
      using slug_search_step[OF Suc.prems(1), of n P s base] by simp
    with Suc.IH[of "Suc i"] obtain j where "Suc i \<le> j" "c = slug_candidate base j" "tp_by_slug P s c = None"
      "\<forall>m. Suc i \<le> m \<and> m < j \<longrightarrow> tp_by_slug P s (slug_candidate base m) \<noteq> None"
      by auto
    with Some show ?thesis
      by (intro exI[of _ j]) (metis Suc_leD not_None_eq Suc_leI le_neq_implies_less)
  qed
qed

lemma slug_search_start:
  "unique_slug P s base =
     slug_search (Suc (length (tp_list_all P s))) P s base (slug_candidate base 1) (Suc 1)"
  by (simp add: unique_slug_def slug_candidate_def numeral_2_eq_2)

section \<open>The flow\<close>

record signup =
  mp_phone_number_id :: pystr
  mp_business_name :: pystr
  mp_waba_id :: "pystr option"
  mp_business_id :: "pystr option"

definition json_opt :: "pystr option \<Rightarrow> json" where
  "json_opt x = (case x of None \<Rightarrow> JNull | Some s \<Rightarrow> JStr s)"

definition onboarded_event :: "tenant \<Rightarrow> signup \<Rightarrow> time \<Rightarrow> event" where
  "onboarded_event t p tm =
     \<lparr>ev_type = (lit ''tenant.onboarded''),
      ev_payload = [((lit ''tenant_id''), JStr (t_id t)), ((lit ''slug''), JStr (t_slug t)),
        ((lit ''phone_number_id''), JStr (mp_phone_number_id p)),
        ((lit ''business_name''), JStr (mp_business_name p)),
        ((lit ''waba_id''), json_opt (mp_waba_id p)), ((lit ''business_id''), json_opt (mp_business_id p))],
      ev_at = tm\<rparr>"

text \<open>
  \<open>OnboardingFlow.run\<close>. The outer \<open>None\<close> would be a slug search that does not return. \<open>uid\<close> is
  the identifier the new tenant gets, \<open>now\<close> its creation time, \<open>tm\<close> the time of the event.
\<close>

definition onboarding_run ::
  "'s tenant_port \<Rightarrow> 's \<Rightarrow> spawner \<Rightarrow> bus \<Rightarrow> pystr \<Rightarrow> time \<Rightarrow> time \<Rightarrow> signup
     \<Rightarrow> ('s \<times> spawner \<times> bus \<times> (tenant \<times> bool) res) option" where
  "onboarding_run P s r b uid now tm p =
     (case tp_by_phone P s (mp_phone_number_id p) of
        Some t \<Rightarrow> Some (s, r, b, Inr (t, False))
      | None \<Rightarrow>
          (case unique_slug P s (slugify (mp_business_name p)) of
             None \<Rightarrow> None
           | Some slug \<Rightarrow> Some
              (case create P s uid now (mp_business_name p) slug None of
                 Inl (ValueError m) \<Rightarrow> (s, r, b, Inl (OnboardingError ((lit ''failed to create tenant: '') @ m)))
               | Inl e \<Rightarrow> (s, r, b, Inl e)
               | Inr (s1, t) \<Rightarrow>
                   (case tp_update P s1 (t\<lparr>t_phone_number_id := Some (mp_phone_number_id p)\<rparr>) of
                      Inl e \<Rightarrow> (s1, r, b, Inl e)
                    | Inr s2 \<Rightarrow>
                        (case manager_get P s2 (t_id t) of
                           Inl e \<Rightarrow> (s2, r, b, Inl e)
                         | Inr t2 \<Rightarrow>
                             (let _ = soul_build t2 None [] in
                              case bring_up P s2 r (t_id t) of
                                (r', Inl e) \<Rightarrow> (s2, r', b, Inl e)
                              | (r', Inr (s3, t3)) \<Rightarrow>
                                  (s3, r', publish b (onboarded_event t3 p tm), Inr (t3, True))))))))"

context tenant_repository
begin

lemma unique_slug_returns:
  assumes "inv s"
  shows "\<exists>c. unique_slug P s base = Some c"
proof (rule ccontr)
  let ?n = "Suc (length (tp_list_all P s))" and ?f = "slug_candidate base"
  assume "\<not> ?thesis"
  then have none: "slug_search ?n P s base (?f 1) (Suc 1) = None"
    by (simp add: slug_search_start)
  have "?f ` {1..<1 + ?n} \<subseteq> t_slug ` set (tp_list_all P s)"
  proof
    fix c assume "c \<in> ?f ` {1..<1 + ?n}"
    then obtain j where "1 \<le> j" "j < 1 + ?n" "c = ?f j" by auto
    then have "tp_by_slug P s c \<noteq> None"
      using slug_search_None[OF le_refl none, of j] by simp
    then show "c \<in> t_slug ` set (tp_list_all P s)"
      by (simp add: slug_free_iff[OF assms])
  qed
  moreover have "card (?f ` {1..<1 + ?n}) = ?n"
    by (subst card_image) (auto intro!: inj_onI dest: slug_candidate_inj)
  ultimately have "?n \<le> card (t_slug ` set (tp_list_all P s))"
    by (metis List.finite_set card_mono finite_imageI)
  also have "\<dots> \<le> length (tp_list_all P s)"
    by (meson List.finite_set card_image_le card_length le_trans)
  finally show False by simp
qed

lemma unique_slug_free:
  assumes "inv s" and "unique_slug P s base = Some c"
  shows "c \<notin> t_slug ` set (tp_list_all P s) \<and>
    (\<exists>j \<ge> 1. c = slug_candidate base j \<and>
       (\<forall>m. 1 \<le> m \<and> m < j \<longrightarrow> slug_candidate base m \<in> t_slug ` set (tp_list_all P s)))"
proof -
  from assms(2) have "slug_search (Suc (length (tp_list_all P s))) P s base (slug_candidate base 1) (Suc 1) = Some c"
    by (simp add: slug_search_start)
  from slug_search_Some[OF le_refl this] show ?thesis
    unfolding slug_free_iff[OF assms(1)] by blast
qed

lemma onboarding_replay:
  assumes "tp_by_phone P s (mp_phone_number_id p) = Some t"
  shows "onboarding_run P s r b uid now tm p = Some (s, r, b, Inr (t, False))"
  using assms by (simp add: onboarding_run_def)

lemma onboarding_fresh:
  fixes now tm :: time
  assumes "inv s" and "tp_get P s uid = None" and new: "tp_by_phone P s (mp_phone_number_id p) = None"
    and slug: "unique_slug P s (slugify (mp_business_name p)) = Some slug"
  defines "t0 \<equiv> new_tenant uid now (mp_business_name p) slug default_model"
  defines "t \<equiv> t0\<lparr>t_phone_number_id := Some (mp_phone_number_id p), t_status := ACTIVE\<rparr>"
  shows "\<exists>s'. onboarding_run P s r b uid now tm p =
      Some (s', insert uid r, publish b (onboarded_event t p tm), Inr (t, True)) \<and> inv s' \<and>
      set (tp_list_all P s') = insert t (set (tp_list_all P s))"
proof -
  let ?T = "set (tp_list_all P s)"
  have fresh: "x \<in> ?T \<Longrightarrow> t_id x \<noteq> uid" for x
    using assms(1,2) get_None by blast
  have id0 [simp]: "t_id t0 = uid" by (simp add: t0_def new_tenant_def)
  obtain s1 where c: "create P s uid now (mp_business_name p) slug None = Inr (s1, t0)"
    and s1: "inv s1" "set (tp_list_all P s1) = insert t0 ?T"
    using create_free[OF assms(1) _ assms(2), of slug now "mp_business_name p" None]
      unique_slug_free[OF assms(1) slug] by (auto simp: t0_def)
  let ?t1 = "t0\<lparr>t_phone_number_id := Some (mp_phone_number_id p)\<rparr>"
  have g1: "tp_get P s1 (t_id ?t1) = Some t0" using s1 by (simp add: get_iff)
  then obtain s2 where s2: "tp_update P s1 ?t1 = Inr s2" "inv s2"
    and l2: "set (tp_list_all P s2) = insert ?t1 {x \<in> insert t0 ?T. t_id x \<noteq> t_id ?t1}"
    using update_present[OF s1(1) fits_same[OF s1(1) g1], of] g1 s1(2) by auto
  have "{x \<in> insert t0 ?T. t_id x \<noteq> t_id ?t1} = ?T" using fresh by auto
  with l2 have l2: "set (tp_list_all P s2) = insert ?t1 ?T" by simp
  have g2: "tp_get P s2 uid = Some ?t1" using s2 l2 by (simp add: get_iff)
  have "?t1\<lparr>t_status := ACTIVE\<rparr> = t" by (simp add: t_def)
  then obtain s3 where s3: "bring_up P s2 r uid = (insert uid r, Inr (s3, t))" "inv s3"
      and l3: "set (tp_list_all P s3) = insert t {x \<in> insert ?t1 ?T. t_id x \<noteq> uid}"
    using bring_up_spec[OF s2(2), where tid = uid and r = r] g2 l2 by auto
  have "{x \<in> insert ?t1 ?T. t_id x \<noteq> uid} = ?T" using fresh by auto
  with l3 have l3: "set (tp_list_all P s3) = insert t ?T" by simp
  have "onboarding_run P s r b uid now tm p =
      Some (s3, insert uid r, publish b (onboarded_event t p tm), Inr (t, True))"
    using new slug c s2(1) g2 s3(1)
    by (simp add: onboarding_run_def manager_get_def Let_def)
  with s3 l3 show ?thesis by blast
qed

lemma onboarding_returns:
  assumes "inv s" and "tp_get P s uid = None"
  shows "\<exists>s' r' b' t new. onboarding_run P s r b uid now tm p = Some (s', r', b', Inr (t, new))
    \<and> t_phone_number_id t = Some (mp_phone_number_id p) \<and> inv s' \<and> t \<in> set (tp_list_all P s')
    \<and> (new \<longleftrightarrow> Some (mp_phone_number_id p) \<notin> t_phone_number_id ` set (tp_list_all P s))"
proof (cases "tp_by_phone P s (mp_phone_number_id p)")
  case (Some t)
  then show ?thesis
    using onboarding_replay[OF Some] phone_Some[OF assms(1) Some] assms(1)
    by (auto simp: image_iff) metis
next
  case None
  obtain slug where "unique_slug P s (slugify (mp_business_name p)) = Some slug"
    using unique_slug_returns[OF assms(1)] by blast
  from onboarding_fresh[OF assms None this, where now = now and r = r and b = b and tm = tm]
  obtain s' t where run: "onboarding_run P s r b uid now tm p =
      Some (s', insert uid r, publish b (onboarded_event t p tm), Inr (t, True))" "inv s'"
      "set (tp_list_all P s') = insert t (set (tp_list_all P s))"
      and "t_phone_number_id t = Some (mp_phone_number_id p)"
    by auto
  moreover have "Some (mp_phone_number_id p) \<notin> t_phone_number_id ` set (tp_list_all P s)"
    using phone_None[OF assms(1) None] by (metis imageE)
  ultimately show ?thesis by (intro exI[of _ True] exI conjI) auto
qed

lemma onboarding_preserves:
  assumes "inv s" and "tp_get P s uid = None"
    and "slugs_unique (set (tp_list_all P s))" and "phones_unique (set (tp_list_all P s))"
    and run: "onboarding_run P s r b uid now tm p = Some (s', r', b', res)"
  shows "slugs_unique (set (tp_list_all P s')) \<and> phones_unique (set (tp_list_all P s'))"
proof (cases "tp_by_phone P s (mp_phone_number_id p)")
  case (Some t)
  with run assms show ?thesis by (simp add: onboarding_replay)
next
  case None
  obtain slug where slug: "unique_slug P s (slugify (mp_business_name p)) = Some slug"
    using unique_slug_returns[OF assms(1)] by blast
  define t where "t = (new_tenant uid now (mp_business_name p) slug default_model)
    \<lparr>t_phone_number_id := Some (mp_phone_number_id p), t_status := ACTIVE\<rparr>"
  have l: "set (tp_list_all P s') = insert t (set (tp_list_all P s))"
    using onboarding_fresh[OF assms(1,2) None slug, where now = now and r = r and b = b and tm = tm] run by (auto simp: t_def)
  have "t_slug t \<notin> t_slug ` set (tp_list_all P s)"
    using unique_slug_free[OF assms(1) slug] by (simp add: t_def new_tenant_def)
  moreover have "t_phone_number_id t \<notin> t_phone_number_id ` set (tp_list_all P s)"
  proof
    assume "t_phone_number_id t \<in> t_phone_number_id ` set (tp_list_all P s)"
    then obtain x where x: "x \<in> set (tp_list_all P s)" "t_phone_number_id x = t_phone_number_id t" by force
    then show False using phone_None[OF assms(1) None x(1)] by (simp add: t_def)
  qed
  then have "phones_unique (insert t (set (tp_list_all P s)))"
    using assms(4) by (intro phones_unique_insert disjI2)
  ultimately show ?thesis
    using assms(3) by (simp add: l slugs_unique_insert)
qed

lemma onboarding_twice:
  assumes "inv s" and "tp_get P s uid = None"
    and "onboarding_run P s r b uid now tm p = Some (s', r', b', Inr (t, new))"
    and "mp_phone_number_id q = mp_phone_number_id p"
    and "phones_unique (set (tp_list_all P s))" and "slugs_unique (set (tp_list_all P s))"
  shows "onboarding_run P s' r' b' uid' now' tm' q = Some (s', r', b', Inr (t, False))"
proof -
  have i: "inv s'" "t \<in> set (tp_list_all P s')" "t_phone_number_id t = Some (mp_phone_number_id p)"
    using onboarding_returns[OF assms(1,2), of r b now tm p] assms(3) by auto
  have "phones_unique (set (tp_list_all P s'))"
    using onboarding_preserves[OF assms(1,2,6,5,3)] by simp
  then have "resolve P s' (mp_phone_number_id p) = Inr t"
    using resolve_unique[OF i(1) _ i(2,3)] by simp
  then have "tp_by_phone P s' (mp_phone_number_id q) = Some t"
    by (auto simp: resolve_def assms(4) split: option.splits)
  then show ?thesis by (rule onboarding_replay)
qed

end

end
