(* ===== verification/Py_Json.thy ===== *)
theory Py_Json
  imports Py_Data
begin

text \<open>
  \<open>json.loads\<close> on text, as a recursive-descent parser with fuel, and its round trip with
  \<open>json.dumps\<close>. The fuel \<open>loads\<close> gives is twice the length of the text and two, and a parse that
  succeeds with some fuel succeeds alike with more. A float literal is kept as the decimal it
  denotes, trailing zeros dropped, which is its \<open>repr\<close> when it is the shortest literal of its
  double. The non-standard literals \<open>NaN\<close> and \<open>Infinity\<close> are errors here.
\<close>

definition is_ws :: "nat \<Rightarrow> bool" where
  "is_ws c \<longleftrightarrow> c = 32 \<or> c = 9 \<or> c = 10 \<or> c = 13"

definition skip_ws :: "pystr \<Rightarrow> pystr" where
  "skip_ws s = dropWhile is_ws s"

section \<open>Strings\<close>

definition hex_value :: "nat \<Rightarrow> nat option" where
  "hex_value c =
     (if 48 \<le> c \<and> c \<le> 57 then Some (c - 48) else if 97 \<le> c \<and> c \<le> 102 then Some (c - 87)
      else if 65 \<le> c \<and> c \<le> 70 then Some (c - 55) else None)"

definition hex4 :: "pystr \<Rightarrow> (nat \<times> pystr) option" where
  "hex4 s =
     (case s of a # b # c # d # r \<Rightarrow>
        (case (hex_value a, hex_value b, hex_value c, hex_value d) of
           (Some w, Some x, Some y, Some z) \<Rightarrow> Some (w * 4096 + x * 256 + y * 16 + z, r)
         | _ \<Rightarrow> None)
      | _ \<Rightarrow> None)"

text \<open>The character an escape stands for, a surrogate pair taken together.\<close>

definition unescape :: "pystr \<Rightarrow> (nat \<times> pystr) option" where
  "unescape s =
     (case s of
        [] \<Rightarrow> None
      | e # r \<Rightarrow>
          if e = 34 \<or> e = 92 \<or> e = 47 then Some (e, r)
          else if e = 98 then Some (8, r) else if e = 102 then Some (12, r)
          else if e = 110 then Some (10, r) else if e = 114 then Some (13, r)
          else if e = 116 then Some (9, r)
          else if e = 117 then
            (case hex4 r of
               None \<Rightarrow> None
             | Some (hi, r1) \<Rightarrow>
                 if 55296 \<le> hi \<and> hi \<le> 56319 \<and> startswith r1 [92, 117] then
                   (case hex4 (drop 2 r1) of
                      None \<Rightarrow> None
                    | Some (lo, r3) \<Rightarrow>
                        if 56320 \<le> lo \<and> lo \<le> 57343
                        then Some (65536 + (hi - 55296) * 1024 + (lo - 56320), r3)
                        else Some (hi, r1))
                 else Some (hi, r1))
          else None)"

fun str_body :: "nat \<Rightarrow> pystr \<Rightarrow> (pystr \<times> pystr) option" where
  "str_body 0 s = None"
| "str_body (Suc n) s =
     (case s of
        [] \<Rightarrow> None
      | c # r \<Rightarrow>
          if c = 34 then Some ([], r)
          else if c = 92 then
            (case unescape r of
               None \<Rightarrow> None
             | Some (x, r1) \<Rightarrow> map_option (\<lambda>(t, r2). (x # t, r2)) (str_body n r1))
          else if c < 32 then None
          else map_option (\<lambda>(t, r2). (c # t, r2)) (str_body n r))"

definition parse_str :: "pystr \<Rightarrow> (pystr \<times> pystr) option" where
  "parse_str s = str_body (Suc (length s)) s"

section \<open>Numbers\<close>

fun drop_zeros :: "nat \<Rightarrow> int \<Rightarrow> int \<Rightarrow> int \<times> int" where
  "drop_zeros 0 m e = (m, e)"
| "drop_zeros (Suc n) m e =
     (if m = 0 then (0, 0) else if m mod 10 = 0 then drop_zeros n (m div 10) (e + 1) else (m, e))"

definition make_float :: "int \<Rightarrow> int \<Rightarrow> json" where
  "make_float m e = (case drop_zeros (Suc (nat \<bar>m\<bar>)) m e of (m', e') \<Rightarrow> JFloat m' e')"

definition take_digits :: "pystr \<Rightarrow> pystr \<times> pystr" where
  "take_digits s = (takeWhile is_digit s, dropWhile is_digit s)"

definition num_sign :: "pystr \<Rightarrow> bool \<times> pystr" where
  "num_sign s = (case s of [] \<Rightarrow> (False, []) | c # r \<Rightarrow> if c = 45 then (True, r) else (False, s))"

definition int_part :: "pystr \<Rightarrow> pystr \<times> pystr" where
  "int_part s = (case s of [] \<Rightarrow> ([], []) | c # r \<Rightarrow> if c = 48 then ([48], r) else take_digits s)"

definition frac_part :: "pystr \<Rightarrow> pystr \<times> pystr" where
  "frac_part s =
     (case s of [] \<Rightarrow> ([], [])
      | c # r \<Rightarrow> if c = 46 \<and> fst (take_digits r) \<noteq> [] then take_digits r else ([], s))"

definition exp_part :: "pystr \<Rightarrow> int option \<times> pystr" where
  "exp_part s =
     (case s of [] \<Rightarrow> (None, [])
      | c # r \<Rightarrow>
          if c = 101 \<or> c = 69 then
            (case take_sign r of (xneg, t1) \<Rightarrow>
               (case take_digits t1 of (ds, t2) \<Rightarrow>
                  if ds = [] then (None, s)
                  else (Some (if xneg then - int (digits_value ds) else int (digits_value ds)), t2)))
          else (None, s))"

definition parse_num :: "pystr \<Rightarrow> (json \<times> pystr) option" where
  "parse_num s0 =
     (case num_sign s0 of (neg, s) \<Rightarrow>
        (case int_part s of (ip, r) \<Rightarrow>
           (case frac_part r of (fp, r1) \<Rightarrow>
              (case exp_part r1 of (xp, r2) \<Rightarrow>
                 (let sgn = (if neg then -1 else 1)
                  in if ip = [] then None
                     else if fp = [] \<and> xp = None then Some (JInt (sgn * int (digits_value ip)), r2)
                     else Some (make_float (sgn * int (digits_value (ip @ fp)))
                                  ((case xp of None \<Rightarrow> 0 | Some x \<Rightarrow> x) - int (length fp)), r2))))))"

section \<open>Values\<close>

fun parse_value :: "nat \<Rightarrow> pystr \<Rightarrow> (json \<times> pystr) option"
  and parse_items :: "nat \<Rightarrow> pystr \<Rightarrow> (json list \<times> pystr) option"
  and parse_members :: "nat \<Rightarrow> pystr \<Rightarrow> ((pystr \<times> json) list \<times> pystr) option" where
  "parse_value 0 s = None"
| "parse_value (Suc n) s =
     (case s of
        [] \<Rightarrow> None
      | c # r \<Rightarrow>
          if c = 34 then map_option (\<lambda>(t, r1). (JStr t, r1)) (parse_str r)
          else if c = 123 then
            (case skip_ws r of
               [] \<Rightarrow> None
             | d # r1 \<Rightarrow> if d = 125 then Some (JObj [], r1)
                         else map_option (\<lambda>(ps, r2). (JObj (fold (\<lambda>(k, v) acc. dset acc k v) ps []), r2))
                                (parse_members n (d # r1)))
          else if c = 91 then
            (case skip_ws r of
               [] \<Rightarrow> None
             | d # r1 \<Rightarrow> if d = 93 then Some (JList [], r1)
                         else map_option (\<lambda>(vs, r2). (JList vs, r2)) (parse_items n (d # r1)))
          else if startswith s (lit ''null'') then Some (JNull, drop 4 s)
          else if startswith s (lit ''true'') then Some (JBool True, drop 4 s)
          else if startswith s (lit ''false'') then Some (JBool False, drop 5 s)
          else parse_num s)"
| "parse_items 0 s = None"
| "parse_items (Suc n) s =
     (case parse_value n s of
        None \<Rightarrow> None
      | Some (v, r) \<Rightarrow>
          (case skip_ws r of
             [] \<Rightarrow> None
           | d # r1 \<Rightarrow>
               if d = 93 then Some ([v], r1)
               else if d = 44 then map_option (\<lambda>(vs, r2). (v # vs, r2)) (parse_items n (skip_ws r1))
               else None))"
| "parse_members 0 s = None"
| "parse_members (Suc n) s =
     (case s of
        [] \<Rightarrow> None
      | q # r \<Rightarrow>
          if q \<noteq> 34 then None
          else (case parse_str r of
                  None \<Rightarrow> None
                | Some (k, r1) \<Rightarrow>
                    (case skip_ws r1 of
                       [] \<Rightarrow> None
                     | c # r2 \<Rightarrow>
                         if c \<noteq> 58 then None
                         else (case parse_value n (skip_ws r2) of
                                 None \<Rightarrow> None
                               | Some (v, r3) \<Rightarrow>
                                   (case skip_ws r3 of
                                      [] \<Rightarrow> None
                                    | d # r4 \<Rightarrow>
                                        if d = 125 then Some ([(k, v)], r4)
                                        else if d = 44
                                        then map_option (\<lambda>(ps, r5). ((k, v) # ps, r5)) (parse_members n (skip_ws r4))
                                        else None)))))"

definition loads :: "pystr \<Rightarrow> json option" where
  "loads s =
     (case parse_value (2 * length s + 2) (skip_ws s) of
        None \<Rightarrow> None
      | Some (v, r) \<Rightarrow> if skip_ws r = [] then Some v else None)"

section \<open>More fuel does not change a result\<close>

lemma parse_mono:
  "parse_value n s = Some x \<Longrightarrow> parse_value (n + k) s = Some x"
  "parse_items n s = Some xs \<Longrightarrow> parse_items (n + k) s = Some xs"
  "parse_members n s = Some ps \<Longrightarrow> parse_members (n + k) s = Some ps"
proof (induction n s and n s and n s arbitrary: x and xs and ps
    rule: parse_value_parse_items_parse_members.induct)
  case (2 n s)
  then show ?case by (auto split: list.splits if_splits)
next
  case (4 n s)
  then show ?case by (auto split: list.splits if_splits option.splits)
next
  case (6 n s)
  then show ?case by (auto split: list.splits if_splits option.splits)
qed simp_all

lemma parse_more:
  "parse_value n s = Some x \<Longrightarrow> n \<le> m \<Longrightarrow> parse_value m s = Some x"
  "parse_items n s = Some xs \<Longrightarrow> n \<le> m \<Longrightarrow> parse_items m s = Some xs"
  "parse_members n s = Some ps \<Longrightarrow> n \<le> m \<Longrightarrow> parse_members m s = Some ps"
  using parse_mono le_iff_add by metis+

section \<open>Round trip with \<open>dumps\<close>\<close>

text \<open>Values a round trip returns unchanged: no floats, no key twice in an object.\<close>

fun plain :: "json \<Rightarrow> bool" where
  "plain (JFloat _ _) = False"
| "plain (JList xs) = (\<forall>x \<in> set xs. plain x)"
| "plain (JObj d) = (dict_ok d \<and> (\<forall>p \<in> set d. plain (snd p)))"
| "plain _ = True"

lemma hex_value_digit: "n < 16 \<Longrightarrow> hex_value (hex_digit n) = Some n"
  by (auto simp: hex_value_def hex_digit_def)

lemma hex4_control:
  assumes "c < 32"
  shows "hex4 (48 # 48 # hex_digit (c div 16) # hex_digit (c mod 16) # r) = Some (c, r)"
proof -
  have "c div 16 < 16" "c mod 16 < 16" using assms by auto
  moreover have "hex_value 48 = Some 0" by (simp add: hex_value_def)
  ultimately show ?thesis by (simp add: hex4_def hex_value_digit)
qed

lemma escape_back:
  "str_body (Suc n) (json_escape c @ r) = map_option (\<lambda>(t, r2). (c # t, r2)) (str_body n r)"
  by (simp add: json_escape_def unescape_def hex4_control)

lemma str_body_escape:
  "length s < n \<Longrightarrow> str_body n (concat (map json_escape s) @ 34 # r) = Some (s, r)"
proof (induction s arbitrary: n)
  case Nil
  then show ?case by (cases n) auto
next
  case (Cons c s)
  then obtain m where m: "n = Suc m" "length s < m" by (cases n) auto
  show ?case
    using Cons.IH[OF m(2)] by (simp add: m(1) escape_back del: str_body.simps)
qed

lemma length_escape: "length s \<le> length (concat (map json_escape s))"
proof (induction s)
  case (Cons c s)
  have "1 \<le> length (json_escape c)" by (simp add: json_escape_def)
  with Cons show ?case by simp
qed simp

lemma parse_str_quote:
  "parse_str (concat (map json_escape s) @ 34 # r) = Some (s, r)"
  unfolding parse_str_def by (rule str_body_escape) (use length_escape[of s] in simp)

definition number_ends :: "pystr \<Rightarrow> bool" where
  "number_ends r \<longleftrightarrow> (\<forall>c t. r = c # t \<longrightarrow> \<not> is_digit c \<and> c \<noteq> 46 \<and> c \<noteq> 101 \<and> c \<noteq> 69)"

lemma nat_digits_hd: "0 < n \<Longrightarrow> hd (nat_digits n) \<noteq> 48"
proof (induction n rule: nat_digits.induct)
  case (1 n)
  then show ?case by (cases "n < 10") (auto simp: nat_digits.simps[of n])
qed

lemma takeWhile_digits:
  "number_ends r \<Longrightarrow> takeWhile is_digit (nat_digits n @ r) = nat_digits n \<and> dropWhile is_digit (nat_digits n @ r) = r"
proof -
  assume e: "number_ends r"
  have "takeWhile is_digit r = [] \<and> dropWhile is_digit r = r"
    using e by (cases r) (auto simp: number_ends_def)
  then show ?thesis
    using nat_digits_range by (simp add: takeWhile_append dropWhile_append)
qed

lemma nat_digits_0: "nat_digits 0 = [48]"
  by (simp add: nat_digits.simps)

lemma parse_num_int:
  assumes "number_ends r"
  shows "parse_num (int_str i @ r) = Some (JInt i, r)"
proof -
  let ?n = "nat \<bar>i\<bar>"
  obtain c ds where cd: "nat_digits ?n = c # ds" by (cases "nat_digits ?n") auto
  have c: "c \<noteq> 45" using nat_digits_range[of c ?n] by (auto simp: cd is_digit_def)
  have s: "num_sign (int_str i @ r) = (i < 0, nat_digits ?n @ r)"
    using c cd by (cases "i < 0") (simp_all add: int_str_def num_sign_def)
  have ip: "int_part (nat_digits ?n @ r) = (nat_digits ?n, r)"
  proof (cases "c = 48")
    case True
    then have "?n = 0" using nat_digits_hd[of ?n] cd by (cases "?n = 0") auto
    then show ?thesis by (simp add: nat_digits_0 int_part_def)
  next
    case False
    then show ?thesis
      using takeWhile_digits[OF assms, of ?n] by (simp add: cd int_part_def take_digits_def)
  qed
  have "frac_part r = ([], r)" "exp_part r = (None, r)"
    using assms by (cases r; auto simp: number_ends_def frac_part_def exp_part_def)+
  then show ?thesis
    by (simp add: parse_num_def s ip Let_def)
qed

lemma int_str_head: "\<exists>c t. int_str i = c # t \<and> (is_digit c \<or> c = 45)"
proof (cases "nat_digits (nat \<bar>i\<bar>)")
  case (Cons c t)
  then have "is_digit c" using nat_digits_range[of c "nat \<bar>i\<bar>"] by simp
  with Cons show ?thesis by (auto simp: int_str_def)
qed simp

lemma dumps_head: "plain j \<Longrightarrow> \<exists>c t. dumps False j = c # t \<and> \<not> is_ws c \<and> c \<noteq> 93 \<and> c \<noteq> 125"
proof (cases j)
  case (JInt i)
  then show ?thesis using int_str_head[of i] by (auto simp: is_ws_def is_digit_def)
qed (auto simp: lit_def is_ws_def json_quote_def)

lemma skip_dumps: "plain j \<Longrightarrow> skip_ws (dumps False j @ r) = dumps False j @ r"
  using dumps_head[of j] by (auto simp: skip_ws_def)

lemma skip_blank: "skip_ws (32 # s) = skip_ws s"
  by (simp add: skip_ws_def is_ws_def)

lemma skip_mark: "\<not> is_ws c \<Longrightarrow> skip_ws (c # s) = c # s"
  by (simp add: skip_ws_def)

lemma marks [simp]: "\<not> is_ws 93" "\<not> is_ws 125" "\<not> is_ws 44" "\<not> is_ws 58" "\<not> is_ws 34"
  by (simp_all add: is_ws_def)

lemma sep_codes: "lit '', '' = [44, 32]" "lit '': '' = [58, 32]" "lit ''['' = [91]" "lit '']'' = [93]"
  "lit ''{'' = [123]" "lit ''}'' = [125]"
  by (simp_all add: lit_def)

lemma number_ends_marks [simp]: "number_ends (93 # r)" "number_ends (125 # r)" "number_ends (44 # r)" "number_ends []"
  by (simp_all add: number_ends_def is_digit_def)

definition reads :: "json \<Rightarrow> bool" where
  "reads j \<longleftrightarrow> (\<forall>r. number_ends r \<longrightarrow> parse_value (2 * length (dumps False j)) (dumps False j @ r) = Some (j, r))"

lemma items_back:
  assumes "\<And>x. x \<in> set xs \<Longrightarrow> reads x \<and> plain x" and "xs \<noteq> []"
  shows "2 * length (join [44, 32] (map (dumps False) xs)) + 1 \<le> n \<Longrightarrow>
     parse_items n (join [44, 32] (map (dumps False) xs) @ 93 # r) = Some (xs, r)"
  using assms
proof (induction xs arbitrary: n)
  case (Cons x xs)
  obtain m where n: "n = Suc m" using Cons.prems(1) by (cases n) auto
  have x: "reads x" "plain x" using Cons.prems(2) by auto
  show ?case
  proof (cases xs)
    case Nil
    have "parse_value (2 * length (dumps False x)) (dumps False x @ 93 # r) = Some (x, 93 # r)"
      using x by (simp add: reads_def)
    then have "parse_value m (dumps False x @ 93 # r) = Some (x, 93 # r)"
      by (rule parse_more(1)) (use Cons.prems(1) in \<open>simp add: n Nil\<close>)
    then show ?thesis by (simp add: n Nil skip_mark)
  next
    case (Cons y ys)
    let ?t = "join [44, 32] (map (dumps False) xs) @ 93 # r"
    have j: "join [44, 32] (map (dumps False) (x # xs)) @ 93 # r = dumps False x @ 44 # 32 # ?t"
      by (simp add: Cons)
    have "parse_value (2 * length (dumps False x)) (dumps False x @ 44 # 32 # ?t) = Some (x, 44 # 32 # ?t)"
      using x by (simp add: reads_def)
    then have "parse_value m (dumps False x @ 44 # 32 # ?t) = Some (x, 44 # 32 # ?t)"
      by (rule parse_more(1)) (use Cons.prems(1) in \<open>simp add: n Cons\<close>)
    moreover have "skip_ws (32 # ?t) = ?t"
    proof -
      have "plain y" using Cons.prems(2) Cons by auto
      then show ?thesis
        using dumps_head[of y] by (cases ys) (auto simp: Cons skip_ws_def is_ws_def)
    qed
    moreover have "parse_items m ?t = Some (xs, r)"
      using Cons.prems \<open>xs = y # ys\<close> by (intro Cons.IH) (auto simp: n)
    ultimately show ?thesis unfolding j n by (simp add: skip_mark)
  qed
qed simp

abbreviation member :: "pystr \<times> json \<Rightarrow> pystr" where
  "member p \<equiv> json_quote (fst p) @ [58, 32] @ dumps False (snd p)"

lemma members_back:
  assumes "\<And>p. p \<in> set d \<Longrightarrow> reads (snd p) \<and> plain (snd p)" and "d \<noteq> []"
  shows "2 * length (join [44, 32] (map member d)) + 1 \<le> n \<Longrightarrow>
     parse_members n (join [44, 32] (map member d) @ 125 # r) = Some (d, r)"
  using assms
proof (induction d arbitrary: n)
  case (Cons p d)
  obtain k v where p: "p = (k, v)" by (cases p)
  obtain m where n: "n = Suc m" using Cons.prems(1) by (cases n) auto
  have v: "reads v" "plain v" using Cons.prems(2)[of p] by (auto simp: p)
  have key: "parse_str (concat (map json_escape k) @ 34 # 58 # 32 # dumps False v @ t)
      = Some (k, 58 # 32 # dumps False v @ t)" for t
    by (rule parse_str_quote)
  have len: "2 * length (dumps False v) \<le> m"
    using Cons.prems(1) by (cases d) (auto simp: n p json_quote_def)
  have val: "parse_value m (dumps False v @ t) = Some (v, t)" if "number_ends t" for t
    by (rule parse_more(1)[OF _ len]) (use v that in \<open>simp add: reads_def\<close>)
  have blank: "skip_ws (32 # dumps False v @ t) = dumps False v @ t" for t
    using v by (simp add: skip_blank skip_dumps)
  show ?case
  proof (cases d)
    case Nil
    then show ?thesis
      using key[of "125 # r"] val[of "125 # r"]
      by (simp add: n p json_quote_def skip_mark blank)
  next
    case (Cons q d')
    let ?t = "join [44, 32] (map member d) @ 125 # r"
    have j: "join [44, 32] (map member (p # d)) @ 125 # r
        = 34 # concat (map json_escape k) @ 34 # 58 # 32 # dumps False v @ 44 # 32 # ?t"
      by (simp add: Cons p json_quote_def)
    have "skip_ws (32 # ?t) = ?t"
      by (cases d') (simp_all add: Cons skip_ws_def is_ws_def json_quote_def)
    moreover have "parse_members m ?t = Some (d, r)"
      using Cons.prems \<open>d = q # d'\<close> by (intro Cons.IH) (auto simp: n)
    ultimately show ?thesis
      unfolding j n using key[of "44 # 32 # ?t"] val[of "44 # 32 # ?t"]
      by (simp add: skip_mark blank p)
  qed
qed simp

lemma fold_dset_new:
  "distinct (map fst (e @ d)) \<Longrightarrow> fold (\<lambda>(k, v) acc. dset acc k v) d e = e @ d"
proof (induction d arbitrary: e)
  case (Cons p d)
  obtain k v where p: "p = (k, v)" by (cases p)
  have "dset e k v = e @ [p]"
    using Cons.prems by (simp add: p dset_new dkeys_def)
  with Cons.IH[of "e @ [p]"] Cons.prems show ?case by (simp add: p)
qed simp

lemma dumps_reads: "plain j \<Longrightarrow> reads j"
proof (induction j)
  case JNull
  have "parse_value (Suc 0) (dumps False JNull @ r) = Some (JNull, r)" for r
    by (simp add: lit_def startswith_def)
  then show ?case using parse_more(1)[of "Suc 0"] by (simp add: reads_def)
next
  case (JBool b)
  have "parse_value (Suc 0) (dumps False (JBool b) @ r) = Some (JBool b, r)" for r
    by (cases b) (simp_all add: lit_def startswith_def)
  then show ?case using parse_more(1)[of "Suc 0"] by (simp add: reads_def)
next
  case (JInt i)
  obtain c t where ct: "int_str i = c # t" "is_digit c \<or> c = 45" using int_str_head by blast
  have l: "2 * length (int_str i) = Suc (2 * length t + 1)" by (simp add: ct)
  have "parse_value (2 * length (int_str i)) (int_str i @ r) = parse_num (int_str i @ r)" for r
    unfolding l using ct(2) by (simp add: ct(1) startswith_def lit_def) (auto simp: is_digit_def)
  then show ?case by (simp add: reads_def parse_num_int)
next
  case (JFloat m e)
  then show ?case by simp
next
  case (JStr s)
  then show ?case
    by (simp add: reads_def json_quote_def parse_str_quote)
next
  case (JList xs)
  then have xs: "\<And>x. x \<in> set xs \<Longrightarrow> reads x \<and> plain x" by simp
  show ?case
  proof (cases "xs = []")
    case True
    have "parse_value (Suc 0) (dumps False (JList []) @ r) = Some (JList [], r)" for r
      by (simp add: sep_codes skip_mark)
    then show ?thesis using parse_more(1)[of "Suc 0"] True by (simp add: reads_def)
  next
    case False
    let ?b = "join [44, 32] (map (dumps False) xs)"
    have d: "dumps False (JList xs) = 91 # ?b @ [93]" by (simp add: sep_codes)
    obtain c t where h: "?b = c # t" "\<not> is_ws c" "c \<noteq> 93"
    proof -
      obtain x ys where "xs = x # ys" using False by (cases xs) auto
      with xs[of x] dumps_head[of x] show ?thesis by (cases ys) (auto intro: that)
    qed
    have "parse_items (2 * length ?b + 1) (?b @ 93 # r) = Some (xs, r)" for r
      by (rule items_back[OF xs False]) simp_all
    then have it: "parse_items (Suc (2 * length ?b + 2)) (c # t @ 93 # r) = Some (xs, r)" for r
    proof -
      have "parse_items (Suc (2 * length ?b + 2)) (?b @ 93 # r) = Some (xs, r)"
        by (rule parse_more(2)[OF \<open>\<And>r. parse_items (2 * length ?b + 1) (?b @ 93 # r) = Some (xs, r)\<close>]) simp
      then show ?thesis unfolding h(1) append_Cons .
    qed
    have l: "2 * length (91 # ?b @ [93]) = Suc (Suc (2 * length ?b + 2))" by simp
    have "parse_value (2 * length (91 # ?b @ [93])) ((91 # ?b @ [93]) @ r) = Some (JList xs, r)" for r
      unfolding l using h it[of r] by (simp add: skip_mark del: parse_items.simps)
    then show ?thesis by (simp only: reads_def d) simp
  qed
next
  case (JObj d)
  then have d: "\<And>p. p \<in> set d \<Longrightarrow> reads (snd p) \<and> plain (snd p)" and ok: "dict_ok d"
    by (auto simp: snds.simps)
  show ?case
  proof (cases "d = []")
    case True
    have "parse_value (Suc 0) (dumps False (JObj []) @ r) = Some (JObj [], r)" for r
      by (simp add: sep_codes skip_mark)
    then show ?thesis using parse_more(1)[of "Suc 0"] True by (simp add: reads_def)
  next
    case False
    define b where "b = join [44, 32] (map member d)"
    have e: "dumps False (JObj d) = 123 # b @ [125]" by (simp add: sep_codes comp_def b_def)
    obtain t where h: "b = 34 # t"
      using False by (cases d; cases "tl d") (auto simp: json_quote_def b_def)
    have "parse_members (2 * length b + 1) (b @ 125 # r) = Some (d, r)" for r
      unfolding b_def by (rule members_back[OF d False]) simp_all
    then have it: "parse_members (Suc (2 * length b + 2)) (34 # t @ 125 # r) = Some (d, r)" for r
    proof -
      have "parse_members (Suc (2 * length b + 2)) (b @ 125 # r) = Some (d, r)"
        by (rule parse_more(3)[OF \<open>\<And>r. parse_members (2 * length b + 1) (b @ 125 # r) = Some (d, r)\<close>]) simp
      then show ?thesis unfolding h append_Cons .
    qed
    have l: "2 * length (123 # b @ [125]) = Suc (Suc (2 * length b + 2))" by simp
    have f: "fold (\<lambda>(k, v) acc. dset acc k v) d [] = d"
      using fold_dset_new[of "[]" d] ok by (simp add: dict_ok_def)
    have "parse_value (2 * length (123 # b @ [125])) ((123 # b @ [125]) @ r) = Some (JObj d, r)" for r
      unfolding l using h it[of r] f
      by (simp add: skip_mark del: parse_members.simps)
    then show ?thesis by (simp only: reads_def e) simp
  qed
qed

lemma loads_dumps:
  assumes "plain j"
  shows "loads (dumps False j) = Some j"
proof -
  have "parse_value (2 * length (dumps False j)) (dumps False j @ []) = Some (j, [])"
    using dumps_reads[OF assms] unfolding reads_def by (metis number_ends_marks(4))
  then have "parse_value (2 * length (dumps False j)) (dumps False j) = Some (j, [])" by simp
  then have "parse_value (2 * length (dumps False j) + 2) (dumps False j) = Some (j, [])"
    by (rule parse_more(1)) simp
  moreover have "skip_ws (dumps False j) = dumps False j"
    using skip_dumps[OF assms, of "[]"] by simp
  ultimately show ?thesis by (simp add: loads_def) (simp add: skip_ws_def)
qed

end
