(* ===== verification/Resource_Sync.thy ===== *)
theory Resource_Sync
  imports Resources
begin

text \<open>
  Feeding the item store from registered sources (\<open>sdk/wapsell/resources/adapters.py\<close>,
  \<open>sync.py\<close>, \<open>scheduler.py\<close>): the fetch adapters, the synchronizer, which dedups on the external
  identifier, and one pass of the background scheduler. The HTTP client, the HTML parser and
  SHA-256 are parameters. Fresh identifiers come from a supply \<open>nat \<Rightarrow> pystr\<close>; an operation
  reads the clock once.
\<close>

section \<open>Adapters\<close>

record http_response =
  hr_status :: nat
  hr_text :: pystr
  hr_json :: "pystr + json"

text \<open>\<open>client.get(url, headers=..., timeout=...)\<close>: a response or the text of an \<open>httpx.HTTPError\<close>.\<close>

type_synonym http_get = "pystr \<Rightarrow> json dict \<Rightarrow> pyfloat \<Rightarrow> pystr + http_response"

text \<open>BeautifulSoup: \<open>select\<close> on a document, \<open>select_one\<close>, \<open>get_text(strip=True)\<close>, \<open>get\<close> on a node.\<close>

record 'n soup =
  sp_select :: "pystr \<Rightarrow> pystr \<Rightarrow> 'n list res"
  sp_select_one :: "'n \<Rightarrow> pystr \<Rightarrow> 'n option res"
  sp_text :: "'n \<Rightarrow> pystr"
  sp_attr :: "'n \<Rightarrow> pystr \<Rightarrow> json option"

definition str_config :: "json dict \<Rightarrow> string \<Rightarrow> pystr option" where
  "str_config cfg k =
     (case jget cfg k of JStr s \<Rightarrow> if strip s = [] then None else Some s | _ \<Rightarrow> None)"

text \<open>
  \<open>dict(config.get("headers") or {})\<close>: a mapping, or a list whose elements iterate to a key and a
  value (a two-element list, string or mapping); \<open>dict\<close> raises on anything else.
\<close>

definition pair_of :: "json \<Rightarrow> (pystr \<times> json) option" where
  "pair_of j =
     (case j of
        JList [JStr k, v] \<Rightarrow> Some (k, v)
      | JStr [a, b] \<Rightarrow> Some ([a], JStr [b])
      | JObj [(a, _), (b, _)] \<Rightarrow> Some (a, JStr b)
      | _ \<Rightarrow> None)"

definition headers_of :: "json \<Rightarrow> json dict res" where
  "headers_of j =
     (if \<not> truthy j then Inr []
      else (case j of
              JObj d \<Rightarrow> Inr d
            | JStr _ \<Rightarrow> Inl (ValueError (lit ''dictionary update sequence''))
            | JList xs \<Rightarrow>
                (if list_all (\<lambda>x. pair_of x \<noteq> None) xs
                 then Inr (fold (\<lambda>(k, v) d. dset d k v) (List.map_filter pair_of xs) [])
                 else Inl (TypeError (lit ''cannot convert dictionary update sequence'')))
            | _ \<Rightarrow> Inl (TypeError (str_repr (type_name j) @ (lit '' object is not iterable'')))))"

definition setdefault :: "json dict \<Rightarrow> pystr \<Rightarrow> json \<Rightarrow> json dict" where
  "setdefault d k v = (if dget d k = None then dset d k v else d)"

definition user_agent :: pystr where
  "user_agent = (lit ''Mozilla/5.0 (compatible; WapsellBot/0.15; +https://wapsell.com)'')"

definition timeout_of :: "json dict \<Rightarrow> pyfloat res" where
  "timeout_of cfg = float_of_json (dget_or cfg (lit ''timeout'') (JInt 15))"

text \<open>The exchange both fetching adapters make: the response, once its status is below 400.\<close>

definition http_fetch ::
  "http_get \<Rightarrow> pystr \<Rightarrow> json dict \<Rightarrow> pyfloat \<Rightarrow> http_response res" where
  "http_fetch http url headers timeout =
     (case http url headers timeout of
        Inl exc \<Rightarrow> Inl (AdapterError ((lit ''http error fetching '') @ url @ (lit '': '') @ exc))
      | Inr r \<Rightarrow>
          if hr_status r \<ge> 400
          then Inl (AdapterError (url @ (lit '' returned HTTP '') @ nat_digits (hr_status r)))
          else Inr r)"

fun walk_path :: "pystr \<Rightarrow> json \<Rightarrow> pystr list \<Rightarrow> json res" where
  "walk_path path items [] = Inr items"
| "walk_path path items (chunk # chunks) =
     (case items of
        JObj d \<Rightarrow>
          (case dget_or d chunk JNull of
             JNull \<Rightarrow> Inl (AdapterError ((lit ''items_path '') @ str_repr path @ (lit '': missing key '') @ str_repr chunk))
           | v \<Rightarrow> walk_path path v chunks)
      | _ \<Rightarrow> Inl (AdapterError ((lit ''items_path '') @ str_repr path @ (lit '' fell off the JSON shape''))))"

definition wrap_item :: "json \<Rightarrow> json dict" where
  "wrap_item item = (case item of JObj d \<Rightarrow> d | v \<Rightarrow> [((lit ''value''), v)])"

definition json_items :: "json dict \<Rightarrow> json \<Rightarrow> json dict list res" where
  "json_items cfg payload =
     (case (case str_config cfg ''items_path'' of
              None \<Rightarrow> Inr payload
            | Some path \<Rightarrow> walk_path path payload (split_on 46 path)) of
        Inl e \<Rightarrow> Inl e
      | Inr items \<Rightarrow>
          (case items of
             JList xs \<Rightarrow> Inr (map wrap_item xs)
           | v \<Rightarrow> Inl (AdapterError ((lit ''JsonApiDataSource expected a list at the items_path; got '') @ type_name v))))"

definition fetch_json :: "http_get \<Rightarrow> data_source \<Rightarrow> json dict list res" where
  "fetch_json http source =
     (let cfg = ds_config source
      in case str_config cfg ''url'' of
           None \<Rightarrow> Inl (AdapterError (lit ''JsonApiDataSource requires config.url''))
         | Some url \<Rightarrow>
             (case headers_of (jget cfg ''headers'') of
                Inl e \<Rightarrow> Inl e
              | Inr h \<Rightarrow>
                  (let headers = setdefault (setdefault h (lit ''User-Agent'') (JStr user_agent))
                                   (lit ''Accept'') (JStr (lit ''application/json''))
                   in case timeout_of cfg of
                        Inl e \<Rightarrow> Inl e
                      | Inr timeout \<Rightarrow>
                          (case http_fetch http url headers timeout of
                             Inl e \<Rightarrow> Inl e
                           | Inr r \<Rightarrow>
                               (case hr_json r of
                                  Inl exc \<Rightarrow> Inl (AdapterError (url @ (lit '' did not return JSON: '') @ exc))
                                | Inr payload \<Rightarrow> json_items cfg payload)))))"

text \<open>\<open>_split_attr\<close>: the part before the last \<open>@\<close> and the attribute after it.\<close>

definition split_attr :: "pystr \<Rightarrow> pystr \<times> pystr option" where
  "split_attr raw =
     (if 64 \<in> set raw then
        (let after = rev (takeWhile (\<lambda>c. c \<noteq> 64) (rev raw));
             before = take (length raw - length after - 1) raw;
             attr = strip after
         in (strip before, if attr = [] then None else Some attr))
      else (raw, None))"

fun scrape_row :: "'n soup \<Rightarrow> 'n \<Rightarrow> json dict \<Rightarrow> json dict \<Rightarrow> json dict res" where
  "scrape_row sp node [] row = Inr row"
| "scrape_row sp node ((field_name, raw_selector) # fs) row =
     (case raw_selector of
        JStr raw \<Rightarrow>
          (case split_attr raw of (sel, attr) \<Rightarrow>
             (case (if sel \<noteq> [] then sp_select_one sp node sel else Inr (Some node)) of
                Inl e \<Rightarrow> Inl e
              | Inr None \<Rightarrow> scrape_row sp node fs row
              | Inr (Some m) \<Rightarrow>
                  (case attr of
                     None \<Rightarrow> scrape_row sp node fs (dset row field_name (JStr (sp_text sp m)))
                   | Some a \<Rightarrow>
                       (case sp_attr sp m a of
                          None \<Rightarrow> scrape_row sp node fs row
                        | Some v \<Rightarrow> scrape_row sp node fs (dset row field_name v)))))
      | v \<Rightarrow> Inl (TypeError ((lit ''argument of type '') @ str_repr (type_name v) @ (lit '' is not iterable''))))"

fun scrape_nodes :: "'n soup \<Rightarrow> json dict \<Rightarrow> 'n list \<Rightarrow> json dict list res" where
  "scrape_nodes sp flds [] = Inr []"
| "scrape_nodes sp flds (node # nodes) =
     (case scrape_row sp node flds [] of
        Inl e \<Rightarrow> Inl e
      | Inr row \<Rightarrow>
          (case scrape_nodes sp flds nodes of
             Inl e \<Rightarrow> Inl e
           | Inr rows \<Rightarrow> Inr (if row = [] then rows else row # rows)))"

definition extract_items :: "'n soup \<Rightarrow> pystr \<Rightarrow> pystr \<Rightarrow> json dict \<Rightarrow> json dict list res" where
  "extract_items sp html item_selector flds =
     (case sp_select sp html item_selector of
        Inl e \<Rightarrow> Inl e
      | Inr nodes \<Rightarrow> scrape_nodes sp flds nodes)"

definition fetch_html :: "http_get \<Rightarrow> 'n soup \<Rightarrow> data_source \<Rightarrow> json dict list res" where
  "fetch_html http sp source =
     (let cfg = ds_config source; f = jget cfg ''fields''
      in case str_config cfg ''url'' of
           None \<Rightarrow> Inl (AdapterError (lit ''HtmlScraperDataSource requires config.url''))
         | Some url \<Rightarrow>
             (case str_config cfg ''item_selector'' of
                None \<Rightarrow> Inl (AdapterError (lit ''HtmlScraperDataSource requires config.item_selector''))
              | Some item_selector \<Rightarrow>
                  (case (if truthy f then as_obj f else Some []) of
                     None \<Rightarrow> Inl (AdapterError (lit ''HtmlScraperDataSource config.fields must be a dict''))
                   | Some flds \<Rightarrow>
                       (case headers_of (jget cfg ''headers'') of
                          Inl e \<Rightarrow> Inl e
                        | Inr h \<Rightarrow>
                            (case timeout_of cfg of
                               Inl e \<Rightarrow> Inl e
                             | Inr timeout \<Rightarrow>
                                 (case http_fetch http url (setdefault h (lit ''User-Agent'') (JStr user_agent)) timeout of
                                    Inl e \<Rightarrow> Inl e
                                  | Inr r \<Rightarrow> extract_items sp (hr_text r) item_selector flds))))))"

text \<open>\<open>build_adapter(kind).fetch(source)\<close>: manual, CSV and webhook sources fetch nothing.\<close>

definition fetch :: "http_get \<Rightarrow> 'n soup \<Rightarrow> data_source \<Rightarrow> json dict list res" where
  "fetch http sp source =
     (case ds_kind source of
        HTML \<Rightarrow> fetch_html http sp source
      | JSON_API \<Rightarrow> fetch_json http source
      | WEBHOOK \<Rightarrow> Inr []
      | MANUAL \<Rightarrow> Inr []
      | CSV \<Rightarrow> Inr [])"

section \<open>The synchronizer\<close>

fun explicit_id :: "json dict \<Rightarrow> pystr list \<Rightarrow> pystr option" where
  "explicit_id row [] = None"
| "explicit_id row (k # ks) =
     (let v = dget_or row k JNull
      in if (case v of JStr _ \<Rightarrow> True | JInt _ \<Rightarrow> True | JBool _ \<Rightarrow> True | _ \<Rightarrow> False) \<and> strip (py_str v) \<noteq> []
         then Some (py_str v) else explicit_id row ks)"

definition extract_external_id :: "(pystr \<Rightarrow> pystr) \<Rightarrow> json dict \<Rightarrow> pystr" where
  "extract_external_id sha row =
     (case explicit_id row [(lit ''external_id''), (lit ''id''), (lit ''code''), (lit ''sku''), (lit ''slug'')] of
        Some i \<Rightarrow> i
      | None \<Rightarrow> take 32 (sha (dumps True (JObj row))))"

fun first_text :: "json dict \<Rightarrow> pystr list \<Rightarrow> pystr option" where
  "first_text row [] = None"
| "first_text row (k # ks) =
     (case dget_or row k JNull of
        JStr s \<Rightarrow> if strip s \<noteq> [] then Some (strip s) else first_text row ks
      | _ \<Rightarrow> first_text row ks)"

definition derive_summary :: "json dict \<Rightarrow> pystr" where
  "derive_summary row =
     take 240 (case first_text row [(lit ''title''), (lit ''name''), (lit ''label''), (lit ''description'')] of
                 Some t \<Rightarrow> t
               | None \<Rightarrow> dumps False (JObj row))"

record sync_report =
  sr_source_id :: pystr
  sr_ok :: bool
  sr_item_count :: int
  sr_error :: "pystr option"

definition sync_resource ::
  "(pystr \<Rightarrow> pystr) \<Rightarrow> data_source \<Rightarrow> pystr \<Rightarrow> time \<Rightarrow> pystr \<Rightarrow> json dict \<Rightarrow> resource" where
  "sync_resource sha source kind now uid raw =
     \<lparr>re_id = uid, re_tenant_id = ds_tenant_id source, re_source_id = Some (ds_id source), re_kind = kind,
      re_external_id = Some (extract_external_id sha raw), re_data = raw,
      re_summary = derive_summary raw, re_status = (lit ''active''), re_created_at = now, re_updated_at = now\<rparr>"

definition store_raws ::
  "(pystr \<Rightarrow> pystr) \<Rightarrow> data_source \<Rightarrow> pystr \<Rightarrow> time \<Rightarrow> (nat \<Rightarrow> pystr) \<Rightarrow> resource_store \<Rightarrow> json dict list
     \<Rightarrow> resource_store" where
  "store_raws sha source kind now uids d raws =
     foldl (\<lambda>d (n, raw). upsert d (sync_resource sha source kind now (uids n) raw)) d (enumerate 0 raws)"

text \<open>
  \<open>ResourceSynchronizer.sync\<close>. An \<open>AdapterError\<close> is recorded on the source; any other exception
  of the fetch propagates and leaves both stores as they were. A configured \<open>resource_kind\<close>
  that is not a string fails the validation of the first item.
\<close>

definition kind_of_config :: "json dict \<Rightarrow> pystr res" where
  "kind_of_config cfg =
     (case dget_or cfg (lit ''resource_kind'') (JStr (lit ''item'')) of
        JStr k \<Rightarrow> Inr k
      | _ \<Rightarrow> Inl (ValueError (lit ''1 validation error for Resource'')))"

definition sync ::
  "http_get \<Rightarrow> 'n soup \<Rightarrow> (pystr \<Rightarrow> pystr) \<Rightarrow> (nat \<Rightarrow> pystr) \<Rightarrow> time \<Rightarrow> resource_store \<Rightarrow> source_store \<Rightarrow> pystr
     \<Rightarrow> resource_store \<times> source_store \<times> sync_report res" where
  "sync http sp sha uids now d ss source_id =
     (case src_get ss source_id of
        None \<Rightarrow> (d, ss, Inl (KeyError ((lit ''unknown source: '') @ source_id)))
      | Some source \<Rightarrow>
          (let finish = (\<lambda>d' ok n err.
                 (case src_update ss (source\<lparr>ds_last_synced_at := Some now, ds_last_sync_ok := Some ok,
                         ds_last_sync_count := Some n, ds_last_sync_error := err\<rparr>) of
                    Inl e \<Rightarrow> (d', ss, Inl e)
                  | Inr ss' \<Rightarrow> (d', ss', Inr \<lparr>sr_source_id = ds_id source, sr_ok = ok, sr_item_count = n,
                                              sr_error = err\<rparr>)))
           in case fetch http sp source of
                Inl (AdapterError m) \<Rightarrow> finish d False 0 (Some (take 500 m))
              | Inl e \<Rightarrow> (d, ss, Inl e)
              | Inr raws \<Rightarrow>
                  (if raws = [] then finish d True 0 None
                   else (case kind_of_config (ds_config source) of
                           Inl e \<Rightarrow> (d, ss, Inl e)
                         | Inr kind \<Rightarrow>
                             finish (store_raws sha source kind now uids d raws) True (int (length raws)) None))))"

section \<open>The scheduler\<close>

definition default_sync_interval :: int where
  "default_sync_interval = 86400"

definition is_due :: "int \<Rightarrow> data_source \<Rightarrow> time \<Rightarrow> bool" where
  "is_due default_interval source now =
     (case ds_last_synced_at source of
        None \<Rightarrow> True
      | Some t \<Rightarrow>
          (let interval = dget_or (ds_config source) (lit ''sync_interval_seconds'') (JInt default_interval);
               interval_s = (case float_of_json interval of Inr f \<Rightarrow> f | Inl _ \<Rightarrow> Fin (of_int default_interval))
           in float_le interval_s (Fin (of_int (now - t) / of_int second))))"

text \<open>
  One pass: \<open>run d ss id n\<close> is the synchronizer's call for the \<open>n\<close>-th source of the listing. The
  result carries, per attempted source, the report or the exception that was logged.
\<close>

fun tick_sources ::
  "(resource_store \<Rightarrow> source_store \<Rightarrow> pystr \<Rightarrow> nat \<Rightarrow> resource_store \<times> source_store \<times> sync_report res)
     \<Rightarrow> int \<Rightarrow> time \<Rightarrow> nat \<Rightarrow> data_source list \<Rightarrow> resource_store \<Rightarrow> source_store
     \<Rightarrow> resource_store \<times> source_store \<times> nat \<times> (pystr \<times> sync_report res) list" where
  "tick_sources run dflt now n [] d ss = (d, ss, 0, [])"
| "tick_sources run dflt now n (source # rest) d ss =
     (if \<not> is_due dflt source now then tick_sources run dflt now (Suc n) rest d ss
      else (case run d ss (ds_id source) n of (d', ss', outcome) \<Rightarrow>
        (case tick_sources run dflt now (Suc n) rest d' ss' of (d2, ss2, synced, outs) \<Rightarrow>
           (d2, ss2, (case outcome of Inr _ \<Rightarrow> Suc synced | Inl _ \<Rightarrow> synced),
            (ds_id source, outcome) # outs))))"

definition tick_once ::
  "(resource_store \<Rightarrow> source_store \<Rightarrow> pystr \<Rightarrow> nat \<Rightarrow> resource_store \<times> source_store \<times> sync_report res)
     \<Rightarrow> int \<Rightarrow> time \<Rightarrow> resource_store \<Rightarrow> source_store
     \<Rightarrow> resource_store \<times> source_store \<times> nat \<times> (pystr \<times> sync_report res) list" where
  "tick_once run dflt now d ss = tick_sources run dflt now 0 (src_list_all_active ss) d ss"

section \<open>Fetching\<close>

text \<open>
  The failures of a fetch. Everything the upstream does wrong is an \<open>AdapterError\<close>; the one way
  around it is a configuration whose \<open>headers\<close> or \<open>timeout\<close> Python cannot convert.
\<close>

definition adapter_outcome :: "'a res \<Rightarrow> bool" where
  "adapter_outcome r \<longleftrightarrow> (\<forall>e. r = Inl e \<longrightarrow> (\<exists>m. e = AdapterError m))"

lemma adapter_outcome_simps [simp]:
  "adapter_outcome (Inr x)" "adapter_outcome (Inl (AdapterError m))"
  by (simp_all add: adapter_outcome_def)

lemma adapter_outcome_case:
  "adapter_outcome r \<Longrightarrow> (\<And>x. r = Inr x \<Longrightarrow> adapter_outcome (f x)) \<Longrightarrow>
     adapter_outcome (case r of Inl e \<Rightarrow> Inl e | Inr x \<Rightarrow> f x)"
  by (cases r) (auto simp: adapter_outcome_def)

lemma walk_path_outcome: "adapter_outcome (walk_path p j chunks)"
  by (induction p j chunks rule: walk_path.induct) (auto split: json.splits)

lemma json_items_outcome: "adapter_outcome (json_items c j)"
  unfolding json_items_def
  by (rule adapter_outcome_case) (auto simp: walk_path_outcome split: option.splits json.splits)

lemma http_fetch_outcome: "adapter_outcome (http_fetch http url h t)"
  by (simp add: http_fetch_def split: sum.splits)

lemma http_fetch_Inl: "http_fetch http url h t = Inl e \<Longrightarrow> \<exists>m. e = AdapterError m"
  using http_fetch_outcome[of http url h t] by (simp add: adapter_outcome_def)

lemma fetch_json_outcome:
  assumes "headers_of (jget (ds_config s) ''headers'') = Inr h" and "timeout_of (ds_config s) = Inr t"
  shows "adapter_outcome (fetch_json http s)"
  using assms unfolding fetch_json_def Let_def
  by (auto split: option.split intro!: adapter_outcome_case
      simp: json_items_outcome split: sum.split dest: http_fetch_Inl)

lemma fetch_json_items:
  assumes "fetch_json http s = Inr rows"
  shows "\<exists>url headers timeout r. str_config (ds_config s) ''url'' = Some url
    \<and> http url headers timeout = Inr r \<and> hr_status r < 400 \<and> (\<exists>j. hr_json r = Inr j
    \<and> json_items (ds_config s) j = Inr rows)
    \<and> dget headers (lit ''Accept'') \<noteq> None \<and> dget headers (lit ''User-Agent'') \<noteq> None"
proof -
  have set: "dget (setdefault d k v) k \<noteq> None" "dget d k' \<noteq> None \<Longrightarrow> dget (setdefault d k v) k' \<noteq> None" for d k k' v
    by (auto simp: setdefault_def)
  have hd: "dget (setdefault (setdefault h a v) b w) a \<noteq> None" "dget (setdefault (setdefault h a v) b w) b \<noteq> None"
    for h a b v w using set by blast+
  show ?thesis
    using assms hd
    by (auto simp: fetch_json_def http_fetch_def Let_def not_le split: option.splits sum.splits if_splits) blast
qed

text \<open>Walking a dotted path is reading nested objects, the keys written with dots between them.\<close>

fun nested :: "pystr list \<Rightarrow> json \<Rightarrow> json" where
  "nested [] v = v"
| "nested (k # ks) v = JObj [(k, nested ks v)]"

lemma walk_nested:
  "v \<noteq> JNull \<Longrightarrow> walk_path p (nested ks v) ks = Inr v"
proof (induction ks)
  case (Cons k ks)
  have "nested ks v \<noteq> JNull" using Cons.prems by (cases ks) auto
  with Cons show ?case by (cases "nested ks v") (auto simp: dget_or_def)
qed simp

section \<open>Storing a batch\<close>

lemma sync_resource_sel [simp]:
  "re_id (sync_resource sha s k now u raw) = u"
  "re_external_id (sync_resource sha s k now u raw) = Some (extract_external_id sha raw)"
  "re_source_id (sync_resource sha s k now u raw) = Some (ds_id s)"
  "re_tenant_id (sync_resource sha s k now u raw) = ds_tenant_id s"
  "re_data (sync_resource sha s k now u raw) = raw"
  by (simp_all add: sync_resource_def)

lemma clash_sync:
  "clash x (sync_resource sha s k now u raw) \<longleftrightarrow>
     re_tenant_id x = ds_tenant_id s \<and> re_source_id x = Some (ds_id s)
     \<and> re_external_id x = Some (extract_external_id sha raw)"
  by (simp add: clash_def dedup_key_def)

definition fresh_ids :: "(nat \<Rightarrow> pystr) \<Rightarrow> 'a dict \<Rightarrow> bool" where
  "fresh_ids uids d \<longleftrightarrow> inj uids \<and> (\<forall>n. dget d (uids n) = None)"

lemma store_raws_snoc:
  "store_raws sha s k now uids d (raws @ [raw]) =
     upsert (store_raws sha s k now uids d raws) (sync_resource sha s k now (uids (length raws)) raw)"
  by (simp add: store_raws_def enumerate_append_eq)

text \<open>
  After a batch the items of the source are the last row of each external identifier; an item
  outside the batch's identifiers is untouched.
\<close>

definition last_of :: "(pystr \<Rightarrow> pystr) \<Rightarrow> json dict list \<Rightarrow> nat \<Rightarrow> bool" where
  "last_of sha raws i \<longleftrightarrow> i < length raws \<and>
     (\<forall>j < length raws. i < j \<longrightarrow> extract_external_id sha (raws ! j) \<noteq> extract_external_id sha (raws ! i))"

lemma last_of_snoc:
  "last_of sha (raws @ [raw]) i \<longleftrightarrow> i = length raws \<or>
     (last_of sha raws i \<and> extract_external_id sha (raws ! i) \<noteq> extract_external_id sha raw)"
  by (auto simp: last_of_def nth_append less_Suc_eq)

lemma store_raws_items:
  fixes sha :: "pystr \<Rightarrow> pystr" and s :: data_source and k :: pystr and now :: time
  assumes ok: "store_ok re_id d" and fresh: "fresh_ids uids d"
  defines "mk \<equiv> \<lambda>raws i. sync_resource sha s k now (uids i) (raws ! i)"
  shows "store_ok re_id (store_raws sha s k now uids d raws) \<and>
    (\<forall>x. x \<in> set (dvalues (store_raws sha s k now uids d raws)) \<longleftrightarrow>
      (x \<in> set (dvalues d) \<and> (\<forall>raw \<in> set raws. \<not> clash x (sync_resource sha s k now [] raw)))
      \<or> (\<exists>i. last_of sha raws i \<and> x = mk raws i))"
proof (induction raws rule: rev_induct)
  case Nil
  with ok show ?case by (simp add: store_raws_def last_of_def)
next
  case (snoc raw raws)
  let ?d = "store_raws sha s k now uids d raws" and ?r = "sync_resource sha s k now (uids (length raws)) raw"
  have cl: "clash x (sync_resource sha s k now u r) \<longleftrightarrow> clash x (sync_resource sha s k now [] r)" for x u r
    by (simp add: clash_sync)
  have mk: "mk (raws @ [raw]) i = (if i < length raws then mk raws i else ?r)" if "i \<le> length raws" for i
    using that by (simp add: mk_def nth_append)
  have nid: "re_id x \<noteq> uids (length raws)" if "x \<in> set (dvalues d)" for x
    using that fresh store_lookup[OF ok, of "re_id x" x] by (auto simp: fresh_ids_def)
  have mid: "re_id (mk raws i) \<noteq> uids (length raws)" if "last_of sha raws i" for i
    using that fresh by (auto simp: fresh_ids_def mk_def last_of_def dest: injD)
  have mcl: "clash (mk raws i) ?r \<longleftrightarrow> extract_external_id sha (raws ! i) = extract_external_id sha raw" for i
    by (simp add: clash_sync mk_def)
  have "x \<in> set (dvalues (upsert ?d ?r)) \<longleftrightarrow>
      (x \<in> set (dvalues d) \<and> (\<forall>raw \<in> set (raws @ [raw]). \<not> clash x (sync_resource sha s k now [] raw)))
      \<or> (\<exists>i. last_of sha (raws @ [raw]) i \<and> x = mk (raws @ [raw]) i)" for x
  proof -
    have "x \<in> set (dvalues (upsert ?d ?r)) \<longleftrightarrow>
        x = ?r \<or> (x \<in> set (dvalues ?d) \<and> re_id x \<noteq> uids (length raws) \<and> \<not> clash x ?r)"
      using resources.put_items[of ?d x ?r] snoc.IH by simp
    also have "\<dots> \<longleftrightarrow> x = ?r \<or>
        (x \<in> set (dvalues d) \<and> (\<forall>raw \<in> set raws. \<not> clash x (sync_resource sha s k now [] raw)) \<and> \<not> clash x ?r)
        \<or> (\<exists>i. last_of sha raws i \<and> x = mk raws i \<and> extract_external_id sha (raws ! i) \<noteq> extract_external_id sha raw)"
      using snoc.IH nid mid mcl by blast
    also have "(\<exists>i. last_of sha raws i \<and> x = mk raws i \<and> extract_external_id sha (raws ! i) \<noteq> extract_external_id sha raw)
        \<longleftrightarrow> (\<exists>i < length raws. last_of sha (raws @ [raw]) i \<and> x = mk (raws @ [raw]) i)"
      using mk by (auto simp: last_of_snoc) (auto simp: last_of_def)
    also have "x = ?r \<or> (x \<in> set (dvalues d) \<and> (\<forall>raw \<in> set raws. \<not> clash x (sync_resource sha s k now [] raw)) \<and> \<not> clash x ?r)
        \<or> (\<exists>i < length raws. last_of sha (raws @ [raw]) i \<and> x = mk (raws @ [raw]) i) \<longleftrightarrow>
      (x \<in> set (dvalues d) \<and> (\<forall>raw \<in> set (raws @ [raw]). \<not> clash x (sync_resource sha s k now [] raw)))
      \<or> (\<exists>i. last_of sha (raws @ [raw]) i \<and> x = mk (raws @ [raw]) i)"
    proof -
      have "(\<exists>i. last_of sha (raws @ [raw]) i \<and> x = mk (raws @ [raw]) i) \<longleftrightarrow>
          x = ?r \<or> (\<exists>i < length raws. last_of sha (raws @ [raw]) i \<and> x = mk (raws @ [raw]) i)"
        using mk[of "length raws"] by (auto simp: last_of_snoc) (auto simp: last_of_def)
      then show ?thesis using cl[of x "uids (length raws)" raw] by auto
    qed
    finally show ?thesis .
  qed
  then show ?case
    using snoc.IH resources.put_ok2 by (simp add: store_raws_snoc)
qed

lemma store_raws_Nil [simp]: "store_raws sha s k now uids d [] = d"
  by (simp add: store_raws_def)

lemma store_raws_dedup:
  assumes "store_ok re_id d" and "fresh_ids uids d" and "dedup_ok (set (dvalues d))"
  shows "dedup_ok (set (dvalues (store_raws sha s k now uids d raws)))"
proof (induction raws rule: rev_induct)
  case (snoc raw raws)
  then show ?case
    using store_raws_items[OF assms(1,2), of sha s k now raws]
    by (simp add: store_raws_snoc resources.put_dedup)
qed (simp add: assms(3))

lemma last_of_exists:
  "raw \<in> set raws \<Longrightarrow> \<exists>i. last_of sha raws i \<and> extract_external_id sha (raws ! i) = extract_external_id sha raw"
proof (induction raws rule: rev_induct)
  case (snoc r rs)
  show ?case
  proof (cases "extract_external_id sha raw = extract_external_id sha r")
    case True
    then show ?thesis by (intro exI[of _ "length rs"]) (simp add: last_of_snoc)
  next
    case False
    with snoc obtain i where "last_of sha rs i" "extract_external_id sha (rs ! i) = extract_external_id sha raw"
      by auto
    with False show ?thesis
      by (intro exI[of _ i]) (auto simp: last_of_snoc nth_append last_of_def)
  qed
qed simp

text \<open>What the tenant sees of a source: identifier and content of its items.\<close>

definition source_view :: "data_source \<Rightarrow> resource_store \<Rightarrow> (pystr option \<times> json dict) set" where
  "source_view s d = {(re_external_id x, re_data x) | x. x \<in> set (dvalues d)
     \<and> re_tenant_id x = ds_tenant_id s \<and> re_source_id x = Some (ds_id s)}"

definition batch_view :: "(pystr \<Rightarrow> pystr) \<Rightarrow> json dict list \<Rightarrow> (pystr option \<times> json dict) set" where
  "batch_view sha raws = {(Some (extract_external_id sha (raws ! i)), raws ! i) | i. last_of sha raws i}"

lemma store_raws_view:
  assumes "store_ok re_id d" and "fresh_ids uids d"
  shows "source_view s (store_raws sha s k now uids d raws) =
    {p \<in> source_view s d. \<forall>raw \<in> set raws. fst p \<noteq> Some (extract_external_id sha raw)} \<union> batch_view sha raws"
proof -
  note items = store_raws_items[OF assms, of sha s k now raws, THEN conjunct2, rule_format]
  show ?thesis
    unfolding source_view_def batch_view_def items
    by (auto simp: clash_sync) (metis sync_resource_sel)+
qed

lemma resync_view:
  assumes "store_ok re_id d" and "fresh_ids uids d"
    and "fresh_ids uids' (store_raws sha s k now uids d raws)"
  shows "source_view s (store_raws sha s k now' uids' (store_raws sha s k now uids d raws) raws)
    = source_view s (store_raws sha s k now uids d raws)"
proof -
  let ?d = "store_raws sha s k now uids d raws" and ?ids = "{Some (extract_external_id sha raw) | raw. raw \<in> set raws}"
  have ok: "store_ok re_id ?d" using store_raws_items[OF assms(1,2), of sha s k now raws] by blast
  have "fst p \<in> ?ids" if "p \<in> batch_view sha raws" for p
    using that nth_mem by (fastforce simp: batch_view_def last_of_def)
  then show ?thesis
    using store_raws_view[OF ok assms(3), of s sha k now' raws] store_raws_view[OF assms(1,2), of s sha k now raws]
    by auto
qed

section \<open>One synchronisation\<close>

lemma sync_success:
  assumes "src_get ss i = Some source" and "ds_id source = i" and "fetch http sp source = Inr raws"
    and "kind_of_config (ds_config source) = Inr kind"
  shows "sync http sp sha uids now d ss i =
    (store_raws sha source kind now uids d raws,
     dset ss i (source\<lparr>ds_last_synced_at := Some now, ds_last_sync_ok := Some True,
         ds_last_sync_count := Some (int (length raws)), ds_last_sync_error := None\<rparr>),
     Inr \<lparr>sr_source_id = i, sr_ok = True, sr_item_count = int (length raws), sr_error = None\<rparr>)"
  using assms by (auto simp: sync_def src_update_def src_get_def Let_def)

lemma sync_adapter_error:
  assumes "src_get ss i = Some source" and "ds_id source = i" and "fetch http sp source = Inl (AdapterError m)"
  shows "sync http sp sha uids now d ss i =
    (d, dset ss i (source\<lparr>ds_last_synced_at := Some now, ds_last_sync_ok := Some False,
         ds_last_sync_count := Some 0, ds_last_sync_error := Some (take 500 m)\<rparr>),
     Inr \<lparr>sr_source_id = i, sr_ok = False, sr_item_count = 0, sr_error = Some (take 500 m)\<rparr>)"
  using assms by (simp add: sync_def src_update_def src_get_def Let_def)

lemma fetch_error_cases:
  "fetch http sp source = Inl e \<Longrightarrow> (\<And>m. e \<noteq> AdapterError m) \<Longrightarrow> src_get ss i = Some source \<Longrightarrow>
     sync http sp sha uids now d ss i = (d, ss, Inl e)"
  by (cases e) (auto simp: sync_def Let_def)

lemma sync_raises_unchanged:
  assumes "store_ok ds_id ss" and "sync http sp sha uids now d ss i = (d', ss', Inl e)"
  shows "d' = d \<and> ss' = ss"
proof (cases "src_get ss i")
  case None
  with assms(2) show ?thesis by (simp add: sync_def)
next
  case (Some source)
  then have i: "ds_id source = i" using sources_by_id.get_ident[OF assms(1)] by blast
  show ?thesis
  proof (cases "fetch http sp source")
    case (Inl x)
    show ?thesis
    proof (cases "\<exists>m. x = AdapterError m")
      case True
      then obtain m where "fetch http sp source = Inl (AdapterError m)" using Inl by auto
      from sync_adapter_error[OF Some i this, of sha uids now d] assms(2) show ?thesis by simp
    next
      case False
      then have "sync http sp sha uids now d ss i = (d, ss, Inl x)"
        using fetch_error_cases[OF Inl _ Some] by blast
      with assms(2) show ?thesis by simp
    qed
  next
    case (Inr raws)
    show ?thesis
    proof (cases "kind_of_config (ds_config source)")
      case (Inl x)
      with Inr Some i assms(2) show ?thesis
        by (auto simp: sync_def Let_def src_update_def src_get_def split: if_splits)
    next
      case (Inr kind)
      from sync_success[OF Some i \<open>fetch http sp source = Inr raws\<close> this, of sha uids now d] assms(2)
      show ?thesis by simp
    qed
  qed
qed

section \<open>One pass of the scheduler\<close>

lemma tick_sources_log:
  "tick_sources run dflt now n srcs d ss = (d', ss', synced, outs) \<Longrightarrow>
     map fst outs = map ds_id (filter (\<lambda>s. is_due dflt s now) srcs) \<and>
     synced = length (filter (\<lambda>p. \<exists>r. snd p = Inr r) outs)"
  by (induction srcs arbitrary: n d ss d' ss' synced outs)
    (auto split: if_splits prod.splits sum.splits)

lemma is_due_interval:
  assumes "ds_last_synced_at s = Some t" and "float_of_json (dget_or (ds_config s) (lit ''sync_interval_seconds'') (JInt dflt)) = Inr (Fin q)"
  shows "is_due dflt s now \<longleftrightarrow> q * of_int second \<le> of_int (now - t)"
  using assms by (simp add: is_due_def second_def le_divide_eq)

lemma not_due_after_sync:
  assumes "ds_last_synced_at s = Some t" and "now - t < default_sync_interval * second"
    and "dget (ds_config s) (lit ''sync_interval_seconds'') = None"
  shows "\<not> is_due default_sync_interval s now"
proof -
  have "\<not> (86400 * of_int second \<le> (of_int (now - t) :: rat))"
    using assms(2) by (simp add: default_sync_interval_def second_def)
  then show ?thesis
    using assms(3) is_due_interval[OF assms(1), of default_sync_interval 86400]
    by (simp add: dget_or_def default_sync_interval_def)
qed

end
