(* ===== verification/Billing.thy ===== *)
theory Billing
  imports Resource_Sync Py_Json
begin

text \<open>
  Billing (\<open>sdk/wapsell/billing/\<close>): the plan catalog, subscriptions with their in-memory
  repository, the Mercado Pago adapter over an abstract HTTP client, the service that subscribes,
  cancels and reconciles, and the verification of webhook signatures over an abstract HMAC. The
  life of the store is the step relation \<open>billing_step\<close>.
\<close>

section \<open>Plans\<close>

record plan =
  pl_code :: pystr
  pl_name :: pystr
  pl_price_ars_cents :: int
  pl_message_limit_monthly :: int
  pl_tenant_limit :: int
  pl_phone_number_limit :: int
  pl_description :: pystr

definition plans :: "plan dict" where
  "plans =
     [((lit ''STARTER''), \<lparr>pl_code = (lit ''STARTER''), pl_name = (lit ''Starter''), pl_price_ars_cents = 2900000,
         pl_message_limit_monthly = 1000, pl_tenant_limit = 1, pl_phone_number_limit = 1,
         pl_description = (lit ''Para empezar: 1.000 mensajes/mes, 1 tenant, 1 n'' @ [250] @ lit ''mero WhatsApp. '')
           @ (lit ''Ideal para validar la herramienta con clientes reales sin '') @ (lit ''compromiso.'')\<rparr>),
      ((lit ''PRO''), \<lparr>pl_code = (lit ''PRO''), pl_name = (lit ''Pro''), pl_price_ars_cents = 9900000,
         pl_message_limit_monthly = 10000, pl_tenant_limit = 3, pl_phone_number_limit = 3,
         pl_description = (lit ''Para PYMEs activas: 10.000 mensajes/mes, 3 tenants, 3 n'' @ [250] @ lit ''meros. '')
           @ (lit ''Incluye CRM completo + auto-extracci'' @ [243] @ lit ''n del chat con LLM.'')\<rparr>),
      ((lit ''ENTERPRISE''), \<lparr>pl_code = (lit ''ENTERPRISE''), pl_name = (lit ''Enterprise''), pl_price_ars_cents = 49900000,
         pl_message_limit_monthly = 10000000, pl_tenant_limit = 1000, pl_phone_number_limit = 1000,
         pl_description = (lit ''Para negocios con volumen: efectivamente ilimitado. Custom '')
           @ (lit ''dashboards y soporte prioritario.'')\<rparr>)]"

definition get_plan :: "pystr \<Rightarrow> plan res" where
  "get_plan code =
     (case dget plans code of
        Some p \<Rightarrow> Inr p
      | None \<Rightarrow> Inl (KeyError ((lit ''unknown plan code: '') @ str_repr code
                 @ (lit '' (valid: ('' @ [39] @ lit ''STARTER'' @ [39] @ lit '', '' @ [39] @ lit ''PRO'' @ [39] @ lit '', '' @ [39] @ lit ''ENTERPRISE'' @ [39] @ lit ''))''))))"

text \<open>\<open>price_ars\<close>: cents by 100.0. The prices are whole pesos, so the float is exact.\<close>

definition price_ars :: "plan \<Rightarrow> json" where
  "price_ars p = make_float (pl_price_ars_cents p) (- 2)"

definition list_plans :: "json list" where
  "list_plans = map (\<lambda>p. JObj
     [((lit ''code''), JStr (pl_code p)), ((lit ''name''), JStr (pl_name p)), ((lit ''price_ars''), price_ars p),
      ((lit ''message_limit_monthly''), JInt (pl_message_limit_monthly p)), ((lit ''tenant_limit''), JInt (pl_tenant_limit p)),
      ((lit ''phone_number_limit''), JInt (pl_phone_number_limit p)), ((lit ''description''), JStr (pl_description p))])
     (dvalues plans)"

section \<open>Subscriptions\<close>

datatype subscription_status = PENDING | AUTHORIZED | PAUSED | CANCELLED

definition status_str :: "subscription_status \<Rightarrow> pystr" where
  "status_str s = (case s of PENDING \<Rightarrow> (lit ''pending'') | AUTHORIZED \<Rightarrow> (lit ''authorized'')
     | PAUSED \<Rightarrow> (lit ''paused'') | CANCELLED \<Rightarrow> (lit ''cancelled''))"

definition status_of_str :: "pystr \<Rightarrow> subscription_status option" where
  "status_of_str x = find (\<lambda>s. status_str s = x) [PENDING, AUTHORIZED, PAUSED, CANCELLED]"

record subscription =
  su_id :: pystr
  su_tenant_id :: pystr
  su_plan_code :: pystr
  su_status :: subscription_status
  su_mp_preapproval_id :: "pystr option"
  su_mp_init_point :: "pystr option"
  su_payer_email :: "pystr option"
  su_started_at :: "time option"
  su_current_period_end :: "time option"
  su_created_at :: time
  su_updated_at :: time

type_synonym sub_store = "subscription dict"

definition sub_add :: "sub_store \<Rightarrow> subscription \<Rightarrow> sub_store" where
  "sub_add d s = dset d (su_id s) s"

definition sub_get :: "sub_store \<Rightarrow> pystr \<Rightarrow> subscription option" where
  "sub_get d i = dget d i"

definition sub_by_preapproval :: "sub_store \<Rightarrow> pystr \<Rightarrow> subscription option" where
  "sub_by_preapproval d pid = find (\<lambda>s. su_mp_preapproval_id s = Some pid) (dvalues d)"

definition sub_list_for :: "sub_store \<Rightarrow> pystr \<Rightarrow> subscription list" where
  "sub_list_for d t = sort_desc su_created_at (filter (\<lambda>s. su_tenant_id s = t) (dvalues d))"

definition active_for_tenant :: "sub_store \<Rightarrow> pystr \<Rightarrow> subscription option" where
  "active_for_tenant d t = find (\<lambda>s. su_status s = AUTHORIZED) (sub_list_for d t)"

definition sub_update :: "sub_store \<Rightarrow> subscription \<Rightarrow> (sub_store \<times> subscription) res" where
  "sub_update d s =
     (if dget d (su_id s) = None then Inl (KeyError ((lit ''unknown subscription: '') @ su_id s))
      else Inr (dset d (su_id s) s, s))"

section \<open>The Mercado Pago adapter\<close>

text \<open>
  \<open>client.request(method, url, headers=..., json=...)\<close>: a response, or the text of an
  \<open>httpx.HTTPError\<close>.
\<close>

type_synonym mp_http = "pystr \<Rightarrow> pystr \<Rightarrow> pystr dict \<Rightarrow> json option \<Rightarrow> pystr + http_response"

definition mp_headers :: "pystr \<Rightarrow> pystr dict" where
  "mp_headers token =
     [((lit ''Authorization''), (lit ''Bearer '') @ token), ((lit ''Content-Type''), (lit ''application/json'')),
      ((lit ''Accept''), (lit ''application/json''))]"

definition mp_send :: "mp_http \<Rightarrow> pystr \<Rightarrow> pystr \<Rightarrow> pystr \<Rightarrow> json option \<Rightarrow> json dict res" where
  "mp_send http token method path body =
     (case http method ((lit ''https://api.mercadopago.com'') @ path) (mp_headers token) body of
        Inl exc \<Rightarrow> Inl (MercadoPagoError ((lit ''http error calling '') @ method @ (lit '' '') @ path @ (lit '': '') @ exc))
      | Inr r \<Rightarrow>
          if hr_status r \<ge> 400
          then Inl (MercadoPagoError (method @ (lit '' '') @ path @ (lit '' returned HTTP '') @ nat_digits (hr_status r)
                 @ (lit '': '') @ take 400 (hr_text r)))
          else (case hr_json r of
                  Inl _ \<Rightarrow> Inl (MercadoPagoError (method @ (lit '' '') @ path @ (lit '' returned non-JSON body'')))
                | Inr (JObj d) \<Rightarrow> Inr d
                | Inr j \<Rightarrow> Inl (MercadoPagoError (method @ (lit '' '') @ path @ (lit '': expected dict, got '') @ type_name j))))"

record preapproval =
  pa_id :: pystr
  pa_init_point :: pystr
  pa_status :: pystr

definition preapproval_payload ::
  "pystr \<Rightarrow> json \<Rightarrow> pystr \<Rightarrow> pystr \<Rightarrow> pystr \<Rightarrow> json" where
  "preapproval_payload plan_name amount payer_email external_reference back_url =
     JObj [((lit ''reason''), JStr plan_name), ((lit ''external_reference''), JStr external_reference),
           ((lit ''payer_email''), JStr payer_email), ((lit ''back_url''), JStr back_url), ((lit ''status''), JStr (lit ''pending'')),
           ((lit ''auto_recurring''), JObj [((lit ''frequency''), JInt 1), ((lit ''frequency_type''), JStr (lit ''months'')),
              ((lit ''transaction_amount''), amount), ((lit ''currency_id''), JStr (lit ''ARS''))])]"

definition create_preapproval ::
  "mp_http \<Rightarrow> pystr \<Rightarrow> pystr \<Rightarrow> json \<Rightarrow> pystr \<Rightarrow> pystr \<Rightarrow> pystr \<Rightarrow> preapproval res" where
  "create_preapproval http token plan_name amount payer_email external_reference back_url =
     (case mp_send http token (lit ''POST'') (lit ''/preapproval'')
             (Some (preapproval_payload plan_name amount payer_email external_reference back_url)) of
        Inl e \<Rightarrow> Inl e
      | Inr data \<Rightarrow> Inr \<lparr>pa_id = py_str (jget data ''id''),
          pa_init_point = py_str (dget_or data (lit ''init_point'') (JStr [])),
          pa_status = py_str (dget_or data (lit ''status'') (JStr (lit ''pending'')))\<rparr>)"

definition get_preapproval :: "mp_http \<Rightarrow> pystr \<Rightarrow> pystr \<Rightarrow> json dict res" where
  "get_preapproval http token pid = mp_send http token (lit ''GET'') ((lit ''/preapproval/'') @ pid) None"

definition cancel_preapproval :: "mp_http \<Rightarrow> pystr \<Rightarrow> pystr \<Rightarrow> json dict res" where
  "cancel_preapproval http token pid =
     mp_send http token (lit ''PUT'') ((lit ''/preapproval/'') @ pid) (Some (JObj [((lit ''status''), JStr (lit ''cancelled''))]))"

section \<open>The service\<close>

text \<open>
  The service's constants: the HTTP client, the token, the back URL. \<open>bs_fromiso\<close> is
  \<open>datetime.fromisoformat\<close>, \<open>None\<close> where it raises \<open>ValueError\<close>; its result is only displayed.
\<close>

record billing =
  bs_http :: mp_http
  bs_token :: pystr
  bs_back_url :: pystr
  bs_fromiso :: "pystr \<Rightarrow> time option"

definition new_subscription :: "pystr \<Rightarrow> time \<Rightarrow> pystr \<Rightarrow> pystr \<Rightarrow> pystr \<Rightarrow> subscription" where
  "new_subscription uid now tenant_id plan_code payer_email =
     \<lparr>su_id = uid, su_tenant_id = tenant_id, su_plan_code = plan_code, su_status = PENDING,
      su_mp_preapproval_id = None, su_mp_init_point = None, su_payer_email = Some payer_email,
      su_started_at = None, su_current_period_end = None, su_created_at = now, su_updated_at = now\<rparr>"

definition current_for_tenant :: "sub_store \<Rightarrow> pystr \<Rightarrow> subscription option" where
  "current_for_tenant d t = active_for_tenant d t"

definition subscribe_plan ::
  "billing \<Rightarrow> sub_store \<Rightarrow> pystr \<Rightarrow> time \<Rightarrow> time \<Rightarrow> pystr \<Rightarrow> pystr \<Rightarrow> pystr
     \<Rightarrow> sub_store \<times> (subscription \<times> pystr) res" where
  "subscribe_plan B d uid now later tenant_id plan_code payer_email =
     (case get_plan plan_code of
        Inl e \<Rightarrow> (d, Inl e)
      | Inr p \<Rightarrow>
          (case active_for_tenant d tenant_id of
             Some existing \<Rightarrow>
               (d, Inl (BillingConflictError ((lit ''tenant '') @ tenant_id @ (lit '' already has an active subscription ('')
                    @ su_plan_code existing @ (lit '')''))))
           | None \<Rightarrow>
               (let s = new_subscription uid now tenant_id (pl_code p) payer_email;
                    d1 = sub_add d s
                in case create_preapproval (bs_http B) (bs_token B) ((lit ''Wapsell '') @ pl_name p) (price_ars p)
                          payer_email (su_id s) (bs_back_url B) of
                     Inl e \<Rightarrow> (d1, Inl e)
                   | Inr r \<Rightarrow>
                       (let s' = s\<lparr>su_mp_preapproval_id := Some (pa_id r),
                                   su_mp_init_point := Some (pa_init_point r), su_updated_at := later\<rparr>
                        in case sub_update d1 s' of
                             Inl e \<Rightarrow> (d1, Inl e)
                           | Inr (d2, s2) \<Rightarrow> (d2, Inr (s2, pa_init_point r))))))"

text \<open>\<open>cancel\<close>: the answer of Mercado Pago is logged, not used.\<close>

definition cancel :: "sub_store \<Rightarrow> time \<Rightarrow> pystr \<Rightarrow> pystr \<Rightarrow> (sub_store \<times> subscription) res" where
  "cancel d now tenant_id subscription_id =
     (case sub_get d subscription_id of
        None \<Rightarrow> Inl (KeyError ((lit ''subscription not found: '') @ subscription_id))
      | Some s \<Rightarrow>
          if su_tenant_id s \<noteq> tenant_id then Inl (KeyError ((lit ''subscription not found: '') @ subscription_id))
          else sub_update d (s\<lparr>su_status := CANCELLED, su_updated_at := now\<rparr>))"

definition cancel_calls :: "sub_store \<Rightarrow> pystr \<Rightarrow> pystr \<Rightarrow> pystr option" where
  "cancel_calls d tenant_id subscription_id =
     (case sub_get d subscription_id of
        None \<Rightarrow> None
      | Some s \<Rightarrow> if su_tenant_id s \<noteq> tenant_id then None
                  else (case su_mp_preapproval_id s of None \<Rightarrow> None | Some x \<Rightarrow> if x = [] then None else Some x))"

definition json_or :: "json \<Rightarrow> json \<Rightarrow> json" where
  "json_or a b = (if truthy a then a else b)"

definition period_end :: "billing \<Rightarrow> json dict \<Rightarrow> time option \<Rightarrow> time option" where
  "period_end B data old =
     (case json_or (jget data ''next_payment_date'') (jget data ''date_of_expiration'') of
        JStr x \<Rightarrow> (case bs_fromiso B (replace_char 90 (lit ''+00:00'') x) of None \<Rightarrow> old | Some t \<Rightarrow> Some t)
      | _ \<Rightarrow> old)"

definition reconcile ::
  "billing \<Rightarrow> sub_store \<Rightarrow> time \<Rightarrow> pystr \<Rightarrow> sub_store \<times> subscription option res" where
  "reconcile B d now pid =
     (case sub_by_preapproval d pid of
        None \<Rightarrow> (d, Inr None)
      | Some s \<Rightarrow>
          (case get_preapproval (bs_http B) (bs_token B) pid of
             Inl _ \<Rightarrow> (d, Inr None)
           | Inr data \<Rightarrow>
               (case status_of_str (lower (py_str (dget_or data (lit ''status'') (JStr [])))) of
                  None \<Rightarrow> (d, Inr (Some s))
                | Some st \<Rightarrow>
                    (let s1 = (if st = AUTHORIZED \<and> su_started_at s = None
                               then s\<lparr>su_started_at := Some now\<rparr> else s);
                         s2 = s1\<lparr>su_current_period_end := period_end B data (su_current_period_end s1),
                                 su_status := st, su_updated_at := now\<rparr>
                     in case sub_update d s2 of
                          Inl e \<Rightarrow> (d, Inl e)
                        | Inr (d', s3) \<Rightarrow> (d', Inr (Some s3))))))"

section \<open>Webhook signatures\<close>

text \<open>
  \<open>verify_mp_webhook_signature\<close>: \<open>hmac key message\<close> is the hexadecimal HMAC-SHA256.
  \<open>hmac.compare_digest\<close> raises \<open>TypeError\<close> on a string with a non-ASCII character.
\<close>

definition signature_parts :: "pystr \<Rightarrow> pystr dict" where
  "signature_parts header =
     fold (\<lambda>chunk parts.
        if 61 \<notin> set chunk then parts
        else (case partition_on 61 (strip chunk) of (k, _, v) \<Rightarrow> dset parts (strip k) (strip v)))
       (split_on 44 header) []"

definition mp_canonical :: "pystr \<Rightarrow> pystr \<Rightarrow> pystr \<Rightarrow> pystr" where
  "mp_canonical data_id request_id ts =
     (lit ''id:'') @ data_id @ (lit '';request-id:'') @ request_id @ (lit '';ts:'') @ ts @ (lit '';'')"

definition verify_mp_signature ::
  "(pystr \<Rightarrow> pystr \<Rightarrow> pystr) \<Rightarrow> pystr \<Rightarrow> pystr \<Rightarrow> pystr \<Rightarrow> pystr \<Rightarrow> bool res" where
  "verify_mp_signature hmac secret header request_id data_id =
     (if secret = [] then Inr True
      else (let parts = signature_parts header
            in case (dget parts (lit ''ts''), dget parts (lit ''v1'')) of
                 (Some ts, Some provided) \<Rightarrow>
                   if ts = [] \<or> provided = [] then Inr False
                   else compare_digest (hmac secret (mp_canonical data_id request_id ts)) provided
               | _ \<Rightarrow> Inr False))"

section \<open>The catalog\<close>

lemma get_plan_Inr: "get_plan code = Inr p \<Longrightarrow> pl_code p = code \<and> code \<in> set (dkeys plans)"
  by (auto simp: get_plan_def plans_def dkeys_def split: option.splits if_splits)

lemma get_plan_total: "(\<exists>p. get_plan code = Inr p) \<longleftrightarrow> code \<in> set (dkeys plans)"
  using dget_None_iff[of plans code] by (cases "dget plans code") (auto simp: get_plan_def)

section \<open>The life of the store\<close>

interpretation subs: keyed_store su_id sub_add sub_get
  by unfold_locales (auto simp: sub_get_def sub_add_def store_intros)

lemma find_None_iff_all: "find P xs = None \<longleftrightarrow> (\<forall>x \<in> set xs. \<not> P x)"
  by (auto simp: find_None_iff)

lemma active_None: "active_for_tenant d t = None \<longleftrightarrow>
    (\<forall>s \<in> set (dvalues d). su_tenant_id s = t \<longrightarrow> su_status s \<noteq> AUTHORIZED)"
  by (auto simp: active_for_tenant_def find_None_iff_all sub_list_for_def)

lemma active_Some: "active_for_tenant d t = Some s \<Longrightarrow>
    s \<in> set (dvalues d) \<and> su_tenant_id s = t \<and> su_status s = AUTHORIZED"
  by (auto simp: active_for_tenant_def sub_list_for_def dest!: find_Some_mem)

lemma sub_update_Inr:
  "sub_update d s = Inr (d', s') \<longleftrightarrow> sub_get d (su_id s) \<noteq> None \<and> d' = sub_add d s \<and> s' = s"
  by (auto simp: sub_update_def sub_get_def sub_add_def)

lemma sub_update_stored: "sub_get d (su_id s) \<noteq> None \<Longrightarrow> sub_update d s = Inr (sub_add d s, s)"
  by (simp add: sub_update_Inr)

lemma by_preapproval_stored:
  assumes "store_ok su_id d" and "sub_by_preapproval d pid = Some s"
  shows "s \<in> set (dvalues d) \<and> sub_get d (su_id s) = Some s \<and> su_mp_preapproval_id s = Some pid"
  using assms subs.get_mem[OF assms(1)] by (auto simp: sub_by_preapproval_def dest: find_Some_mem)

text \<open>The three operations as changes of the store.\<close>

lemma subscribe_effect:
  assumes "sub_get d uid = None"
  shows "fst (subscribe_plan B d uid now later t code email) = d \<or>
    (\<exists>s. fst (subscribe_plan B d uid now later t code email) = sub_add d s
       \<and> su_id s = uid \<and> su_tenant_id s = t \<and> su_plan_code s = code \<and> code \<in> set (dkeys plans)
       \<and> su_status s = PENDING \<and> active_for_tenant d t = None)"
proof (cases "get_plan code")
  case (Inl e)
  then show ?thesis by (simp add: subscribe_plan_def)
next
  case (Inr p)
  then have p: "pl_code p = code" "code \<in> set (dkeys plans)" using get_plan_Inr by auto
  show ?thesis
  proof (cases "active_for_tenant d t")
    case (Some s)
    with Inr show ?thesis by (simp add: subscribe_plan_def)
  next
    case None
    let ?s = "new_subscription uid now t code email"
    have add: "sub_add (sub_add d ?s) s = sub_add d s" if "su_id s = uid" for s
      using that by (simp add: sub_add_def new_subscription_def dset_def)
    have upd: "sub_update (sub_add d ?s) s = Inr (sub_add d s, s)" if "su_id s = uid" for s
      using that add[OF that] subs.put_read[of d ?s]
      by (simp add: sub_update_stored new_subscription_def)
    show ?thesis
    proof (cases "create_preapproval (bs_http B) (bs_token B) ((lit ''Wapsell '') @ pl_name p) (price_ars p)
                    email (su_id ?s) (bs_back_url B)")
      case (Inl e)
      with Inr None p have "fst (subscribe_plan B d uid now later t code email) = sub_add d ?s"
        by (simp add: subscribe_plan_def Let_def)
      then show ?thesis using p None by (intro disjI2 exI[of _ ?s]) (simp add: new_subscription_def)
    next
      case 2: (Inr r)
      let ?s' = "?s\<lparr>su_mp_preapproval_id := Some (pa_id r), su_mp_init_point := Some (pa_init_point r),
                    su_updated_at := later\<rparr>"
      have "su_id ?s' = uid" by (simp add: new_subscription_def)
      from upd[OF this] 2 Inr None p
      have "fst (subscribe_plan B d uid now later t code email) = sub_add d ?s'"
        by (simp add: subscribe_plan_def Let_def)
      then show ?thesis using p None by (intro disjI2 exI[of _ ?s']) (simp add: new_subscription_def)
    qed
  qed
qed

lemma cancel_effect:
  assumes "store_ok su_id d" and "cancel d now t i = Inr (d', s')"
  shows "\<exists>s. sub_get d i = Some s \<and> su_tenant_id s = t
    \<and> s' = s\<lparr>su_status := CANCELLED, su_updated_at := now\<rparr> \<and> d' = sub_add d s'"
  using assms subs.get_ident[OF assms(1)]
  by (auto simp: cancel_def sub_update_Inr split: option.splits if_splits)

lemma reconcile_effect:
  assumes "store_ok su_id d"
  shows "fst (reconcile B d now pid) = d \<or>
    (\<exists>s s' data. s \<in> set (dvalues d) \<and> su_mp_preapproval_id s = Some pid
       \<and> get_preapproval (bs_http B) (bs_token B) pid = Inr data
       \<and> status_of_str (lower (py_str (dget_or data (lit ''status'') (JStr [])))) = Some (su_status s')
       \<and> fst (reconcile B d now pid) = sub_add d s'
       \<and> su_id s' = su_id s \<and> su_tenant_id s' = su_tenant_id s \<and> su_plan_code s' = su_plan_code s
       \<and> su_mp_preapproval_id s' = su_mp_preapproval_id s \<and> su_created_at s' = su_created_at s
       \<and> (su_status s' = AUTHORIZED \<longrightarrow> su_started_at s' \<noteq> None)
       \<and> (su_started_at s \<noteq> None \<longrightarrow> su_started_at s' = su_started_at s))"
proof (cases "sub_by_preapproval d pid")
  case None
  then show ?thesis by (simp add: reconcile_def)
next
  case (Some s)
  note s = by_preapproval_stored[OF assms Some]
  show ?thesis
  proof (cases "get_preapproval (bs_http B) (bs_token B) pid")
    case (Inl e)
    with Some show ?thesis by (simp add: reconcile_def)
  next
    case (Inr data)
    show ?thesis
    proof (cases "status_of_str (lower (py_str (dget_or data (lit ''status'') (JStr []))))")
      case None
      with Some Inr show ?thesis by (simp add: reconcile_def)
    next
      case st: (Some st)
      let ?s1 = "if st = AUTHORIZED \<and> su_started_at s = None then s\<lparr>su_started_at := Some now\<rparr> else s"
      let ?s2 = "?s1\<lparr>su_current_period_end := period_end B data (su_current_period_end ?s1),
                     su_status := st, su_updated_at := now\<rparr>"
      have "sub_update d ?s2 = Inr (sub_add d ?s2, ?s2)"
        using s by (intro sub_update_stored) simp
      then have "fst (reconcile B d now pid) = sub_add d ?s2"
        using Some Inr st unfolding reconcile_def Let_def by simp
      then show ?thesis using s Inr st by (intro disjI2 exI[of _ s] exI[of _ ?s2] exI[of _ data]) simp
    qed
  qed
qed

inductive billing_step :: "billing \<Rightarrow> sub_store \<Rightarrow> sub_store \<Rightarrow> bool" for B where
  subscribed: "sub_get d uid = None \<Longrightarrow> billing_step B d (fst (subscribe_plan B d uid now later t code email))"
| cancelled: "cancel d now t i = Inr (d', s) \<Longrightarrow> billing_step B d d'"
| reconciled: "billing_step B d (fst (reconcile B d now pid))"

text \<open>
  The invariant: a subscription is of a plan of the catalog, an authorized one has a start date,
  and an authorized or paused one is known to Mercado Pago.
\<close>

definition sub_ok :: "subscription \<Rightarrow> bool" where
  "sub_ok s \<longleftrightarrow> su_plan_code s \<in> set (dkeys plans)
     \<and> (su_status s = AUTHORIZED \<longrightarrow> su_started_at s \<noteq> None)
     \<and> (su_status s \<in> {AUTHORIZED, PAUSED} \<longrightarrow> su_mp_preapproval_id s \<noteq> None)"

definition billing_ok :: "sub_store \<Rightarrow> bool" where
  "billing_ok d \<longleftrightarrow> store_ok su_id d \<and> (\<forall>s \<in> set (dvalues d). sub_ok s)"

lemma billing_ok_add: "billing_ok d \<Longrightarrow> sub_ok s \<Longrightarrow> billing_ok (sub_add d s)"
  using subs.put_ok subs.put_values by (auto simp: billing_ok_def)

lemma billing_step_ok: "billing_step B d d' \<Longrightarrow> billing_ok d \<Longrightarrow> billing_ok d'"
proof (induction rule: billing_step.induct)
  case (subscribed d uid now later t code email)
  from subscribe_effect[OF subscribed(1), of B now later t code email] show ?case
    using subscribed(2) by (auto simp: sub_ok_def intro!: billing_ok_add)
next
  case (cancelled d now t i d' s')
  then have st: "store_ok su_id d" by (simp add: billing_ok_def)
  from cancel_effect[OF st cancelled(1)] obtain s where s: "sub_get d i = Some s"
    "s' = s\<lparr>su_status := CANCELLED, su_updated_at := now\<rparr>" "d' = sub_add d s'" by blast
  have "s \<in> set (dvalues d)" using s(1) subs.get_mem[OF st] by blast
  then have "sub_ok s" using cancelled(2) by (simp add: billing_ok_def)
  then have "sub_ok s'" by (simp add: s(2) sub_ok_def)
  then show ?case using cancelled(2) s(3) billing_ok_add by simp
next
  case (reconciled d now pid)
  then have st: "store_ok su_id d" by (simp add: billing_ok_def)
  consider "fst (reconcile B d now pid) = d"
    | s s' where "s \<in> set (dvalues d)" "su_mp_preapproval_id s = Some pid"
        "fst (reconcile B d now pid) = sub_add d s'" "su_plan_code s' = su_plan_code s"
        "su_mp_preapproval_id s' = su_mp_preapproval_id s"
        "su_status s' = AUTHORIZED \<longrightarrow> su_started_at s' \<noteq> None"
    using reconcile_effect[OF st, of B now pid] by blast
  then show ?case
  proof cases
    case 1
    with reconciled show ?thesis by simp
  next
    case 2
    have "sub_ok s" using reconciled 2(1) by (simp add: billing_ok_def)
    then have "sub_ok s'" using 2 by (simp add: sub_ok_def)
    with reconciled 2(3) billing_ok_add show ?thesis by simp
  qed
qed

lemma billing_reachable: "(billing_step B)\<^sup>*\<^sup>* d d' \<Longrightarrow> billing_ok d \<Longrightarrow> billing_ok d'"
  by (induction rule: rtranclp_induct) (auto dest: billing_step_ok)

text \<open>Only a webhook that Mercado Pago confirms makes a subscription authorized.\<close>

lemma step_authorizes:
  assumes "billing_step B d d'" and "store_ok su_id d" and "s' \<in> set (dvalues d')" and "su_status s' = AUTHORIZED"
  shows "s' \<in> set (dvalues d) \<or> (\<exists>pid data. su_mp_preapproval_id s' = Some pid
    \<and> get_preapproval (bs_http B) (bs_token B) pid = Inr data
    \<and> lower (py_str (dget_or data (lit ''status'') (JStr []))) = (lit ''authorized''))"
  using assms(1)
proof (cases rule: billing_step.cases)
  case 1: (subscribed uid now later t code email)
  from subscribe_effect[OF 1(2), of B now later t code email] show ?thesis
    using assms(2-4) 1(1) by (auto simp: subs.put_values)
next
  case 2: (cancelled now t i s)
  from cancel_effect[OF assms(2) 2] show ?thesis
    using assms(2-4) by (auto simp: subs.put_values)
next
  case 3: (reconciled now pid)
  have st: "status_of_str x = Some AUTHORIZED \<Longrightarrow> x = (lit ''authorized'')" for x
    by (auto simp: status_of_str_def status_str_def split: if_splits)
  from reconcile_effect[OF assms(2), of B now pid] show ?thesis
  proof (elim disjE exE conjE)
    assume "fst (reconcile B d now pid) = d"
    with assms(3) 3 show ?thesis by simp
  next
    fix s s2 data
    assume r: "su_mp_preapproval_id s = Some pid" "get_preapproval (bs_http B) (bs_token B) pid = Inr data"
      "status_of_str (lower (py_str (dget_or data (lit ''status'') (JStr [])))) = Some (su_status s2)"
      "fst (reconcile B d now pid) = sub_add d s2" "su_mp_preapproval_id s2 = su_mp_preapproval_id s"
    from assms(3) r(4) 3 have "s' = s2 \<or> s' \<in> set (dvalues d)"
      using subs.put_values[OF assms(2)] by auto
    then show ?thesis
    proof
      assume "s' = s2"
      moreover from this r(3) assms(4) have "lower (py_str (dget_or data (lit ''status'') (JStr []))) = (lit ''authorized'')"
        using st by simp
      ultimately show ?thesis using r(1,2,5) by auto
    qed simp
  qed
qed

text \<open>
  Nothing stops two pending subscriptions of one tenant from being authorized: the run below, in
  which the API answers with the external reference as the identifier.
\<close>

definition echo_mp :: billing where
  "echo_mp =
     \<lparr>bs_http = (\<lambda>method url _ body. Inr \<lparr>hr_status = 200, hr_text = [], hr_json = Inr (JObj
        [((lit ''id''), (case body of Some (JObj d) \<Rightarrow> jget d ''external_reference'' | _ \<Rightarrow> JNull)),
         ((lit ''status''), JStr (lit ''authorized''))])\<rparr>),
      bs_token = (lit ''tok''), bs_back_url = [], bs_fromiso = (\<lambda>_. None)\<rparr>"

definition echo_sub :: "pystr \<Rightarrow> subscription" where
  "echo_sub i = (new_subscription i 0 (lit ''t1'') (lit ''PRO'') (lit ''a@b.c''))
     \<lparr>su_mp_preapproval_id := Some i, su_mp_init_point := Some [], su_updated_at := 1\<rparr>"

lemma echo_create: "create_preapproval (bs_http echo_mp) (bs_token echo_mp) n a e i b
    = Inr \<lparr>pa_id = i, pa_init_point = [], pa_status = (lit ''authorized'')\<rparr>"
  by (simp add: create_preapproval_def mp_send_def echo_mp_def preapproval_payload_def jget_def dget_or_def py_str_def)

lemma echo_subscribe:
  assumes "active_for_tenant d (lit ''t1'') = None"
  shows "fst (subscribe_plan echo_mp d i 0 1 (lit ''t1'') (lit ''PRO'') (lit ''a@b.c'')) = sub_add d (echo_sub i)"
proof -
  obtain p where p: "get_plan (lit ''PRO'') = Inr p" "pl_code p = (lit ''PRO'')"
    using get_plan_total[of "(lit ''PRO'')"] get_plan_Inr[of "(lit ''PRO'')"] by (auto simp: plans_def dkeys_def)
  have s: "(new_subscription i 0 (lit ''t1'') (lit ''PRO'') (lit ''a@b.c''))\<lparr>su_mp_preapproval_id := Some i,
      su_mp_init_point := Some [], su_updated_at := 1\<rparr> = echo_sub i" by (simp add: echo_sub_def)
  have id: "su_id (new_subscription i 0 (lit ''t1'') (lit ''PRO'') (lit ''a@b.c'')) = i" "su_id (echo_sub i) = i"
    by (simp_all add: new_subscription_def echo_sub_def)
  then have "sub_update (sub_add d (new_subscription i 0 (lit ''t1'') (lit ''PRO'') (lit ''a@b.c''))) (echo_sub i)
      = Inr (sub_add d (echo_sub i), echo_sub i)"
    by (simp add: sub_update_def sub_add_def) (simp add: dset_def)
  then show ?thesis
    using assms p by (simp add: subscribe_plan_def echo_create id s Let_def)
qed

lemma echo_reconcile:
  assumes "sub_by_preapproval d i = Some s" and "sub_get d (su_id s) \<noteq> None" and "su_started_at s = None"
  shows "\<exists>s'. fst (reconcile echo_mp d 2 i) = sub_add d s' \<and> su_status s' = AUTHORIZED
    \<and> su_id s' = su_id s \<and> su_tenant_id s' = su_tenant_id s \<and> su_mp_preapproval_id s' = su_mp_preapproval_id s"
proof -
  obtain data where data: "get_preapproval (bs_http echo_mp) (bs_token echo_mp) i = Inr data"
    "status_of_str (lower (py_str (dget_or data (lit ''status'') (JStr [])))) = Some AUTHORIZED"
    by (rule that[of "[((lit ''id''), JNull), ((lit ''status''), JStr (lit ''authorized''))]"])
       (simp_all add: get_preapproval_def mp_send_def echo_mp_def dget_or_def py_str_def status_of_str_def
          status_str_def lit_def lower_def lower_cp_def)
  with assms show ?thesis
    by (simp add: reconcile_def Let_def sub_update_stored) (rule exI, rule conjI, rule refl, simp)
qed

lemma two_active:
  "\<exists>B d a b. (billing_step B)\<^sup>*\<^sup>* [] d \<and> a \<in> set (dvalues d) \<and> b \<in> set (dvalues d) \<and> su_id a \<noteq> su_id b
    \<and> su_tenant_id a = su_tenant_id b \<and> su_status a = AUTHORIZED \<and> su_status b = AUTHORIZED"
proof -
  let ?a = "echo_sub (lit ''a'')" and ?b = "echo_sub (lit ''b'')" and ?step = "billing_step echo_mp"
  have f: "su_id (echo_sub i) = i" "su_tenant_id (echo_sub i) = (lit ''t1'')" "su_status (echo_sub i) = PENDING"
    "su_mp_preapproval_id (echo_sub i) = Some i" "su_started_at (echo_sub i) = None" for i
    by (simp_all add: echo_sub_def new_subscription_def)
  have d1: "sub_add [] ?a = [((lit ''a''), ?a)]" by (simp add: sub_add_def dset_def f)
  have d2: "sub_add [((lit ''a''), ?a)] ?b = [((lit ''a''), ?a), ((lit ''b''), ?b)]" by (simp add: sub_add_def dset_def f)
  have s1: "?step [] [((lit ''a''), ?a)]"
    using billing_step.subscribed[of "[]" "(lit ''a'')" echo_mp 0 1 "(lit ''t1'')" "(lit ''PRO'')" "(lit ''a@b.c'')"] echo_subscribe[of "[]" "(lit ''a'')"] d1
    by (simp add: sub_get_def active_for_tenant_def sub_list_for_def sort_desc_def)
  have s2: "?step [((lit ''a''), ?a)] [((lit ''a''), ?a), ((lit ''b''), ?b)]"
    using billing_step.subscribed[of "[((lit ''a''), ?a)]" "(lit ''b'')" echo_mp 0 1 "(lit ''t1'')" "(lit ''PRO'')" "(lit ''a@b.c'')"]
      echo_subscribe[of "[((lit ''a''), ?a)]" "(lit ''b'')"] d2
    by (simp add: sub_get_def active_for_tenant_def sub_list_for_def sort_desc_def f)
  obtain a where a: "fst (reconcile echo_mp [((lit ''a''), ?a), ((lit ''b''), ?b)] 2 (lit ''a'')) = sub_add [((lit ''a''), ?a), ((lit ''b''), ?b)] a"
      "su_status a = AUTHORIZED" "su_id a = (lit ''a'')" "su_tenant_id a = (lit ''t1'')" "su_mp_preapproval_id a = Some (lit ''a'')"
    using echo_reconcile[of "[((lit ''a''), ?a), ((lit ''b''), ?b)]" "(lit ''a'')" ?a]
    by (auto simp: sub_by_preapproval_def sub_get_def f)
  have "sub_add [((lit ''a''), ?a), ((lit ''b''), ?b)] a = [((lit ''a''), a), ((lit ''b''), ?b)]" by (simp add: sub_add_def dset_def a)
  with a(1) have s3: "?step [((lit ''a''), ?a), ((lit ''b''), ?b)] [((lit ''a''), a), ((lit ''b''), ?b)]"
    using billing_step.reconciled[of echo_mp "[((lit ''a''), ?a), ((lit ''b''), ?b)]" 2 "(lit ''a'')"] by simp
  obtain b where b: "fst (reconcile echo_mp [((lit ''a''), a), ((lit ''b''), ?b)] 2 (lit ''b'')) = sub_add [((lit ''a''), a), ((lit ''b''), ?b)] b"
      "su_status b = AUTHORIZED" "su_id b = (lit ''b'')" "su_tenant_id b = (lit ''t1'')"
    using echo_reconcile[of "[((lit ''a''), a), ((lit ''b''), ?b)]" "(lit ''b'')" ?b]
    by (auto simp: sub_by_preapproval_def sub_get_def f a)
  have "sub_add [((lit ''a''), a), ((lit ''b''), ?b)] b = [((lit ''a''), a), ((lit ''b''), b)]" by (simp add: sub_add_def dset_def b)
  with b(1) have s4: "?step [((lit ''a''), a), ((lit ''b''), ?b)] [((lit ''a''), a), ((lit ''b''), b)]"
    using billing_step.reconciled[of echo_mp "[((lit ''a''), a), ((lit ''b''), ?b)]" 2 "(lit ''b'')"] by simp
  from s1 have "?step\<^sup>*\<^sup>* [] [((lit ''a''), ?a)]" by blast
  then have "?step\<^sup>*\<^sup>* [] [((lit ''a''), ?a), ((lit ''b''), ?b)]" using s2 by (rule rtranclp.rtrancl_into_rtrancl)
  then have "?step\<^sup>*\<^sup>* [] [((lit ''a''), a), ((lit ''b''), ?b)]" using s3 by (rule rtranclp.rtrancl_into_rtrancl)
  then have "?step\<^sup>*\<^sup>* [] [((lit ''a''), a), ((lit ''b''), b)]" using s4 by (rule rtranclp.rtrancl_into_rtrancl)
  with a(2-4) b(2-4) show ?thesis
    by (intro exI[of _ echo_mp] exI[of _ "[((lit ''a''), a), ((lit ''b''), b)]"] exI[of _ a] exI[of _ b]) simp
qed

section \<open>Signatures\<close>

lemma verify_accepts:
  assumes "secret \<noteq> []"
  shows "verify_mp_signature hmac secret header rid did = Inr True \<longleftrightarrow>
    (\<exists>ts v. dget (signature_parts header) (lit ''ts'') = Some ts \<and> dget (signature_parts header) (lit ''v1'') = Some v
       \<and> ts \<noteq> [] \<and> v \<noteq> [] \<and> \<not> (\<exists>c \<in> set v. c > 127) \<and> v = hmac secret (mp_canonical did rid ts))"
  using assms
  by (auto simp: verify_mp_signature_def Let_def compare_digest_def split: option.splits)

text \<open>A header in the documented form is read back.\<close>

lemma strip_id: "s = [] \<or> (\<not> is_space (hd s) \<and> \<not> is_space (last s)) \<Longrightarrow> strip s = s"
  by (auto simp: strip_def lstrip_id rstrip_id)

lemma strip_last: "strip s = s \<Longrightarrow> s \<noteq> [] \<Longrightarrow> \<not> is_space (last s)"
  using rstrip_last[of "lstrip s"] by (simp add: strip_def)

lemma split_on_none: "c \<notin> set a \<Longrightarrow> split_on c a = [a]"
  by (induction a) auto

lemma split_on_once: "c \<notin> set a \<Longrightarrow> split_on c (a @ c # b) = a # split_on c b"
  by (induction a) auto

lemma partition_on_at: "c \<notin> set k \<Longrightarrow> partition_on c (k @ c # v) = (k, True, v)"
proof -
  assume "c \<notin> set k"
  then have "takeWhile (\<lambda>x. x \<noteq> c) (k @ c # v) = k" "dropWhile (\<lambda>x. x \<noteq> c) (k @ c # v) = c # v"
    by (auto simp: takeWhile_append dropWhile_append)
  then show ?thesis by (simp add: partition_on_def)
qed

definition signed_header :: "pystr \<Rightarrow> pystr \<Rightarrow> pystr" where
  "signed_header ts v = (lit ''ts='') @ ts @ (lit '',v1='') @ v"

lemma signed_header_parts:
  assumes "44 \<notin> set ts" and "44 \<notin> set v" and "strip ts = ts" and "strip v = v" and "ts \<noteq> []" and "v \<noteq> []"
  shows "dget (signature_parts (signed_header ts v)) (lit ''ts'') = Some ts
    \<and> dget (signature_parts (signed_header ts v)) (lit ''v1'') = Some v"
proof -
  have keys: "(lit ''ts='') = [116, 115, 61]" "(lit '',v1='') = [44, 118, 49, 61]" "(lit ''ts'') = [116, 115]" "(lit ''v1'') = [118, 49]"
    by (simp_all add: lit_def)
  have sp: "strip (116 # 115 # 61 # ts) = 116 # 115 # 61 # ts" "strip (118 # 49 # 61 # v) = 118 # 49 # 61 # v"
    using assms(3-6) strip_last[of ts] strip_last[of v] by (simp_all add: strip_id is_space_def)
  have st: "strip [116, 115] = [116, 115]" "strip [118, 49] = [118, 49]"
    by (simp_all add: strip_def lstrip_def rstrip_def is_space_def)
  have "split_on 44 (signed_header ts v) = [116 # 115 # 61 # ts, 118 # 49 # 61 # v]"
    using assms(1,2) split_on_once[of 44 "116 # 115 # 61 # ts" "118 # 49 # 61 # v"]
      split_on_none[of 44 "118 # 49 # 61 # v"]
    by (simp add: signed_header_def keys)
  moreover have "partition_on 61 (116 # 115 # 61 # ts) = ([116, 115], True, ts)"
    "partition_on 61 (118 # 49 # 61 # v) = ([118, 49], True, v)"
    using partition_on_at[of 61 "[116, 115]" ts] partition_on_at[of 61 "[118, 49]" v] by simp_all
  ultimately show ?thesis
    using sp st assms(3,4) by (simp add: signature_parts_def keys)
qed

end
