(* ===== verification/Auth.thy ===== *)
theory Auth
  imports Domain_Models
begin

text \<open>
  Users, sessions and the authentication service (\<open>sdk/wapsell/auth/\<close>) with the in-memory
  repositories. \<open>bcrypt\<close> is a parameter: \<open>hashpw\<close> (whose salt is part of the function) may raise,
  \<open>checkpw\<close> may raise \<open>ValueError\<close> or \<open>TypeError\<close>, which the service takes for a mismatch. The
  session token and the identifiers are arguments.
\<close>

section \<open>Repositories\<close>

type_synonym user_store = "user dict"
type_synonym session_store = "session dict"

definition user_add :: "user_store \<Rightarrow> user \<Rightarrow> (user_store \<times> user) res" where
  "user_add d u =
     (if \<exists>x \<in> set (dvalues d). lower (u_email x) = lower (u_email u)
      then Inl (ValueError ((lit ''email already exists: '') @ u_email u))
      else Inr (dset d (u_id u) u, u))"

definition user_get :: "user_store \<Rightarrow> pystr \<Rightarrow> user option" where
  "user_get d i = dget d i"

definition user_by_email :: "user_store \<Rightarrow> pystr \<Rightarrow> user option" where
  "user_by_email d email = find (\<lambda>u. lower (u_email u) = lower email) (dvalues d)"

definition user_list_all :: "user_store \<Rightarrow> user list" where
  "user_list_all d = dvalues d"

definition session_add :: "session_store \<Rightarrow> session \<Rightarrow> session_store" where
  "session_add d s = dset d (s_token s) s"

definition session_get :: "session_store \<Rightarrow> pystr \<Rightarrow> session option" where
  "session_get d tok = dget d tok"

definition session_delete :: "session_store \<Rightarrow> pystr \<Rightarrow> session_store \<times> bool" where
  "session_delete d tok = (dpop d tok, dget d tok \<noteq> None)"

section \<open>The service\<close>

definition session_duration :: time where
  "session_duration = days 7"

definition validate_email :: "pystr \<Rightarrow> unit res" where
  "validate_email email =
     (let e = strip email
      in if 64 \<notin> set e \<or> 46 \<notin> set (last (split_on 64 e)) then Inl (AuthError (lit ''email looks invalid''))
         else if length e > 254 then Inl (AuthError (lit ''email too long''))
         else Inr ())"

definition validate_password :: "pystr \<Rightarrow> unit res" where
  "validate_password password =
     (if length password < 8
      then Inl (AuthError ((lit ''password must be at least '') @ nat_digits 8 @ (lit '' characters'')))
      else if length password > 128 then Inl (AuthError (lit ''password too long''))
      else Inr ())"

record bcrypt =
  bc_hash :: "pystr \<Rightarrow> pystr res"
  bc_check :: "pystr \<Rightarrow> pystr \<Rightarrow> bool res"

definition verify_password :: "bcrypt \<Rightarrow> pystr \<Rightarrow> pystr \<Rightarrow> bool" where
  "verify_password bc password stored =
     (case bc_check bc password stored of Inr b \<Rightarrow> b | Inl _ \<Rightarrow> False)"

definition register ::
  "bcrypt \<Rightarrow> user_store \<Rightarrow> pystr \<Rightarrow> time \<Rightarrow> pystr \<Rightarrow> pystr \<Rightarrow> user_role \<Rightarrow> pystr option
     \<Rightarrow> (user_store \<times> user) res" where
  "register bc d uid now email password rl tenant_id =
     (case validate_email email of
        Inl e \<Rightarrow> Inl e
      | Inr _ \<Rightarrow>
          (case validate_password password of
             Inl e \<Rightarrow> Inl e
           | Inr _ \<Rightarrow>
               (case bc_hash bc password of
                  Inl e \<Rightarrow> Inl e
                | Inr h \<Rightarrow>
                    (let u = \<lparr>u_id = uid, u_email = lower (strip email), u_password_hash = h, u_role = rl,
                              u_tenant_id = tenant_id, u_created_at = now\<rparr>
                     in case user_add d u of
                          Inl (ValueError m) \<Rightarrow> Inl (AuthError m)
                        | Inl e \<Rightarrow> Inl e
                        | Inr r \<Rightarrow> Inr r))))"

definition login ::
  "bcrypt \<Rightarrow> time \<Rightarrow> user_store \<Rightarrow> session_store \<Rightarrow> pystr \<Rightarrow> time \<Rightarrow> pystr \<Rightarrow> pystr
     \<Rightarrow> (session_store \<times> user \<times> session) res" where
  "login bc duration us ss tok now email password =
     (case user_by_email us (lower (strip email)) of
        None \<Rightarrow> Inl (AuthError (lit ''invalid email or password''))
      | Some u \<Rightarrow>
          if \<not> verify_password bc password (u_password_hash u)
          then Inl (AuthError (lit ''invalid email or password''))
          else (let s = \<lparr>s_token = tok, s_user_id = u_id u, s_expires_at = now + duration, s_created_at = now\<rparr>
                in Inr (session_add ss s, u, s)))"

definition logout :: "session_store \<Rightarrow> pystr \<Rightarrow> session_store \<times> bool" where
  "logout ss tok = session_delete ss tok"

text \<open>The sessions after the call, and the user or the error.\<close>

definition authenticate ::
  "user_store \<Rightarrow> session_store \<Rightarrow> time \<Rightarrow> pystr option \<Rightarrow> session_store \<times> user res" where
  "authenticate us ss now token =
     (case token of
        None \<Rightarrow> (ss, Inl (AuthError (lit ''not authenticated'')))
      | Some tok \<Rightarrow>
          if tok = [] then (ss, Inl (AuthError (lit ''not authenticated'')))
          else (case session_get ss tok of
                  None \<Rightarrow> (ss, Inl (AuthError (lit ''session not found'')))
                | Some s \<Rightarrow>
                    if s_expires_at s \<le> now
                    then (fst (session_delete ss tok), Inl (AuthError (lit ''session expired'')))
                    else (case user_get us (s_user_id s) of
                            None \<Rightarrow> (fst (session_delete ss tok), Inl (AuthError (lit ''user no longer exists'')))
                          | Some u \<Rightarrow> (ss, Inr u))))"

section \<open>Users\<close>

text \<open>The invariant: no two users with the same email up to case.\<close>

definition users_ok :: "user_store \<Rightarrow> bool" where
  "users_ok d \<longleftrightarrow> store_ok u_id d \<and>
     (\<forall>a \<in> set (dvalues d). \<forall>b \<in> set (dvalues d). lower (u_email a) = lower (u_email b) \<longrightarrow> u_id a = u_id b)"

lemma users_okD:
  "users_ok d \<Longrightarrow> a \<in> set (dvalues d) \<Longrightarrow> b \<in> set (dvalues d) \<Longrightarrow> lower (u_email a) = lower (u_email b) \<Longrightarrow> u_id a = u_id b"
  unfolding users_ok_def by blast

interpretation user_repo: keyed_store u_id "\<lambda>d u. dset d (u_id u) u" user_get
  by unfold_locales (auto simp: user_get_def store_intros)

interpretation session_repo: keyed_store s_token session_add session_get
  by unfold_locales (auto simp: session_add_def session_get_def store_intros)

lemma user_add_ok:
  assumes "users_ok d" and "user_add d u = Inr (d', u')" and "user_get d (u_id u) = None"
  shows "users_ok d' \<and> u' = u \<and> set (dvalues d') = insert u (set (dvalues d))"
proof -
  from assms(2) have free: "\<And>x. x \<in> set (dvalues d) \<Longrightarrow> lower (u_email x) \<noteq> lower (u_email u)"
    and d': "d' = dset d (u_id u) u" "u' = u"
    by (auto simp: user_add_def split: if_splits)
  have v: "dvalues d' = dvalues d @ [u]"
    using assms(3) by (simp add: d' user_get_def store_intros)
  have s: "store_ok u_id d'" using assms(1) by (simp add: d' users_ok_def store_intros)
  have "u_id a = u_id b" if "a \<in> set (dvalues d')" "b \<in> set (dvalues d')" "lower (u_email a) = lower (u_email b)" for a b
  proof -
    from that have "(a = u \<or> a \<in> set (dvalues d)) \<and> (b = u \<or> b \<in> set (dvalues d))" by (simp add: v)
    then consider "a = u" "b = u" | "a = u" "b \<in> set (dvalues d)" | "b = u" "a \<in> set (dvalues d)"
      | "a \<in> set (dvalues d)" "b \<in> set (dvalues d)" by blast
    then show ?thesis
    proof cases
      case 2
      with free[of b] that(3) show ?thesis by simp
    next
      case 3
      with free[of a] that(3) show ?thesis by simp
    next
      case 4
      then show ?thesis using that(3) by (rule users_okD[OF assms(1)])
    qed simp
  qed
  then have "users_ok d'" using s unfolding users_ok_def by blast
  with v d'(2) show ?thesis by simp
qed

lemma by_email_unique:
  assumes "users_ok d" and "u \<in> set (dvalues d)" and "lower (u_email u) = lower e"
  shows "user_by_email d e = Some u"
proof -
  obtain x where x: "user_by_email d e = Some x"
    using assms(2,3) by (cases "user_by_email d e") (auto simp: user_by_email_def dest: find_None_all)
  then have m: "x \<in> set (dvalues d)" "lower (u_email x) = lower e"
    by (auto simp: user_by_email_def dest: find_Some_mem)
  then have "u_id x = u_id u" using users_okD[OF assms(1) m(1) assms(2)] assms(3) by simp
  then have "x = u" using m(1) assms(1,2) unfolding users_ok_def by (blast intro: user_repo.ident_unique)
  with x show ?thesis by simp
qed

lemma register_ok:
  assumes "register bc d uid now email password rl t = Inr (d', u)" and "users_ok d" and "user_get d uid = None"
  shows "users_ok d' \<and> set (dvalues d') = insert u (set (dvalues d)) \<and> u_id u = uid
    \<and> u_email u = lower (strip email) \<and> u_role u = rl \<and> u_tenant_id u = t
    \<and> bc_hash bc password = Inr (u_password_hash u) \<and> 8 \<le> length password \<and> length password \<le> 128"
proof -
  from assms(1) obtain h where h: "bc_hash bc password = Inr h" "8 \<le> length password" "length password \<le> 128"
    and add: "user_add d \<lparr>u_id = uid, u_email = lower (strip email), u_password_hash = h, u_role = rl,
                              u_tenant_id = t, u_created_at = now\<rparr> = Inr (d', u)"
    by (auto simp: register_def validate_password_def Let_def not_less split: sum.splits exn.splits if_splits)
  from user_add_ok[OF assms(2) add] assms(3) h show ?thesis by auto
qed

section \<open>Sessions\<close>

lemma login_error_uniform:
  "login bc dur us ss tok now email password = Inl e \<Longrightarrow> e = AuthError (lit ''invalid email or password'')"
  by (auto simp: login_def Let_def split: option.splits if_splits)

lemma login_ok:
  assumes "users_ok us" and "u \<in> set (dvalues us)" and "u_email u = lower (strip email)"
    and "bc_check bc password (u_password_hash u) = Inr True"
  shows "login bc dur us ss tok now email password =
    (let s = \<lparr>s_token = tok, s_user_id = u_id u, s_expires_at = now + dur, s_created_at = now\<rparr>
     in Inr (session_add ss s, u, s))"
proof -
  have "user_by_email us (lower (strip email)) = Some u"
    using assms(1-3) by (intro by_email_unique) (simp_all add: lower_idem)
  with assms(4) show ?thesis by (simp add: login_def verify_password_def)
qed

lemma authenticate_iff:
  "snd (authenticate us ss now token) = Inr u \<longleftrightarrow>
     (\<exists>tok s. token = Some tok \<and> tok \<noteq> [] \<and> session_get ss tok = Some s \<and> now < s_expires_at s
        \<and> user_get us (s_user_id s) = Some u)"
  by (auto simp: authenticate_def session_delete_def split: option.splits)

lemma authenticate_sessions:
  "fst (authenticate us ss now token) =
     (case token of None \<Rightarrow> ss
      | Some tok \<Rightarrow> if (\<exists>u. snd (authenticate us ss now token) = Inr u) \<or> tok = [] then ss else dpop ss tok)"
  by (auto simp: authenticate_def session_delete_def session_get_def dget_None_iff dpop_absent split: option.splits)

lemma logout_ends:
  "\<exists>m. snd (authenticate us (fst (logout ss tok)) now (Some tok)) = Inl (AuthError m)"
  by (auto simp: authenticate_def logout_def session_delete_def session_get_def)

end
