(* ===== verification/Templates.thy ===== *)
theory Templates
  imports Domain_Models
begin

text \<open>
  The message-template repository (\<open>sdk/wapsell/templates/repository.py\<close>), in-memory adapter. A
  template is unique per (tenant, name, language) when it is added; an update checks only that the
  identifier is known.
\<close>

type_synonym template_store = "message_template dict"

definition template_key :: "message_template \<Rightarrow> pystr \<times> pystr \<times> pystr" where
  "template_key m = (mt_tenant_id m, mt_name m, mt_language m)"

definition template_add :: "template_store \<Rightarrow> message_template \<Rightarrow> (template_store \<times> message_template) res" where
  "template_add d m =
     (if \<exists>x \<in> set (dvalues d). mt_tenant_id x = mt_tenant_id m \<and> mt_name x = mt_name m \<and> mt_language x = mt_language m
      then Inl (ValueError ((lit ''template '' @ [39]) @ mt_name m @ ([39] @ lit '' for language '' @ [39]) @ mt_language m
             @ ([39] @ lit '' already exists in this tenant'')))
      else Inr (dset d (mt_id m) m, m))"

definition template_get :: "template_store \<Rightarrow> pystr \<Rightarrow> message_template option" where
  "template_get d i = dget d i"

definition template_list_for :: "template_store \<Rightarrow> pystr \<Rightarrow> message_template list" where
  "template_list_for d t = sort_desc mt_created_at (filter (\<lambda>m. mt_tenant_id m = t) (dvalues d))"

definition template_update :: "template_store \<Rightarrow> message_template \<Rightarrow> (template_store \<times> message_template) res" where
  "template_update d m =
     (if dget d (mt_id m) = None then Inl (KeyError ((lit ''unknown template: '') @ mt_id m))
      else Inr (dset d (mt_id m) m, m))"

definition template_delete :: "template_store \<Rightarrow> pystr \<Rightarrow> template_store \<times> bool" where
  "template_delete d i = (dpop d i, dget d i \<noteq> None)"

interpretation template_repo: keyed_store mt_id "\<lambda>d m. dset d (mt_id m) m" template_get
  by unfold_locales (auto simp: template_get_def store_intros)

definition templates_ok :: "template_store \<Rightarrow> bool" where
  "templates_ok d \<longleftrightarrow> store_ok mt_id d \<and>
     (\<forall>a \<in> set (dvalues d). \<forall>b \<in> set (dvalues d). template_key a = template_key b \<longrightarrow> mt_id a = mt_id b)"

lemma templates_okD:
  "templates_ok d \<Longrightarrow> a \<in> set (dvalues d) \<Longrightarrow> b \<in> set (dvalues d) \<Longrightarrow> template_key a = template_key b \<Longrightarrow> mt_id a = mt_id b"
  unfolding templates_ok_def by blast

lemma templates_okI:
  "store_ok mt_id d \<Longrightarrow> (\<And>a b. a \<in> set (dvalues d) \<Longrightarrow> b \<in> set (dvalues d) \<Longrightarrow> template_key a = template_key b
     \<Longrightarrow> mt_id a = mt_id b) \<Longrightarrow> templates_ok d"
  unfolding templates_ok_def by blast

text \<open>A write under an identifier whose key nobody else has keeps the invariant.\<close>

lemma template_write_ok:
  assumes "templates_ok d" and "\<And>x. x \<in> set (dvalues d) \<Longrightarrow> mt_id x \<noteq> mt_id m \<Longrightarrow> template_key x \<noteq> template_key m"
  shows "templates_ok (dset d (mt_id m) m)"
proof (rule templates_okI)
  have ok: "store_ok mt_id d" using assms(1) by (simp add: templates_ok_def)
  then show "store_ok mt_id (dset d (mt_id m) m)" by (simp add: store_intros)
  fix a b
  assume ab: "a \<in> set (dvalues (dset d (mt_id m) m))" "b \<in> set (dvalues (dset d (mt_id m) m))"
    "template_key a = template_key b"
  then have mem: "a = m \<or> (a \<in> set (dvalues d) \<and> mt_id a \<noteq> mt_id m)"
    "b = m \<or> (b \<in> set (dvalues d) \<and> mt_id b \<noteq> mt_id m)"
    using template_repo.put_values[OF ok] by blast+
  show "mt_id a = mt_id b"
  proof (cases "a = m")
    case True
    then have "b = m" using mem(2) assms(2)[of b] ab(3) by auto
    with True show ?thesis by simp
  next
    case False
    then have a: "a \<in> set (dvalues d)" "mt_id a \<noteq> mt_id m" using mem(1) by simp_all
    have "b \<noteq> m" using assms(2)[OF a] ab(3) by auto
    then have "b \<in> set (dvalues d)" using mem(2) by simp
    from templates_okD[OF assms(1) a(1) this ab(3)] show ?thesis .
  qed
qed

lemma template_add_ok:
  assumes "templates_ok d" and "template_get d (mt_id m) = None"
  shows "case template_add d m of
      Inl e \<Rightarrow> template_key m \<in> template_key ` set (dvalues d) \<and> (\<exists>t. e = ValueError t)
    | Inr (d', m') \<Rightarrow> templates_ok d' \<and> m' = m \<and> template_key m \<notin> template_key ` set (dvalues d)
        \<and> dvalues d' = dvalues d @ [m]"
proof (cases "template_key m \<in> template_key ` set (dvalues d)")
  case True
  then show ?thesis by (force simp: template_add_def template_key_def)
next
  case False
  then have "template_add d m = Inr (dset d (mt_id m) m, m)"
    by (auto simp: template_add_def template_key_def image_iff)
  moreover have "templates_ok (dset d (mt_id m) m)"
    using False by (intro template_write_ok[OF assms(1)]) (auto simp: image_iff)
  moreover have "dvalues (dset d (mt_id m) m) = dvalues d @ [m]"
    using assms(2) by (simp add: template_get_def store_intros)
  ultimately show ?thesis using False by simp
qed

text \<open>An update keeps the invariant when it keeps the key, as every handler but a rename does.\<close>

lemma template_update_ok:
  assumes "templates_ok d" and "template_update d m = Inr (d', m')" and "template_get d (mt_id m) = Some old"
    and "template_key m = template_key old"
  shows "templates_ok d' \<and> template_get d' i = (if i = mt_id m then Some m else template_get d i)"
proof -
  have d': "d' = dset d (mt_id m) m" using assms(2) by (auto simp: template_update_def split: if_splits)
  have old: "old \<in> set (dvalues d)" "mt_id old = mt_id m"
    using assms(1,3) template_repo.get_mem[of d] by (simp_all add: templates_ok_def)
  have "templates_ok (dset d (mt_id m) m)"
  proof (rule template_write_ok[OF assms(1)])
    fix x assume x: "x \<in> set (dvalues d)" "mt_id x \<noteq> mt_id m"
    show "template_key x \<noteq> template_key m"
    proof
      assume "template_key x = template_key m"
      then have "template_key x = template_key old" using assms(4) by simp
      from templates_okD[OF assms(1) x(1) old(1) this] old(2) x(2) show False by simp
    qed
  qed
  then show ?thesis by (simp add: d' template_get_def)
qed

lemma template_delete_ok: "templates_ok d \<Longrightarrow> templates_ok (fst (template_delete d i))"
proof -
  assume ok: "templates_ok d"
  have sub: "x \<in> set (dvalues d)" if "x \<in> set (dvalues (dpop d i))" for x
    using that by (auto simp: dvalues_def set_dpop)
  show ?thesis unfolding template_delete_def fst_conv
  proof (rule templates_okI)
    show "store_ok mt_id (dpop d i)" using ok by (simp add: templates_ok_def store_intros)
  qed (rule templates_okD[OF ok sub sub])
qed

end
