(* ===== verification/Postgres.thy ===== *)
theory Postgres
  imports Events_Onboarding Templates Auth Billing Crm_Recorder
begin

text \<open>
  The Postgres adapters of the repositories (\<open>PostgresTenantRepository\<close>,
  \<open>PostgresTemplateRepository\<close>, \<open>PostgresUserRepository\<close>, \<open>PostgresSessionRepository\<close>,
  \<open>PostgresSubscriptionRepository\<close>, \<open>PostgresDataSourceRepository\<close>,
  \<open>PostgresResourceRepository\<close>, \<open>PostgresQueryLogRepository\<close>). A table is the list of its rows
  in the order they were inserted, each statement a list operation, the keys those of
  \<open>infra/postgres/migrations/\<close>: an insert that violates one raises. Rows are kept decoded; what
  the codecs of the JSON columns do is \<open>soul_json\<close> and \<open>handoff_json\<close> below. Rows with equal
  sort keys come in table order, one of the orders the database may choose.
\<close>

section \<open>Tables\<close>

definition unique_violation :: exn where
  "unique_violation = OtherError (lit ''duplicate key value violates unique constraint'')"

definition row_find :: "('a \<Rightarrow> pystr) \<Rightarrow> 'a list \<Rightarrow> pystr \<Rightarrow> 'a option" where
  "row_find ident rows i = find (\<lambda>x. ident x = i) rows"

definition row_exists :: "('a \<Rightarrow> pystr) \<Rightarrow> 'a list \<Rightarrow> pystr \<Rightarrow> bool" where
  "row_exists ident rows i \<longleftrightarrow> filter (\<lambda>x. ident x = i) rows \<noteq> []"

definition row_set :: "('a \<Rightarrow> pystr) \<Rightarrow> 'a list \<Rightarrow> pystr \<Rightarrow> ('a \<Rightarrow> 'a) \<Rightarrow> 'a list" where
  "row_set ident rows i f = map (\<lambda>x. if ident x = i then f x else x) rows"

definition row_delete :: "('a \<Rightarrow> pystr) \<Rightarrow> 'a list \<Rightarrow> pystr \<Rightarrow> 'a list" where
  "row_delete ident rows i = filter (\<lambda>x. ident x \<noteq> i) rows"

text \<open>A table refines a dictionary keyed by the primary key: its rows are the values.\<close>

definition pk_ok :: "('a \<Rightarrow> pystr) \<Rightarrow> 'a list \<Rightarrow> bool" where
  "pk_ok ident rows \<longleftrightarrow> distinct (map ident rows)"

lemma row_exists_iff: "row_exists ident rows i \<longleftrightarrow> i \<in> ident ` set rows"
  by (auto simp: row_exists_def filter_empty_conv)

lemma row_find_iff:
  assumes "pk_ok ident rows"
  shows "row_find ident rows i = Some x \<longleftrightarrow> x \<in> set rows \<and> ident x = i"
proof
  show "row_find ident rows i = Some x \<Longrightarrow> x \<in> set rows \<and> ident x = i"
    by (auto simp: row_find_def dest: find_Some_mem)
  assume "x \<in> set rows \<and> ident x = i"
  then show "row_find ident rows i = Some x"
    using assms unfolding row_find_def pk_ok_def
    by (intro find_unique) (auto simp: distinct_map dest: inj_onD)
qed

lemma row_find_None: "row_find ident rows i = None \<longleftrightarrow> i \<notin> ident ` set rows"
  by (auto simp: row_find_def find_None_iff)

lemma store_keys: "store_ok ident d \<Longrightarrow> map ident (dvalues d) = dkeys d"
  by (induction d) (auto simp: store_ok_def dvalues_def dkeys_def dict_ok_def)

lemma store_pk: "store_ok ident d \<Longrightarrow> pk_ok ident (dvalues d)"
  by (simp add: pk_ok_def store_keys) (simp add: store_ok_def dict_ok_def dkeys_def)

lemma row_find_refines: "store_ok ident d \<Longrightarrow> row_find ident (dvalues d) i = dget d i"
proof (induction d)
  case (Cons p d)
  obtain k x where "p = (k, x)" by (cases p)
  with Cons show ?case by (auto simp: row_find_def store_ok_def dict_ok_def)
qed (simp add: row_find_def)

lemma store_absent: "store_ok ident d \<Longrightarrow> dget d i = None \<Longrightarrow> x \<in> set (dvalues d) \<Longrightarrow> ident x \<noteq> i"
  using row_find_refines[of ident d i] row_find_None[of ident "dvalues d" i] by auto

lemma row_exists_refines: "store_ok ident d \<Longrightarrow> row_exists ident (dvalues d) i \<longleftrightarrow> dget d i \<noteq> None"
  by (simp add: row_exists_iff dget_None_iff flip: store_keys)

lemma row_set_refines:
  "store_ok ident d \<Longrightarrow> dget d i \<noteq> None \<Longrightarrow> dvalues (dset d i x) = row_set ident (dvalues d) i (\<lambda>_. x)"
proof (induction d)
  case (Cons p d)
  obtain k y where p: "p = (k, y)" by (cases p)
  have k: "k = ident y" "store_ok ident d" "k \<notin> set (dkeys d)"
    using Cons.prems(1) by (auto simp: p store_ok_def dict_ok_def dkeys_def)
  show ?case
  proof (cases "i = k")
    case True
    have "\<forall>z \<in> set (dvalues d). ident z \<noteq> k"
      using k store_keys[OF k(2)] by (metis imageI list.set_map)
    then have "map (\<lambda>z. if ident z = k then x else z) (dvalues d) = dvalues d"
      by (intro map_idI) auto
    with True k show ?thesis by (simp add: p row_set_def dset_def)
  next
    case False
    then have "dget d i \<noteq> None" using Cons.prems(2) by (simp add: p)
    from Cons.IH[OF k(2) this] False k(1) show ?thesis by (auto simp: p row_set_def dset_def)
  qed
qed simp

lemma row_delete_refines: "store_ok ident d \<Longrightarrow> dvalues (dpop d i) = row_delete ident (dvalues d) i"
proof (induction d)
  case (Cons p d)
  obtain k y where p: "p = (k, y)" by (cases p)
  with Cons show ?case by (auto simp: row_delete_def dpop_def store_ok_def dict_ok_def)
qed (simp add: row_delete_def dpop_def)

lemma pk_ok_set: "(\<And>x. ident (f x) = ident x) \<Longrightarrow> pk_ok ident (row_set ident rows i f) = pk_ok ident rows"
proof -
  assume "\<And>x. ident (f x) = ident x"
  then have "map ident (row_set ident rows i f) = map ident rows"
    by (simp add: row_set_def)
  then show ?thesis by (simp add: pk_ok_def)
qed

section \<open>Tenants\<close>

type_synonym tenant_table = "tenant list"

definition pg_tenant_add :: "tenant_table \<Rightarrow> tenant \<Rightarrow> tenant_table res" where
  "pg_tenant_add rows t =
     (if \<exists>x \<in> set rows. t_id x = t_id t \<or> t_slug x = t_slug t then Inl unique_violation
      else Inr (rows @ [t]))"

definition pg_tenant_by_slug :: "tenant_table \<Rightarrow> pystr \<Rightarrow> tenant option" where
  "pg_tenant_by_slug rows slug = find (\<lambda>t. t_slug t = slug) rows"

definition pg_tenant_by_phone :: "tenant_table \<Rightarrow> pystr \<Rightarrow> tenant option" where
  "pg_tenant_by_phone rows p = find (\<lambda>t. t_phone_number_id t = Some p) rows"

definition pg_tenant_list_all :: "tenant_table \<Rightarrow> tenant list" where
  "pg_tenant_list_all rows = sort_key t_created_at rows"

text \<open>The columns \<open>_UPDATE_SQL\<close> sets: all but the identifier and the creation time.\<close>

definition pg_tenant_columns :: "tenant \<Rightarrow> tenant \<Rightarrow> tenant" where
  "pg_tenant_columns t x = t\<lparr>t_id := t_id x, t_created_at := t_created_at x\<rparr>"

definition pg_tenant_update :: "tenant_table \<Rightarrow> tenant \<Rightarrow> tenant_table res" where
  "pg_tenant_update rows t =
     (if \<not> row_exists t_id rows (t_id t) then Inl (unknown_tenant (t_id t))
      else if \<exists>x \<in> set rows. t_id x \<noteq> t_id t \<and> t_slug x = t_slug t then Inl unique_violation
      else Inr (row_set t_id rows (t_id t) (pg_tenant_columns t)))"

definition pg_tenants :: "tenant_table tenant_port" where
  "pg_tenants =
     \<lparr>tp_add = pg_tenant_add, tp_get = row_find t_id, tp_by_slug = pg_tenant_by_slug,
      tp_by_phone = pg_tenant_by_phone, tp_list_all = pg_tenant_list_all, tp_update = pg_tenant_update\<rparr>"

lemma pg_tenants_simps [simp]:
  "tp_add pg_tenants = pg_tenant_add" "tp_get pg_tenants = row_find t_id"
  "tp_by_slug pg_tenants = pg_tenant_by_slug" "tp_by_phone pg_tenants = pg_tenant_by_phone"
  "tp_list_all pg_tenants = pg_tenant_list_all" "tp_update pg_tenants = pg_tenant_update"
  by (simp_all add: pg_tenants_def)

definition tenant_rows_ok :: "tenant_table \<Rightarrow> bool" where
  "tenant_rows_ok rows \<longleftrightarrow> pk_ok t_id rows \<and> distinct (map t_slug rows)"

definition tenant_fits :: "tenant_table \<Rightarrow> tenant \<Rightarrow> bool" where
  "tenant_fits rows t \<longleftrightarrow> (\<forall>x \<in> set rows.
     (t_id x \<noteq> t_id t \<longrightarrow> t_slug x \<noteq> t_slug t) \<and> (t_id x = t_id t \<longrightarrow> t_created_at x = t_created_at t))"

lemma distinct_mapD: "distinct (map f xs) \<Longrightarrow> x \<in> set xs \<Longrightarrow> y \<in> set xs \<Longrightarrow> f x = f y \<Longrightarrow> x = y"
  by (auto simp: distinct_map dest: inj_onD)

lemma pg_tenant_set:
  assumes "tenant_rows_ok rows" and "tenant_fits rows t" and "row_exists t_id rows (t_id t)"
  shows "tenant_rows_ok (row_set t_id rows (t_id t) (pg_tenant_columns t))"
    and "set (row_set t_id rows (t_id t) (pg_tenant_columns t)) = insert t {x \<in> set rows. t_id x \<noteq> t_id t}"
proof -
  have same: "pg_tenant_columns t x = t" if "x \<in> set rows" "t_id x = t_id t" for x
    using that assms(2) by (simp add: tenant_fits_def pg_tenant_columns_def)
  have rows: "row_set t_id rows (t_id t) (pg_tenant_columns t) = map (\<lambda>x. if t_id x = t_id t then t else x) rows"
    using same by (auto simp: row_set_def)
  obtain u where u: "u \<in> set rows" "t_id u = t_id t"
    using assms(3) by (auto simp: row_exists_iff)
  then show "set (row_set t_id rows (t_id t) (pg_tenant_columns t)) = insert t {x \<in> set rows. t_id x \<noteq> t_id t}"
    by (auto simp: rows image_iff)
  have ids: "map t_id (map (\<lambda>x. if t_id x = t_id t then t else x) rows) = map t_id rows" by simp
  let ?g = "\<lambda>x. if t_id x = t_id t then t else x"
  have inj: "inj_on (t_slug \<circ> ?g) (set rows)"
  proof (rule inj_onI)
    fix x y
    assume xy: "x \<in> set rows" "y \<in> set rows" "(t_slug \<circ> ?g) x = (t_slug \<circ> ?g) y"
    have slug: "t_slug z \<noteq> t_slug t" if "z \<in> set rows" "t_id z \<noteq> t_id t" for z
      using assms(2) that by (simp add: tenant_fits_def)
    have pk: "x = y" if "t_id x = t_id t" "t_id y = t_id t"
      using distinct_mapD[of t_id rows x y] assms(1) xy(1,2) that by (simp add: tenant_rows_ok_def pk_ok_def)
    have sl: "x = y" if "t_slug x = t_slug y"
      using distinct_mapD[of t_slug rows x y] assms(1) xy(1,2) that by (simp add: tenant_rows_ok_def)
    show "x = y"
    proof (cases "t_id x = t_id t")
      case True
      then have "t_id y = t_id t" using slug[OF xy(2)] xy(3) by (auto split: if_splits)
      with True pk show ?thesis by simp
    next
      case False
      then have "t_id y \<noteq> t_id t" using slug[OF xy(1)] xy(3) by (auto split: if_splits)
      with False xy(3) sl show ?thesis by simp
    qed
  qed
  have "distinct rows" using assms(1) by (auto simp: tenant_rows_ok_def distinct_map)
  with inj have "distinct (map t_slug (map ?g rows))" by (simp add: distinct_map)
  with assms(1) show "tenant_rows_ok (row_set t_id rows (t_id t) (pg_tenant_columns t))"
    unfolding tenant_rows_ok_def pk_ok_def rows ids by simp
qed

interpretation pg_repo: tenant_repository pg_tenants tenant_rows_ok tenant_fits
proof (unfold_locales, goal_cases)
  case (1 s i t)
  then show ?case by (simp add: row_find_iff tenant_rows_ok_def pg_tenant_list_all_def)
next
  case (2 s sl t)
  then show ?case by (auto simp: pg_tenant_by_slug_def pg_tenant_list_all_def dest: find_Some_mem)
next
  case (3 s sl t)
  then show ?case by (auto simp: pg_tenant_by_slug_def pg_tenant_list_all_def dest: find_None_all)
next
  case (4 s p t)
  then show ?case by (auto simp: pg_tenant_by_phone_def pg_tenant_list_all_def dest: find_Some_mem)
next
  case (5 s p t)
  then show ?case by (auto simp: pg_tenant_by_phone_def pg_tenant_list_all_def dest: find_None_all)
next
  case (6 s t)
  then show ?case by (auto simp: tenant_fits_def pg_tenant_list_all_def row_find_None image_iff)
next
  case (7 s t u)
  then have u: "u \<in> set s" "t_id u = t_id t" by (simp_all add: row_find_iff tenant_rows_ok_def)
  have "t_slug x \<noteq> t_slug t" if "x \<in> set s" "t_id x \<noteq> t_id t" for x
    using distinct_mapD[of t_slug s x u] 7 u that by (auto simp: tenant_rows_ok_def)
  moreover have "t_created_at x = t_created_at t" if "x \<in> set s" "t_id x = t_id t" for x
    using distinct_mapD[of t_id s x u] 7 u that by (auto simp: tenant_rows_ok_def pk_ok_def)
  ultimately show ?case by (simp add: tenant_fits_def)
next
  case (8 s t)
  then have i: "t_id t \<notin> t_id ` set s" by (simp add: row_find_None)
  have ne: "t_id x \<noteq> t_id t \<and> t_slug x \<noteq> t_slug t" if "x \<in> set s" for x
  proof -
    have "t_id x \<noteq> t_id t" using i that by (metis imageI)
    with 8(2) that show ?thesis by (simp add: tenant_fits_def)
  qed
  have sl: "t_slug t \<notin> t_slug ` set s"
  proof (rule notI, elim imageE)
    fix x assume "t_slug t = t_slug x" "x \<in> set s"
    with ne[of x] show False by simp
  qed
  have "pg_tenant_add s t = Inr (s @ [t])" using ne by (auto simp: pg_tenant_add_def)
  moreover have "tenant_rows_ok (s @ [t])" using 8(1) i sl by (simp add: tenant_rows_ok_def pk_ok_def)
  ultimately show ?case by (simp add: pg_tenant_list_all_def)
next
  case (9 s t)
  then show ?case by (simp add: pg_tenant_update_def row_find_None row_exists_iff)
next
  case (10 s t)
  then have ex: "row_exists t_id s (t_id t)" by (simp add: row_find_None row_exists_iff)
  moreover have "\<not> (\<exists>x \<in> set s. t_id x \<noteq> t_id t \<and> t_slug x = t_slug t)"
    using 10(2) by (auto simp: tenant_fits_def)
  ultimately have "pg_tenant_update s t = Inr (row_set t_id s (t_id t) (pg_tenant_columns t))"
    by (simp add: pg_tenant_update_def)
  with pg_tenant_set[OF 10(1,2) ex] show ?case by (simp add: pg_tenant_list_all_def)
qed

section \<open>The JSON columns of a tenant\<close>

text \<open>
  \<open>model_dump_json\<close> as a JSON value, and \<open>model_validate\<close>: a missing field takes its default, an
  unknown one is ignored, a field of another JSON type raises (pydantic's conversions between
  types never apply to what the encoder writes). A cell comes back as a value or, from another
  driver, as its text.
\<close>

definition str_field :: "json dict \<Rightarrow> pystr \<Rightarrow> pystr \<Rightarrow> pystr res" where
  "str_field d k dflt =
     (case dget d k of None \<Rightarrow> Inr dflt | Some (JStr s) \<Rightarrow> Inr s
      | Some _ \<Rightarrow> Inl (ValueError (k @ (lit '': Input should be a valid string''))))"

definition bool_field :: "json dict \<Rightarrow> pystr \<Rightarrow> bool \<Rightarrow> bool res" where
  "bool_field d k dflt =
     (case dget d k of None \<Rightarrow> Inr dflt | Some (JBool b) \<Rightarrow> Inr b
      | Some _ \<Rightarrow> Inl (ValueError (k @ (lit '': Input should be a valid boolean''))))"

definition int_field :: "json dict \<Rightarrow> pystr \<Rightarrow> int \<Rightarrow> int res" where
  "int_field d k dflt =
     (case dget d k of None \<Rightarrow> Inr dflt | Some (JInt i) \<Rightarrow> Inr i
      | Some _ \<Rightarrow> Inl (ValueError (k @ (lit '': Input should be a valid integer''))))"

definition opt_str_field :: "json dict \<Rightarrow> pystr \<Rightarrow> pystr option res" where
  "opt_str_field d k =
     (case dget d k of None \<Rightarrow> Inr None | Some JNull \<Rightarrow> Inr None | Some (JStr s) \<Rightarrow> Inr (Some s)
      | Some _ \<Rightarrow> Inl (ValueError (k @ (lit '': Input should be a valid string''))))"

definition strs_field :: "json dict \<Rightarrow> pystr \<Rightarrow> pystr list \<Rightarrow> pystr list res" where
  "strs_field d k dflt =
     (case dget d k of
        None \<Rightarrow> Inr dflt
      | Some (JList xs) \<Rightarrow>
          if list_all (\<lambda>x. as_str x \<noteq> None) xs then Inr (map (\<lambda>x. the (as_str x)) xs)
          else Inl (ValueError (k @ (lit '': Input should be a valid string'')))
      | Some _ \<Rightarrow> Inl (ValueError (k @ (lit '': Input should be a valid list''))))"

definition soul_json :: "soul_config \<Rightarrow> json" where
  "soul_json c = JObj [((lit ''language''), JStr (sc_language c)), ((lit ''tone''), JStr (sc_tone c)),
     ((lit ''mission''), JStr (sc_mission c)), ((lit ''rules''), JList (map JStr (sc_rules c))),
     ((lit ''include_skills''), JBool (sc_include_skills c))]"

definition validate_soul :: "json \<Rightarrow> soul_config res" where
  "validate_soul j =
     (case j of
        JObj d \<Rightarrow>
          and_then (str_field d (lit ''language'') (sc_language default_soul)) (\<lambda>l.
          and_then (str_field d (lit ''tone'') (sc_tone default_soul)) (\<lambda>t.
          and_then (str_field d (lit ''mission'') (sc_mission default_soul)) (\<lambda>m.
          and_then (strs_field d (lit ''rules'') (sc_rules default_soul)) (\<lambda>r.
          and_then (bool_field d (lit ''include_skills'') (sc_include_skills default_soul)) (\<lambda>i.
            Inr \<lparr>sc_language = l, sc_tone = t, sc_mission = m, sc_rules = r, sc_include_skills = i\<rparr>)))))
      | _ \<Rightarrow> Inl (ValueError (lit ''Input should be a valid dictionary'')))"

definition handoff_json :: "handoff_config \<Rightarrow> json" where
  "handoff_json c = JObj [((lit ''enabled''), JBool (hc_enabled c)), ((lit ''keywords''), JList (map JStr (hc_keywords c))),
     ((lit ''webhook_url''), (case hc_webhook_url c of None \<Rightarrow> JNull | Some u \<Rightarrow> JStr u)),
     ((lit ''handoff_message''), JStr (hc_message c)), ((lit ''auto_pause_hours''), JInt (hc_auto_pause_hours c))]"

definition validate_handoff :: "json \<Rightarrow> handoff_config res" where
  "validate_handoff j =
     (case j of
        JObj d \<Rightarrow>
          and_then (bool_field d (lit ''enabled'') (hc_enabled default_handoff)) (\<lambda>e.
          and_then (strs_field d (lit ''keywords'') (hc_keywords default_handoff)) (\<lambda>k.
          and_then (opt_str_field d (lit ''webhook_url'')) (\<lambda>u.
          and_then (str_field d (lit ''handoff_message'') (hc_message default_handoff)) (\<lambda>m.
          and_then (int_field d (lit ''auto_pause_hours'') (hc_auto_pause_hours default_handoff)) (\<lambda>h.
            Inr \<lparr>hc_enabled = e, hc_keywords = k, hc_webhook_url = u, hc_message = m,
                 hc_auto_pause_hours = h\<rparr>)))))
      | _ \<Rightarrow> Inl (ValueError (lit ''Input should be a valid dictionary'')))"

definition read_cell :: "(json \<Rightarrow> 'a res) \<Rightarrow> json option \<Rightarrow> 'a option res" where
  "read_cell validate cell =
     (case cell of
        None \<Rightarrow> Inr None
      | Some (JStr text) \<Rightarrow>
          (case loads text of
             None \<Rightarrow> Inl (ValueError (lit ''Invalid JSON''))
           | Some j \<Rightarrow> and_then (validate j) (\<lambda>c. Inr (Some c)))
      | Some j \<Rightarrow> and_then (validate j) (\<lambda>c. Inr (Some c)))"

definition soul_to_cell :: "soul_config option \<Rightarrow> json option" where
  "soul_to_cell c = map_option soul_json c"

definition cell_to_soul :: "json option \<Rightarrow> soul_config option res" where
  "cell_to_soul cell = read_cell validate_soul cell"

definition handoff_to_cell :: "handoff_config option \<Rightarrow> json option" where
  "handoff_to_cell c = map_option handoff_json c"

definition cell_to_handoff :: "json option \<Rightarrow> handoff_config option res" where
  "cell_to_handoff cell = read_cell validate_handoff cell"

lemma strs_back: "strs_field ((k, JList (map JStr xs)) # d) k dflt = Inr xs"
  by (simp add: strs_field_def list_all_iff as_str_def comp_def)

lemma soul_back: "validate_soul (soul_json c) = Inr c"
proof -
  have "strs_field d (lit ''rules'') dflt = Inr (sc_rules c)" if "dget d (lit ''rules'') = Some (JList (map JStr (sc_rules c)))" for d dflt
    using that by (simp add: strs_field_def list_all_iff as_str_def comp_def)
  then show ?thesis
    by (simp add: validate_soul_def soul_json_def str_field_def bool_field_def)
qed

lemma handoff_back: "validate_handoff (handoff_json c) = Inr c"
proof -
  have "strs_field d (lit ''keywords'') dflt = Inr (hc_keywords c)" if "dget d (lit ''keywords'') = Some (JList (map JStr (hc_keywords c)))" for d dflt
    using that by (simp add: strs_field_def list_all_iff as_str_def comp_def)
  then show ?thesis
    by (simp add: validate_handoff_def handoff_json_def str_field_def bool_field_def opt_str_field_def
        int_field_def split: option.split)
qed

text \<open>Reading a cell gives back what was written, as a value and as text.\<close>

lemma plain_soul: "plain (soul_json c)"
  by (simp add: soul_json_def dict_ok_def)

lemma plain_handoff: "plain (handoff_json c)"
  by (simp add: handoff_json_def dict_ok_def split: option.split)

lemma cells_back:
  "cell_to_soul (soul_to_cell x) = Inr x" "cell_to_handoff (handoff_to_cell y) = Inr y"
  "cell_to_soul (Some (JStr (dumps False (soul_json c)))) = Inr (Some c)"
  "cell_to_handoff (Some (JStr (dumps False (handoff_json h)))) = Inr (Some h)"
  using soul_back handoff_back loads_dumps[OF plain_soul] loads_dumps[OF plain_handoff]
  by (auto simp: cell_to_soul_def soul_to_cell_def cell_to_handoff_def handoff_to_cell_def read_cell_def
      soul_json_def handoff_json_def split: option.split)

section \<open>Templates, users, sessions\<close>

definition pg_template_add :: "message_template list \<Rightarrow> message_template \<Rightarrow> message_template list res" where
  "pg_template_add rows m =
     (if \<exists>x \<in> set rows. mt_id x = mt_id m \<or> template_key x = template_key m then Inl unique_violation
      else Inr (rows @ [m]))"

definition pg_template_list_for :: "message_template list \<Rightarrow> pystr \<Rightarrow> message_template list" where
  "pg_template_list_for rows t = sort_desc mt_created_at (filter (\<lambda>m. mt_tenant_id m = t) rows)"

definition pg_template_columns :: "message_template \<Rightarrow> message_template \<Rightarrow> message_template" where
  "pg_template_columns m x = m\<lparr>mt_id := mt_id x, mt_tenant_id := mt_tenant_id x, mt_created_at := mt_created_at x\<rparr>"

definition pg_template_update :: "message_template list \<Rightarrow> message_template \<Rightarrow> message_template list res" where
  "pg_template_update rows m =
     (if \<not> row_exists mt_id rows (mt_id m) then Inl (KeyError ((lit ''unknown template: '') @ mt_id m))
      else (let rows' = row_set mt_id rows (mt_id m) (pg_template_columns m)
            in if distinct (map template_key rows') then Inr rows' else Inl unique_violation))"

definition pg_template_delete :: "message_template list \<Rightarrow> pystr \<Rightarrow> message_template list \<times> bool" where
  "pg_template_delete rows i =
     (if \<not> row_exists mt_id rows i then (rows, False) else (row_delete mt_id rows i, True))"

definition pg_user_by_email :: "user list \<Rightarrow> pystr \<Rightarrow> user option" where
  "pg_user_by_email rows email = find (\<lambda>u. lower (u_email u) = lower email) rows"

definition pg_user_add :: "user list \<Rightarrow> user \<Rightarrow> (user list \<times> user) res" where
  "pg_user_add rows u =
     (if pg_user_by_email rows (u_email u) \<noteq> None then Inl (ValueError ((lit ''email already exists: '') @ u_email u))
      else if u_id u \<in> u_id ` set rows then Inl unique_violation
      else Inr (rows @ [u], u))"

definition pg_user_list_all :: "user list \<Rightarrow> user list" where
  "pg_user_list_all rows = sort_key u_created_at rows"

definition pg_session_add :: "session list \<Rightarrow> session \<Rightarrow> session list res" where
  "pg_session_add rows s = (if s_token s \<in> s_token ` set rows then Inl unique_violation else Inr (rows @ [s]))"

definition pg_session_delete :: "session list \<Rightarrow> pystr \<Rightarrow> session list \<times> bool" where
  "pg_session_delete rows tok =
     (if \<not> row_exists s_token rows tok then (rows, False) else (row_delete s_token rows tok, True))"

text \<open>Each of them refines its in-memory counterpart, the rows being the values of the store.\<close>

lemma pg_template_refines:
  assumes "templates_ok d"
  shows "row_find mt_id (dvalues d) i = template_get d i"
    and "pg_template_list_for (dvalues d) t = template_list_for d t"
    and "pg_template_delete (dvalues d) i = (dvalues (fst (template_delete d i)), snd (template_delete d i))"
    and "template_get d (mt_id m) = None \<Longrightarrow> template_add d m = Inr (d', m') \<Longrightarrow>
           pg_template_add (dvalues d) m = Inr (dvalues d')"
    and "template_add d m = Inl e \<Longrightarrow> pg_template_add (dvalues d) m = Inl unique_violation"
proof -
  have ok: "store_ok mt_id d" using assms by (simp add: templates_ok_def)
  show "row_find mt_id (dvalues d) i = template_get d i"
    by (simp add: row_find_refines[OF ok] template_get_def)
  show "pg_template_list_for (dvalues d) t = template_list_for d t"
    by (simp add: pg_template_list_for_def template_list_for_def)
  show "pg_template_delete (dvalues d) i = (dvalues (fst (template_delete d i)), snd (template_delete d i))"
  proof (cases "dget d i = None")
    case True
    then have "dpop d i = d" by (simp add: dget_None_iff dpop_absent)
    with True show ?thesis by (simp add: pg_template_delete_def template_delete_def row_exists_refines[OF ok])
  next
    case False
    then show ?thesis
      by (simp add: pg_template_delete_def template_delete_def row_exists_refines[OF ok] row_delete_refines[OF ok])
  qed
  show "pg_template_add (dvalues d) m = Inl unique_violation" if "template_add d m = Inl e"
  proof -
    have "\<exists>x \<in> set (dvalues d). template_key x = template_key m"
      using that by (simp add: template_add_def template_key_def split: if_splits)
    then have "\<exists>x \<in> set (dvalues d). mt_id x = mt_id m \<or> template_key x = template_key m" by blast
    then show ?thesis unfolding pg_template_add_def by (rule if_P)
  qed
  show "pg_template_add (dvalues d) m = Inr (dvalues d')"
    if new: "template_get d (mt_id m) = None" and add: "template_add d m = Inr (d', m')"
  proof -
    have "mt_id x \<noteq> mt_id m" if "x \<in> set (dvalues d)" for x
      using store_absent[OF ok _ that] new by (simp add: template_get_def)
    moreover have "template_key x \<noteq> template_key m" if "x \<in> set (dvalues d)" for x
      using add that by (auto simp: template_add_def template_key_def split: if_splits)
    ultimately have "pg_template_add (dvalues d) m = Inr (dvalues d @ [m])"
      by (auto simp: pg_template_add_def)
    then show ?thesis using template_add_ok[OF assms new] add by simp
  qed
qed

lemma pg_template_update_refines:
  assumes "templates_ok d" and "template_get d (mt_id m) = Some old" and "template_key m = template_key old"
    and "mt_created_at m = mt_created_at old"
  shows "template_update d m = Inr (dset d (mt_id m) m, m)"
    and "pg_template_update (dvalues d) m = Inr (dvalues (dset d (mt_id m) m))"
proof -
  have ok: "store_ok mt_id d" using assms by (simp add: templates_ok_def)
  have some: "dget d (mt_id m) \<noteq> None" using assms(2) by (simp add: template_get_def)
  then show u: "template_update d m = Inr (dset d (mt_id m) m, m)" by (simp add: template_update_def)
  have old: "x = old" if "x \<in> set (dvalues d)" "mt_id x = mt_id m" for x
    using that assms(2) template_repo.get_mem[OF ok, of "mt_id m" x] by simp
  have "pg_template_columns m x = m" if "x \<in> set (dvalues d)" "mt_id x = mt_id m" for x
    using old[OF that] that(2) assms(3,4) by (simp add: pg_template_columns_def template_key_def)
  then have "row_set mt_id (dvalues d) (mt_id m) (pg_template_columns m) = row_set mt_id (dvalues d) (mt_id m) (\<lambda>_. m)"
    by (auto simp: row_set_def)
  then have rows: "row_set mt_id (dvalues d) (mt_id m) (pg_template_columns m) = dvalues (dset d (mt_id m) m)"
    using row_set_refines[OF ok some] by simp
  have ok2: "templates_ok (dset d (mt_id m) m)"
    using template_update_ok[OF assms(1) u assms(2,3)] by simp
  have "store_ok mt_id (dset d (mt_id m) m)" using ok by (simp add: store_intros)
  then have "distinct (map mt_id (dvalues (dset d (mt_id m) m)))"
    unfolding pk_ok_def[symmetric] by (rule store_pk)
  note ids = this
  have "inj_on template_key (set (dvalues (dset d (mt_id m) m)))"
  proof (rule inj_onI)
    fix a b
    assume ab: "a \<in> set (dvalues (dset d (mt_id m) m))" "b \<in> set (dvalues (dset d (mt_id m) m))"
      "template_key a = template_key b"
    show "a = b" by (rule distinct_mapD[OF ids ab(1,2) templates_okD[OF ok2 ab]])
  qed
  moreover have "distinct (dvalues (dset d (mt_id m) m))" using ids by (simp add: distinct_map)
  ultimately have "distinct (map template_key (dvalues (dset d (mt_id m) m)))"
    by (simp add: distinct_map)
  then show "pg_template_update (dvalues d) m = Inr (dvalues (dset d (mt_id m) m))"
    using some by (simp add: pg_template_update_def Let_def rows row_exists_refines[OF ok])
qed

lemma pg_user_refines:
  assumes "store_ok u_id d" and "user_get d (u_id u) = None"
  shows "pg_user_add (dvalues d) u = (case user_add d u of Inl e \<Rightarrow> Inl e | Inr (d', u') \<Rightarrow> Inr (dvalues d', u'))"
    and "pg_user_by_email (dvalues d) email = user_by_email d email"
    and "row_find u_id (dvalues d) i = user_get d i"
proof -
  show "pg_user_by_email (dvalues d) email = user_by_email d email"
    by (simp add: pg_user_by_email_def user_by_email_def)
  show "row_find u_id (dvalues d) i = user_get d i"
    by (simp add: row_find_refines[OF assms(1)] user_get_def)
  have new: "u_id u \<notin> u_id ` set (dvalues d)"
    using assms(2) row_find_refines[OF assms(1), of "u_id u"] row_find_None[of u_id "dvalues d" "u_id u"]
    by (simp add: user_get_def)
  have "pg_user_by_email (dvalues d) (u_email u) \<noteq> None \<longleftrightarrow> (\<exists>x \<in> set (dvalues d). lower (u_email x) = lower (u_email u))"
    by (auto simp: pg_user_by_email_def find_None_iff)
  then show "pg_user_add (dvalues d) u = (case user_add d u of Inl e \<Rightarrow> Inl e | Inr (d', u') \<Rightarrow> Inr (dvalues d', u'))"
    using new assms(2) by (simp add: pg_user_add_def user_add_def user_get_def store_intros)
qed

lemma pg_session_refines:
  assumes "store_ok s_token d"
  shows "session_get d (s_token s) = None \<Longrightarrow> pg_session_add (dvalues d) s = Inr (dvalues (session_add d s))"
    and "row_find s_token (dvalues d) tok = session_get d tok"
    and "pg_session_delete (dvalues d) tok = (dvalues (fst (session_delete d tok)), snd (session_delete d tok))"
proof -
  show g: "row_find s_token (dvalues d) tok = session_get d tok" for tok
    by (simp add: row_find_refines[OF assms] session_get_def)
  show "pg_session_delete (dvalues d) tok = (dvalues (fst (session_delete d tok)), snd (session_delete d tok))"
  proof (cases "dget d tok = None")
    case True
    then have "dpop d tok = d" by (simp add: dget_None_iff dpop_absent)
    with True show ?thesis by (simp add: pg_session_delete_def session_delete_def row_exists_refines[OF assms])
  next
    case False
    then show ?thesis
      by (simp add: pg_session_delete_def session_delete_def row_exists_refines[OF assms] row_delete_refines[OF assms])
  qed
  show "pg_session_add (dvalues d) s = Inr (dvalues (session_add d s))" if "session_get d (s_token s) = None"
    using that g[of "s_token s"] row_find_None[of s_token "dvalues d" "s_token s"]
    by (simp add: pg_session_add_def session_add_def session_get_def store_intros)
qed

section \<open>Subscriptions and data sources\<close>

definition pg_sub_add :: "subscription list \<Rightarrow> subscription \<Rightarrow> subscription list res" where
  "pg_sub_add rows s =
     (if \<exists>x \<in> set rows. su_id x = su_id s
         \<or> (su_mp_preapproval_id s \<noteq> None \<and> su_mp_preapproval_id x = su_mp_preapproval_id s)
      then Inl unique_violation else Inr (rows @ [s]))"

definition pg_sub_by_preapproval :: "subscription list \<Rightarrow> pystr \<Rightarrow> subscription option" where
  "pg_sub_by_preapproval rows pid = find (\<lambda>s. su_mp_preapproval_id s = Some pid) rows"

definition pg_sub_list_for :: "subscription list \<Rightarrow> pystr \<Rightarrow> subscription list" where
  "pg_sub_list_for rows t = sort_desc su_created_at (filter (\<lambda>s. su_tenant_id s = t) rows)"

definition first_row :: "'a list \<Rightarrow> 'a option" where
  "first_row rows = (case rows of [] \<Rightarrow> None | x # _ \<Rightarrow> Some x)"

definition pg_sub_active :: "subscription list \<Rightarrow> pystr \<Rightarrow> subscription option" where
  "pg_sub_active rows t =
     first_row (sort_desc su_created_at (filter (\<lambda>s. su_tenant_id s = t \<and> su_status s = AUTHORIZED) rows))"

text \<open>The update of an unknown subscription changes no row and returns the argument.\<close>

definition pg_sub_columns :: "subscription \<Rightarrow> subscription \<Rightarrow> subscription" where
  "pg_sub_columns s x = s\<lparr>su_id := su_id x, su_tenant_id := su_tenant_id x, su_created_at := su_created_at x\<rparr>"

definition pg_sub_update :: "subscription list \<Rightarrow> subscription \<Rightarrow> (subscription list \<times> subscription) res" where
  "pg_sub_update rows s =
     (if row_exists su_id rows (su_id s)
         \<and> (\<exists>x \<in> set rows. su_id x \<noteq> su_id s \<and> su_mp_preapproval_id s \<noteq> None
              \<and> su_mp_preapproval_id x = su_mp_preapproval_id s)
      then Inl unique_violation
      else Inr (row_set su_id rows (su_id s) (pg_sub_columns s), s))"

definition pg_src_add :: "data_source list \<Rightarrow> data_source \<Rightarrow> data_source list res" where
  "pg_src_add rows s = (if ds_id s \<in> ds_id ` set rows then Inl unique_violation else Inr (rows @ [s]))"

definition pg_src_list_for :: "data_source list \<Rightarrow> pystr \<Rightarrow> data_source list" where
  "pg_src_list_for rows t = sort_desc ds_created_at (filter (\<lambda>s. ds_tenant_id s = t) rows)"

definition pg_src_list_all_active :: "data_source list \<Rightarrow> data_source list" where
  "pg_src_list_all_active rows = sort_desc ds_created_at (filter (\<lambda>s. ds_status s = (lit ''active'')) rows)"

definition pg_src_columns :: "data_source \<Rightarrow> data_source \<Rightarrow> data_source" where
  "pg_src_columns s x = s\<lparr>ds_id := ds_id x, ds_tenant_id := ds_tenant_id x, ds_created_at := ds_created_at x\<rparr>"

definition pg_src_update :: "data_source list \<Rightarrow> data_source \<Rightarrow> data_source list" where
  "pg_src_update rows s = row_set ds_id rows (ds_id s) (pg_src_columns s)"

lemma find_rev_filter: "find P xs = first_row (filter P xs)"
  by (induction xs) (auto simp: first_row_def)

lemma filter_sort_desc: "filter P (sort_desc f xs) = sort_desc f (filter P xs)"
  by (simp add: sort_desc_def filter_sort flip: rev_filter)

lemma pg_sub_reads:
  "pg_sub_by_preapproval (dvalues d) pid = sub_by_preapproval d pid"
  "pg_sub_list_for (dvalues d) t = sub_list_for d t"
  "pg_sub_active (dvalues d) t = active_for_tenant d t"
  by (simp_all add: pg_sub_by_preapproval_def sub_by_preapproval_def pg_sub_list_for_def sub_list_for_def
      pg_sub_active_def active_for_tenant_def find_rev_filter filter_sort_desc conj_commute)

lemma pg_sub_update_refines:
  assumes "store_ok su_id d" and "sub_get d (su_id s) = Some old"
    and "su_tenant_id s = su_tenant_id old" and "su_created_at s = su_created_at old"
    and "su_mp_preapproval_id s = su_mp_preapproval_id old"
    and "distinct (map su_mp_preapproval_id (filter (\<lambda>x. su_mp_preapproval_id x \<noteq> None) (dvalues d)))"
  shows "pg_sub_update (dvalues d) s = Inr (dvalues (dset d (su_id s) s), s)"
proof -
  have old: "x = old" if "x \<in> set (dvalues d)" "su_id x = su_id s" for x
    using that assms(2) subs.get_mem[OF assms(1), of "su_id s" x] by simp
  have o: "old \<in> set (dvalues d)" "su_id old = su_id s"
    using assms(2) subs.get_mem[OF assms(1)] by simp_all
  have "pg_sub_columns s x = s" if "x \<in> set (dvalues d)" "su_id x = su_id s" for x
    using old[OF that] that(2) assms(3,4) by (simp add: pg_sub_columns_def)
  then have "row_set su_id (dvalues d) (su_id s) (pg_sub_columns s) = row_set su_id (dvalues d) (su_id s) (\<lambda>_. s)"
    by (auto simp: row_set_def)
  moreover have "dvalues (dset d (su_id s) s) = row_set su_id (dvalues d) (su_id s) (\<lambda>_. s)"
    using assms(2) by (intro row_set_refines[OF assms(1)]) (simp add: sub_get_def)
  moreover have "\<not> (\<exists>x \<in> set (dvalues d). su_id x \<noteq> su_id s \<and> su_mp_preapproval_id s \<noteq> None
              \<and> su_mp_preapproval_id x = su_mp_preapproval_id s)"
  proof (intro notI, elim bexE conjE)
    fix x
    assume x: "x \<in> set (dvalues d)" "su_id x \<noteq> su_id s" "su_mp_preapproval_id s \<noteq> None"
      "su_mp_preapproval_id x = su_mp_preapproval_id s"
    from x(1,3,4) o(1) assms(5) have "x = old"
      by (intro distinct_mapD[OF assms(6)]) simp_all
    with x(2) o(2) show False by simp
  qed
  ultimately show ?thesis by (simp add: pg_sub_update_def)
qed

section \<open>Items and the query log\<close>

text \<open>
  The conflict target of the upsert is the unique key (tenant, source, external id), which null
  values never violate; a clash of the primary key alone raises. On a conflict the row keeps its
  identifier and its creation time. The foreign key to the sources is not modelled.
\<close>

definition pg_res_add :: "resource list \<Rightarrow> resource \<Rightarrow> resource list res" where
  "pg_res_add rows r =
     (if \<exists>x \<in> set rows. re_id x = re_id r \<or> clash x r then Inl unique_violation else Inr (rows @ [r]))"

definition pg_res_conflict :: "resource \<Rightarrow> resource \<Rightarrow> resource" where
  "pg_res_conflict r x =
     x\<lparr>re_data := re_data r, re_summary := re_summary r, re_status := re_status r,
       re_updated_at := re_updated_at r, re_kind := re_kind r\<rparr>"

definition pg_res_upsert :: "resource list \<Rightarrow> resource \<Rightarrow> resource list res" where
  "pg_res_upsert rows r =
     (if \<exists>x \<in> set rows. clash x r then Inr (map (\<lambda>x. if clash x r then pg_res_conflict r x else x) rows)
      else if re_id r \<in> re_id ` set rows then Inl unique_violation
      else Inr (rows @ [r]))"

definition pg_res_find_by_external_id :: "resource list \<Rightarrow> pystr \<Rightarrow> pystr \<Rightarrow> pystr \<Rightarrow> resource option" where
  "pg_res_find_by_external_id rows t k x =
     first_row (sort_desc re_created_at
       (filter (\<lambda>r. re_tenant_id r = t \<and> re_kind r = k \<and> re_external_id r = Some x) rows))"

definition pg_res_list_for :: "resource list \<Rightarrow> pystr \<Rightarrow> pystr option \<Rightarrow> nat \<Rightarrow> resource list" where
  "pg_res_list_for rows t kind lmt =
     take lmt (sort_desc re_created_at
       (filter (\<lambda>r. re_tenant_id r = t \<and> re_status r = (lit ''active'') \<and> (kind = None \<or> kind = Some (re_kind r))) rows))"

record qlog_table =
  qt_rows :: "query_log_entry list"
  qt_next :: int

definition pg_qlog_record :: "qlog_table \<Rightarrow> query_log_entry \<Rightarrow> qlog_table \<times> query_log_entry" where
  "pg_qlog_record q e =
     (let e' = e\<lparr>ql_id := Some (qt_next q)\<rparr>
      in (\<lparr>qt_rows = qt_rows q @ [e'], qt_next = qt_next q + 1\<rparr>, e'))"

definition pg_qlog_list_recent :: "qlog_table \<Rightarrow> pystr \<Rightarrow> nat \<Rightarrow> query_log_entry list" where
  "pg_qlog_list_recent q t lmt =
     take lmt (sort_desc ql_created_at (filter (\<lambda>e. ql_tenant_id e = t) (qt_rows q)))"

text \<open>
  An item without a source cannot be written back: the upsert of a stored contact, which is what
  the CRM does for every further message of a buyer, violates the primary key.
\<close>

lemma pg_upsert_stored_fails:
  assumes "x \<in> set rows" and "re_id r = re_id x" and "re_source_id r = None"
  shows "pg_res_upsert rows r = Inl unique_violation"
  using assms by (auto simp: pg_res_upsert_def clash_def)

lemma pg_upsert_conflict:
  assumes "x \<in> set rows" and "clash x r" and "dedup_ok (set rows)" and "pk_ok re_id rows"
  shows "\<exists>rows'. pg_res_upsert rows r = Inr rows' \<and> map re_id rows' = map re_id rows
    \<and> row_find re_id rows' (re_id x) = Some (pg_res_conflict r x)
    \<and> (\<forall>i. i \<noteq> re_id x \<longrightarrow> row_find re_id rows' i = row_find re_id rows i)"
proof -
  have only: "y = x" if "y \<in> set rows" "clash y r" for y
  proof -
    have "clash y x" using that(2) assms(2) by (auto simp: clash_def dedup_key_def)
    then have "re_id y = re_id x" using assms(1,3) that(1) unfolding dedup_ok_def by blast
    then show ?thesis using distinct_mapD[of re_id rows y x] assms(1,4) that(1) by (simp add: pk_ok_def)
  qed
  let ?rows = "map (\<lambda>y. if clash y r then pg_res_conflict r y else y) rows"
  have id: "re_id (if clash y r then pg_res_conflict r y else y) = re_id y" for y
    by (simp add: pg_res_conflict_def)
  have ids: "map re_id ?rows = map re_id rows" using id by simp
  have pk: "pk_ok re_id ?rows" using assms(4) unfolding pk_ok_def ids .
  have "row_find re_id ?rows (re_id x) = Some (pg_res_conflict r x)"
    unfolding row_find_iff[OF pk] using assms(1,2) by (auto simp: pg_res_conflict_def image_iff)
  moreover have "row_find re_id ?rows i = row_find re_id rows i" if "i \<noteq> re_id x" for i
  proof -
    have "find (\<lambda>y. re_id y = i) (map (\<lambda>y. if clash y r then pg_res_conflict r y else y) ys) = find (\<lambda>y. re_id y = i) ys"
      if "set ys \<subseteq> set rows" for ys
      using that \<open>i \<noteq> re_id x\<close> only by (induction ys) (auto simp: pg_res_conflict_def)
    then show ?thesis by (simp add: row_find_def)
  qed
  moreover have "pg_res_upsert rows r = Inr ?rows" using assms(1,2) by (auto simp: pg_res_upsert_def)
  ultimately show ?thesis using ids by blast
qed

lemma pg_res_reads:
  "store_ok re_id d \<Longrightarrow> row_find re_id (dvalues d) i = res_get d i"
  "pg_res_list_for (dvalues d) t k n = res_list_for d t k (int n)"
  by (simp_all add: row_find_refines res_get_def pg_res_list_for_def res_list_for_def Let_def slice_to_def)

end
