(* ===== verification/Crm_Extractor.thy ===== *)
theory Crm_Extractor
  imports Crm_Recorder Agent Py_Json
begin

text \<open>
  The CRM extractor (\<open>sdk/wapsell/crm/extractor.py\<close>): the conversation goes to a language model,
  its answer is read as JSON into an \<open>extraction\<close>, and the extraction is applied to the item
  store that the recorder owns. The model is an argument; an exception of it other than
  \<open>LLMError\<close> is the caller's. \<open>apply_extraction\<close> reads the clock once (\<open>now\<close>), and the items it
  creates take their identifiers from \<open>uids\<close>, numbered by the position of the task, the breadcrumb
  of a stage transition taking the number after the last task.
\<close>

definition task_kind :: pystr where
  "task_kind = (lit ''task'')"

definition auto_source :: pystr where
  "auto_source = (lit ''llm-extractor'')"

definition max_turns :: int where
  "max_turns = 20"

definition max_task_title_chars :: nat where
  "max_task_title_chars = 200"

record extracted_task =
  et_title :: pystr
  et_due_at :: "pystr option"
  et_priority :: "pystr option"

record stage_transition =
  tr_from :: "pystr option"
  tr_to :: pystr
  tr_reason :: "pystr option"

record extraction =
  ex_contact_updates :: "json dict"
  ex_new_tasks :: "extracted_task list"
  ex_new_tags :: "pystr list"
  ex_stage_transition :: "stage_transition option"

definition no_extraction :: extraction where
  "no_extraction = \<lparr>ex_contact_updates = [], ex_new_tasks = [], ex_new_tags = [], ex_stage_transition = None\<rparr>"

definition extraction_empty :: "extraction \<Rightarrow> bool" where
  "extraction_empty r \<longleftrightarrow>
     ex_contact_updates r = [] \<and> ex_new_tasks r = [] \<and> ex_new_tags r = [] \<and> ex_stage_transition r = None"

record conversation_turn =
  ct_role :: pystr
  ct_text :: pystr
  ct_at :: "pystr option"

section \<open>Reading the answer\<close>

text \<open>\<open>re.search(r"\{.*\}", s, re.DOTALL)\<close>: from the first opening to the last closing brace.\<close>

definition object_span :: "pystr \<Rightarrow> pystr option" where
  "object_span s =
     (let r = rev (dropWhile (\<lambda>c. c \<noteq> 125) (rev (dropWhile (\<lambda>c. c \<noteq> 123) s)))
      in if r = [] then None else Some r)"

definition obj_or_empty :: "json \<Rightarrow> json dict" where
  "obj_or_empty j = (case j of JObj d \<Rightarrow> d | _ \<Rightarrow> [])"

definition extract_json_object :: "pystr \<Rightarrow> json dict" where
  "extract_json_object s =
     (if s = [] then []
      else (case loads (strip s) of
              Some parsed \<Rightarrow> obj_or_empty parsed
            | None \<Rightarrow>
                (case object_span (strip s) of
                   None \<Rightarrow> []
                 | Some m \<Rightarrow> (case loads m of None \<Rightarrow> [] | Some parsed \<Rightarrow> obj_or_empty parsed))))"

text \<open>\<open>x if isinstance(x, str) and x.strip() else None\<close>.\<close>

definition filled :: "json \<Rightarrow> pystr option" where
  "filled j = (case j of JStr s \<Rightarrow> if strip s \<noteq> [] then Some s else None | _ \<Rightarrow> None)"

definition parse_task :: "json \<Rightarrow> extracted_task option" where
  "parse_task entry =
     (case entry of
        JObj d \<Rightarrow>
          (case filled (jget d ''title'') of
             None \<Rightarrow> None
           | Some title \<Rightarrow> Some \<lparr>et_title = strip title, et_due_at = filled (jget d ''due_at''),
                                 et_priority = filled (jget d ''priority'')\<rparr>)
      | _ \<Rightarrow> None)"

definition parse_transition :: "json \<Rightarrow> stage_transition option" where
  "parse_transition j =
     (case j of
        JObj d \<Rightarrow>
          (case filled (jget d ''to'') of
             None \<Rightarrow> None
           | Some to_stage \<Rightarrow>
               Some \<lparr>tr_from = map_option strip (filled (jget d ''from'')), tr_to = strip to_stage,
                     tr_reason = map_option strip (filled (jget d ''reason''))\<rparr>)
      | _ \<Rightarrow> None)"

definition parse_reply :: "pystr \<Rightarrow> extraction" where
  "parse_reply s =
     (let payload = extract_json_object s
      in if payload = [] then no_extraction
         else \<lparr>ex_contact_updates = obj_or_empty (jget payload ''contact_updates''),
               ex_new_tasks = (case jget payload ''new_tasks'' of
                                 JList xs \<Rightarrow> List.map_filter parse_task xs | _ \<Rightarrow> []),
               ex_new_tags = (case jget payload ''new_tags'' of
                                JList xs \<Rightarrow> List.map_filter (\<lambda>x. map_option strip (filled x)) xs | _ \<Rightarrow> []),
               ex_stage_transition = parse_transition (jget payload ''stage_transition'')\<rparr>)"

section \<open>Asking the model\<close>

definition extractor_prompt :: pystr where
  "extractor_prompt = ((lit ''You are a CRM data extractor. Your input is a WhatsApp conversation'' @ [10])
       @ (lit ''between a buyer and a sales agent (or a human operator). Your output is'' @ [10])
       @ (lit ''a SINGLE JSON object describing CRM updates inferred from the conversation.'' @ [10])
       @ ([10])
       @ (lit ''Output schema (all keys optional; omit a key when nothing applies):'' @ [10])
       @ ([10])
       @ (lit ''{'' @ [10])
       @ (lit ''  '' @ [34] @ lit ''contact_updates'' @ [34] @ lit '':  { '' @ [34] @ lit ''name'' @ [34] @ lit '': '' @ [34] @ lit ''...'' @ [34] @ lit '', '' @ [34] @ lit ''email'' @ [34] @ lit '': '' @ [34] @ lit ''...'' @ [34] @ lit '', '' @ [34] @ lit ''company'' @ [34] @ lit '': '' @ [34] @ lit ''...'' @ [34] @ lit '', '' @ [34] @ lit ''notes'' @ [34] @ lit '': '' @ [34] @ lit ''...'' @ [34] @ lit '' },'' @ [10])
       @ (lit ''  '' @ [34] @ lit ''new_tasks'' @ [34] @ lit '':        [ { '' @ [34] @ lit ''title'' @ [34] @ lit '': '' @ [34] @ lit ''...'' @ [34] @ lit '', '' @ [34] @ lit ''due_at'' @ [34] @ lit '': '' @ [34] @ lit ''ISO-8601|null'' @ [34] @ lit '', '' @ [34] @ lit ''priority'' @ [34] @ lit '': '' @ [34] @ lit ''low|med|high'' @ [34] @ lit '' } ],'' @ [10])
       @ (lit ''  '' @ [34] @ lit ''new_tags'' @ [34] @ lit '':         [ '' @ [34] @ lit ''string'' @ [34] @ lit '', ... ],'' @ [10])
       @ (lit ''  '' @ [34] @ lit ''stage_transition'' @ [34] @ lit '': { '' @ [34] @ lit ''from'' @ [34] @ lit '': '' @ [34] @ lit ''...'' @ [34] @ lit '', '' @ [34] @ lit ''to'' @ [34] @ lit '': '' @ [34] @ lit ''...'' @ [34] @ lit '', '' @ [34] @ lit ''reason'' @ [34] @ lit '': '' @ [34] @ lit ''...'' @ [34] @ lit '' }'' @ [10])
       @ (lit ''}'' @ [10])
       @ ([10])
       @ (lit ''Rules:'' @ [10])
       @ (lit ''- Return ONLY the JSON object, no prose, no markdown fences.'' @ [10])
       @ (lit ''- '' @ [34] @ lit ''new_tasks'' @ [34] @ lit '' should capture commitments expressed by either side:'' @ [10])
       @ (lit ''  '' @ [34] @ lit ''agend'' @ [225] @ lit '' para el martes'' @ [34] @ lit '', '' @ [34] @ lit ''te llamo ma'' @ [241] @ lit ''ana'' @ [34] @ lit '', '' @ [34] @ lit ''pasame el contrato el viernes'' @ [34] @ lit ''.'' @ [10])
       @ (lit ''  Convert relative dates to ISO 8601 when the conversation provides enough'' @ [10])
       @ (lit ''  context; otherwise leave due_at null.'' @ [10])
       @ (lit ''- '' @ [34] @ lit ''stage_transition.to'' @ [34] @ lit '' must be one of: new, qualified, scheduled,'' @ [10])
       @ (lit ''  negotiating, closed_won, closed_lost.'' @ [10])
       @ (lit ''- '' @ [34] @ lit ''new_tags'' @ [34] @ lit '' should be short kebab-case labels (e.g. '' @ [34] @ lit ''interesado-cuotas'' @ [34] @ lit '','' @ [10])
       @ (lit ''  '' @ [34] @ lit ''necesita-llamada-humana'' @ [34] @ lit ''). Avoid tags the operator already added.'' @ [10])
       @ (lit ''- If the conversation has nothing CRM-relevant, return {}.'' @ [10]))"

definition transcript :: "conversation_turn list \<Rightarrow> pystr" where
  "transcript turns =
     join [10] (map (\<lambda>t. strip ((lit ''['') @ ct_role t @ (lit ''] '') @ ct_text t))
       (filter (\<lambda>t. strip (ct_text t) \<noteq> []) (slice_last turns max_turns)))"

type_synonym llm_call = "llm_message list \<Rightarrow> pystr \<Rightarrow> int \<Rightarrow> json \<Rightarrow> llm_reply res"

definition extract_turns :: "llm_call \<Rightarrow> pystr \<Rightarrow> conversation_turn list \<Rightarrow> extraction res" where
  "extract_turns ask model turns =
     (if turns = [] then Inr no_extraction
      else if transcript turns = [] then Inr no_extraction
      else (case ask [msg System extractor_prompt, msg User (transcript turns)] model 512 (JFloat 1 (-1)) of
              Inl (LLMError m) \<Rightarrow> Inr no_extraction
            | Inl e \<Rightarrow> Inl e
            | Inr reply \<Rightarrow> Inr (parse_reply (lr_text reply))))"

section \<open>Applying the result\<close>

definition protected_contact_fields :: "pystr list" where
  "protected_contact_fields =
     [(lit ''phone''), (lit ''first_contact_at''), (lit ''last_seen_at''), (lit ''turn_count''), (lit ''source'')]"

text \<open>The data after the updates of the contact, and whether one of them changed it.\<close>

definition merge_update :: "pystr \<times> json \<Rightarrow> json dict \<times> bool \<Rightarrow> json dict \<times> bool" where
  "merge_update kv acc =
     (case (kv, acc) of ((k, v), (data, changed)) \<Rightarrow>
        if k \<in> set protected_contact_fields then (data, changed)
        else if py_eq (dget_or data k JNull) v then (data, changed)
        else (dset data k v, True))"

definition merge_updates :: "json dict \<Rightarrow> json dict \<Rightarrow> json dict \<times> bool" where
  "merge_updates updates data = fold merge_update updates (data, False)"

definition add_tag :: "pystr \<Rightarrow> json list \<times> bool \<Rightarrow> json list \<times> bool" where
  "add_tag tag acc =
     (case acc of (tags, changed) \<Rightarrow>
        let normalized = lower (strip tag)
        in if normalized \<noteq> [] \<and> JStr normalized \<notin> set tags then (tags @ [JStr normalized], True)
           else (tags, changed))"

text \<open>\<open>set(tags_list)\<close> raises on an element that cannot be hashed.\<close>

definition unhashable :: "json \<Rightarrow> bool" where
  "unhashable j = (case j of JList _ \<Rightarrow> True | JObj _ \<Rightarrow> True | _ \<Rightarrow> False)"

definition hash_error :: "json \<Rightarrow> exn" where
  "hash_error j = TypeError ((lit ''unhashable type: '' @ [39]) @ (case j of JList _ \<Rightarrow> (lit ''list'') | _ \<Rightarrow> (lit ''dict'')) @ ([39]))"

definition merge_tags :: "pystr list \<Rightarrow> json dict \<times> bool \<Rightarrow> (json dict \<times> bool) res" where
  "merge_tags new_tags acc =
     (case acc of (data, changed) \<Rightarrow>
        if new_tags = [] then Inr (data, changed)
        else (let tags_list = (case jget data ''tags'' of JList xs \<Rightarrow> xs | _ \<Rightarrow> [])
              in case find unhashable tags_list of
                   Some j \<Rightarrow> Inl (hash_error j)
                 | None \<Rightarrow> (case fold add_tag new_tags (tags_list, changed) of
                              (tags, changed') \<Rightarrow> Inr (dset data (lit ''tags'') (JList tags), changed'))))"

definition patch_contact :: "resource_store \<Rightarrow> time \<Rightarrow> resource \<Rightarrow> extraction \<Rightarrow> resource_store res" where
  "patch_contact d now contact r =
     (case merge_tags (ex_new_tags r) (merge_updates (ex_contact_updates r) (re_data contact)) of
        Inl e \<Rightarrow> Inl e
      | Inr (data, changed) \<Rightarrow>
          if \<not> changed then Inr d
          else Inr (upsert d (contact\<lparr>re_data := data, re_updated_at := now\<rparr>)))"

text \<open>\<open>re.sub(r"\s+", " ", s)\<close>.\<close>

fun collapse_spaces :: "pystr \<Rightarrow> pystr" where
  "collapse_spaces [] = []"
| "collapse_spaces (c # s) =
     (if is_space c then (if s \<noteq> [] \<and> is_space (hd s) then collapse_spaces s else 32 # collapse_spaces s)
      else c # collapse_spaces s)"

definition task_dedup_key :: "pystr \<Rightarrow> pystr" where
  "task_dedup_key title = collapse_spaces (lower (strip title))"

definition open_task_of :: "pystr \<Rightarrow> resource \<Rightarrow> pystr option" where
  "open_task_of contact_id r =
     (if \<not> py_eq (jget (re_data r) ''contact_id'') (JStr contact_id) then None
      else if \<not> py_eq (jget (re_data r) ''status'') (JStr (lit ''open'')) then None
      else (let title = py_str (dget_or (re_data r) (lit ''title'') (JStr []))
            in if title = [] then None else Some (task_dedup_key title)))"

definition open_task_titles :: "resource_store \<Rightarrow> pystr \<Rightarrow> pystr \<Rightarrow> pystr list" where
  "open_task_titles d tenant_id contact_id =
     List.map_filter (open_task_of contact_id) (res_list_for d tenant_id (Some task_kind) 1000)"

definition task_title :: "extracted_task \<Rightarrow> pystr" where
  "task_title task = take max_task_title_chars (strip (et_title task))"

definition task_resource :: "pystr \<Rightarrow> time \<Rightarrow> pystr \<Rightarrow> pystr \<Rightarrow> extracted_task \<Rightarrow> resource" where
  "task_resource uid now tenant_id contact_id task =
     (let title = task_title task;
          data = [((lit ''contact_id''), JStr contact_id), ((lit ''title''), JStr title), ((lit ''status''), JStr (lit ''open'')),
                  ((lit ''source''), JStr auto_source), ((lit ''auto''), JBool True)];
          data = (case nonempty (et_due_at task) of None \<Rightarrow> data | Some x \<Rightarrow> dset data (lit ''due_at'') (JStr x));
          data = (case nonempty (et_priority task) of None \<Rightarrow> data | Some x \<Rightarrow> dset data (lit ''priority'') (JStr x))
      in new_resource uid now tenant_id task_kind ((lit ''task:'') @ contact_id @ (lit '':'') @ task_dedup_key title) data
           (take max_task_title_chars title))"

definition write_task ::
  "(nat \<Rightarrow> pystr) \<Rightarrow> time \<Rightarrow> pystr \<Rightarrow> pystr \<Rightarrow> nat \<times> extracted_task \<Rightarrow> resource_store \<times> pystr list
     \<Rightarrow> resource_store \<times> pystr list" where
  "write_task uids now tenant_id contact_id nt acc =
     (case (nt, acc) of ((n, task), (d, keys)) \<Rightarrow>
        let title = task_title task; key = task_dedup_key title
        in if title = [] then (d, keys)
           else if key \<in> set keys then (d, keys)
           else (upsert d (task_resource (uids n) now tenant_id contact_id task), key # keys))"

definition write_tasks ::
  "resource_store \<Rightarrow> (nat \<Rightarrow> pystr) \<Rightarrow> time \<Rightarrow> pystr \<Rightarrow> pystr \<Rightarrow> extracted_task list \<Rightarrow> resource_store" where
  "write_tasks d uids now tenant_id contact_id tasks =
     (if tasks = [] then d
      else fst (fold (write_task uids now tenant_id contact_id) (enumerate 0 tasks)
                  (d, open_task_titles d tenant_id contact_id)))"

definition stage_resource :: "pystr \<Rightarrow> time \<Rightarrow> pystr \<Rightarrow> pystr \<Rightarrow> stage_transition \<Rightarrow> resource" where
  "stage_resource uid now tenant_id contact_id tr =
     (let summary = (case nonempty (tr_from tr) of
                       None \<Rightarrow> (lit ''Stage '' @ [8594] @ lit '' '') @ tr_to tr
                     | Some f \<Rightarrow> (lit ''Stage '') @ f @ (lit '' '' @ [8594] @ lit '' '') @ tr_to tr);
          opt = (\<lambda>x. case x of None \<Rightarrow> JNull | Some s \<Rightarrow> JStr s)
      in new_resource uid now tenant_id activity_kind ((lit ''stage:'') @ contact_id @ (lit '':'') @ tr_to tr)
           [((lit ''contact_id''), JStr contact_id), ((lit ''type''), JStr (lit ''stage_transition'')), ((lit ''from''), opt (tr_from tr)),
            ((lit ''to''), JStr (tr_to tr)), ((lit ''reason''), opt (tr_reason tr)), ((lit ''source''), JStr auto_source),
            ((lit ''auto''), JBool True), ((lit ''at''), JStr (isoformat now))] summary)"

definition maybe_write_stage_activity ::
  "resource_store \<Rightarrow> pystr \<Rightarrow> time \<Rightarrow> pystr \<Rightarrow> pystr \<Rightarrow> stage_transition option \<Rightarrow> resource_store" where
  "maybe_write_stage_activity d uid now tenant_id contact_id tr =
     (case tr of None \<Rightarrow> d | Some s \<Rightarrow> upsert d (stage_resource uid now tenant_id contact_id s))"

definition apply_extraction ::
  "resource_store \<Rightarrow> (nat \<Rightarrow> pystr) \<Rightarrow> time \<Rightarrow> pystr \<Rightarrow> pystr \<Rightarrow> extraction \<Rightarrow> resource_store res" where
  "apply_extraction d uids now tenant_id contact_id r =
     (if extraction_empty r then Inr d
      else (case res_get d contact_id of
              None \<Rightarrow> Inr d
            | Some contact \<Rightarrow>
                if re_tenant_id contact \<noteq> tenant_id then Inr d
                else (case patch_contact d now contact r of
                        Inl e \<Rightarrow> Inl e
                      | Inr d1 \<Rightarrow>
                          (let d2 = write_tasks d1 uids now tenant_id contact_id (ex_new_tasks r)
                           in Inr (maybe_write_stage_activity d2 (uids (length (ex_new_tasks r))) now tenant_id
                                     contact_id (ex_stage_transition r))))))"

section \<open>Answers wrapped in prose\<close>

lemma object_span_wrapped:
  assumes "123 \<notin> set a" and "125 \<notin> set b" and "m = 123 # mid @ [125]"
  shows "object_span (a @ m @ b) = Some m"
proof -
  have "dropWhile (\<lambda>c. c \<noteq> 123) (a @ m @ b) = m @ b"
    using assms(1,3) by (induction a) auto
  moreover have "dropWhile (\<lambda>c. c \<noteq> 125) (rev b @ rev m) = rev m"
    using assms(2,3) by (intro trans[OF dropWhile_append2]) auto
  ultimately show ?thesis using assms(3) by (simp add: object_span_def)
qed

lemma dumps_obj_braces: "\<exists>mid. dumps False (JObj d) = 123 # mid @ [125]"
  by (simp add: Let_def lit_def)

lemma wrapped_answer:
  assumes "plain (JObj d)" and "123 \<notin> set a" and "125 \<notin> set b"
    and "strip (a @ dumps False (JObj d) @ b) = a @ dumps False (JObj d) @ b"
    and "loads (a @ dumps False (JObj d) @ b) = None \<or> a @ b = []"
  shows "extract_json_object (a @ dumps False (JObj d) @ b) = d"
proof -
  have rt: "loads (dumps False (JObj d)) = Some (JObj d)" by (rule loads_dumps[OF assms(1)])
  obtain mid where "dumps False (JObj d) = 123 # mid @ [125]" using dumps_obj_braces by blast
  then have span: "object_span (a @ dumps False (JObj d) @ b) = Some (dumps False (JObj d))"
    and ne: "a @ dumps False (JObj d) @ b \<noteq> []"
    using object_span_wrapped[OF assms(2,3)] by auto
  show ?thesis
  proof (cases "loads (a @ dumps False (JObj d) @ b)")
    case None
    then show ?thesis unfolding extract_json_object_def assms(4) using ne span rt by (simp add: obj_or_empty_def)
  next
    case (Some j)
    then have "a @ b = []" using assms(5) by simp
    then show ?thesis unfolding extract_json_object_def assms(4) using ne rt by (simp add: obj_or_empty_def)
  qed
qed

lemma parse_task_ok: "parse_task j = Some t \<Longrightarrow> et_title t \<noteq> [] \<and> strip (et_title t) = et_title t"
  by (cases j) (auto simp: parse_task_def filled_def split: option.splits json.splits if_splits)

lemma filled_ok: "filled j = Some z \<Longrightarrow> strip z \<noteq> []"
  by (cases j) (auto simp: filled_def split: if_splits)

lemma parse_transition_ok: "parse_transition j = Some x \<Longrightarrow> tr_to x \<noteq> [] \<and> strip (tr_to x) = tr_to x"
  by (cases j) (auto simp: parse_transition_def filled_def split: option.splits json.splits if_splits)

lemma parse_reply_total:
  "t \<in> set (ex_new_tasks (parse_reply s)) \<Longrightarrow> et_title t \<noteq> [] \<and> strip (et_title t) = et_title t"
  "g \<in> set (ex_new_tags (parse_reply s)) \<Longrightarrow> g \<noteq> [] \<and> strip g = g"
  "ex_stage_transition (parse_reply s) = Some x \<Longrightarrow> tr_to x \<noteq> [] \<and> strip (tr_to x) = tr_to x"
proof -
  define p where "p = extract_json_object s"
  have r: "parse_reply s = no_extraction \<or> (ex_new_tasks (parse_reply s) =
      (case jget p ''new_tasks'' of JList xs \<Rightarrow> List.map_filter parse_task xs | _ \<Rightarrow> [])
    \<and> ex_new_tags (parse_reply s) =
      (case jget p ''new_tags'' of JList xs \<Rightarrow> List.map_filter (\<lambda>x. map_option strip (filled x)) xs | _ \<Rightarrow> [])
    \<and> ex_stage_transition (parse_reply s) = parse_transition (jget p ''stage_transition''))"
    by (simp add: parse_reply_def Let_def p_def)
  show "t \<in> set (ex_new_tasks (parse_reply s)) \<Longrightarrow> et_title t \<noteq> [] \<and> strip (et_title t) = et_title t"
    using r parse_task_ok by (cases "jget p ''new_tasks''") (auto simp: no_extraction_def set_map_filter)
  show "g \<in> set (ex_new_tags (parse_reply s)) \<Longrightarrow> g \<noteq> [] \<and> strip g = g"
    using r by (cases "jget p ''new_tags''") (auto simp: no_extraction_def set_map_filter dest: filled_ok)
  show "ex_stage_transition (parse_reply s) = Some x \<Longrightarrow> tr_to x \<noteq> [] \<and> strip (tr_to x) = tr_to x"
    using r parse_transition_ok by (auto simp: no_extraction_def)
qed

section \<open>What applying changes\<close>

lemma merge_update_frame: "k \<notin> fst ` set u \<Longrightarrow> dget (fst (fold merge_update u acc)) k = dget (fst acc) k"
proof (induction u arbitrary: acc)
  case (Cons p u)
  obtain a v data b where p: "p = (a, v)" "acc = (data, b)" by (metis surj_pair)
  from Cons show ?case by (auto simp: p merge_update_def)
qed simp

lemma merge_update_protected:
  "k \<in> set protected_contact_fields \<Longrightarrow> dget (fst (fold merge_update u acc)) k = dget (fst acc) k"
proof (induction u arbitrary: acc)
  case (Cons p u)
  obtain a v data b where p: "p = (a, v)" "acc = (data, b)" by (metis surj_pair)
  from Cons have "a = k \<Longrightarrow> merge_update p acc = acc" by (simp add: p merge_update_def)
  with Cons show ?case by (cases "a = k") (auto simp: p merge_update_def)
qed simp

lemma tags_not_protected: "(lit ''tags'') \<notin> set protected_contact_fields"
  by (simp add: protected_contact_fields_def)

lemma patch_spec:
  assumes "patch_contact d now c r = Inr d'"
  shows "\<exists>data. (d' = d \<or> d' = upsert d (c\<lparr>re_data := data, re_updated_at := now\<rparr>))
    \<and> (\<forall>k \<in> set protected_contact_fields. dget data k = dget (re_data c) k)"
proof -
  obtain data ch where m: "merge_tags (ex_new_tags r) (merge_updates (ex_contact_updates r) (re_data c)) = Inr (data, ch)"
    and d': "d' = (if ch then upsert d (c\<lparr>re_data := data, re_updated_at := now\<rparr>) else d)"
    using assms by (auto simp: patch_contact_def split: sum.splits prod.splits if_splits)
  have "dget data k = dget (re_data c) k" if "k \<in> set protected_contact_fields" for k
  proof -
    have "k \<noteq> (lit ''tags'')" using that tags_not_protected by blast
    then have "dget data k = dget (fst (merge_updates (ex_contact_updates r) (re_data c))) k"
      using m by (auto simp: merge_tags_def Let_def split: prod.splits if_splits option.splits)
    with merge_update_protected[OF that] show ?thesis by (simp add: merge_updates_def)
  qed
  with d' show ?thesis by auto
qed

lemma task_resource_sel [simp]:
  "re_id (task_resource uid now t cid task) = uid" "re_tenant_id (task_resource uid now t cid task) = t"
  "re_kind (task_resource uid now t cid task) = task_kind" "re_source_id (task_resource uid now t cid task) = None"
  "re_status (task_resource uid now t cid task) = (lit ''active'')"
  by (simp_all add: task_resource_def new_resource_def Let_def)

lemma task_resource_open:
  "task_title task \<noteq> [] \<Longrightarrow> open_task_of cid (task_resource uid now t cid task) = Some (task_dedup_key (task_title task))"
  by (cases "nonempty (et_due_at task)"; cases "nonempty (et_priority task)")
    (simp_all add: open_task_of_def task_resource_def new_resource_def Let_def jget_def dget_or_def py_str_def)

lemma stage_resource_sel [simp]:
  "re_id (stage_resource uid now t cid s) = uid" "re_tenant_id (stage_resource uid now t cid s) = t"
  "re_kind (stage_resource uid now t cid s) = activity_kind" "re_source_id (stage_resource uid now t cid s) = None"
  by (simp_all add: stage_resource_def new_resource_def Let_def)

text \<open>
  The state of the task loop: the identifiers still to be used are free, and every known title
  belongs to a live open task of the contact.
\<close>

definition open_item :: "pystr \<Rightarrow> pystr \<Rightarrow> pystr \<Rightarrow> resource \<Rightarrow> bool" where
  "open_item t cid key x \<longleftrightarrow> re_tenant_id x = t \<and> re_kind x = task_kind \<and> re_status x = (lit ''active'')
     \<and> open_task_of cid x = Some key"

definition loop_ok :: "(nat \<Rightarrow> pystr) \<Rightarrow> nat \<Rightarrow> pystr \<Rightarrow> pystr \<Rightarrow> resource_store \<times> pystr list \<Rightarrow> bool" where
  "loop_ok uids n t cid acc \<longleftrightarrow> store_ok re_id (fst acc) \<and> (\<forall>m \<ge> n. dget (fst acc) (uids m) = None)
     \<and> (\<forall>key \<in> set (snd acc). \<exists>x \<in> set (dvalues (fst acc)). open_item t cid key x)"

definition adds_tasks :: "pystr \<Rightarrow> resource_store \<Rightarrow> resource_store \<Rightarrow> bool" where
  "adds_tasks t d d' \<longleftrightarrow> set (dvalues d) \<subseteq> set (dvalues d')
     \<and> (\<forall>x \<in> set (dvalues d') - set (dvalues d). re_tenant_id x = t \<and> re_kind x = task_kind)"

lemma write_task_step:
  assumes "loop_ok uids n t cid (d, keys)" and "inj uids"
    and "write_task uids now t cid (n, task) (d, keys) = (d', keys')"
  shows "loop_ok uids (Suc n) t cid (d', keys') \<and> adds_tasks t d d' \<and> set keys \<subseteq> set keys'
    \<and> (task_title task \<noteq> [] \<longrightarrow> task_dedup_key (task_title task) \<in> set keys')"
proof (cases "task_title task = [] \<or> task_dedup_key (task_title task) \<in> set keys")
  case True
  then have "d' = d" "keys' = keys" using assms(3) by (auto simp: write_task_def Let_def split: if_splits)
  with True assms(1) show ?thesis by (auto simp: loop_ok_def adds_tasks_def)
next
  case False
  let ?x = "task_resource (uids n) now t cid task"
  have ok: "store_ok re_id d" and free: "\<And>m. n \<le> m \<Longrightarrow> dget d (uids m) = None"
    and known: "\<And>key. key \<in> set keys \<Longrightarrow> \<exists>x \<in> set (dvalues d). open_item t cid key x"
    using assms(1) by (auto simp: loop_ok_def)
  have d': "d' = res_add d ?x" "keys' = task_dedup_key (task_title task) # keys"
    using assms(3) False by (auto simp: write_task_def Let_def upsert_sourceless)
  have items: "store_ok re_id d'" "set (dvalues d') = insert ?x (set (dvalues d))"
    using add_items[OF ok, of ?x] free[of n] by (simp_all add: d'(1))
  have "dget d' (uids m) = None" if "Suc n \<le> m" for m
    using that free[of m] injD[OF assms(2), of m n] by (auto simp: d'(1) res_add_def)
  moreover have "open_item t cid (task_dedup_key (task_title task)) ?x"
    using False by (simp add: open_item_def task_resource_open)
  moreover have "\<exists>x \<in> set (dvalues d'). open_item t cid key x" if "key \<in> set keys" for key
    using known[OF that] items(2) by blast
  ultimately have "loop_ok uids (Suc n) t cid (d', keys')"
    unfolding loop_ok_def fst_conv snd_conv d'(2) set_simps using items by blast
  then show ?thesis using items(2) by (auto simp: adds_tasks_def d'(2))
qed

lemma adds_tasks_trans: "adds_tasks t a b \<Longrightarrow> adds_tasks t b c \<Longrightarrow> adds_tasks t a c"
  unfolding adds_tasks_def by blast

lemma write_task_fold:
  assumes "loop_ok uids n t cid (d, keys)" and "inj uids"
    and "fold (write_task uids now t cid) (enumerate n tasks) (d, keys) = (d', keys')"
  shows "loop_ok uids (n + length tasks) t cid (d', keys') \<and> adds_tasks t d d' \<and> set keys \<subseteq> set keys'
    \<and> (\<forall>task \<in> set tasks. task_title task \<noteq> [] \<longrightarrow> task_dedup_key (task_title task) \<in> set keys')"
  using assms(1,3)
proof (induction tasks arbitrary: n d keys)
  case Nil
  then show ?case by (simp add: adds_tasks_def)
next
  case (Cons task tasks)
  obtain d1 keys1 where s: "write_task uids now t cid (n, task) (d, keys) = (d1, keys1)" by (metis surj_pair)
  note step = write_task_step[OF Cons.prems(1) assms(2) s]
  have "fold (write_task uids now t cid) (enumerate (Suc n) tasks) (d1, keys1) = (d', keys')"
    using Cons.prems(2) s by simp
  from Cons.IH[OF _ this] step adds_tasks_trans show ?case by auto
qed

lemma write_tasks_known:
  assumes "\<And>task. task \<in> set tasks \<Longrightarrow> task_title task = [] \<or> task_dedup_key (task_title task) \<in> set keys"
  shows "fold (write_task uids now t cid) (enumerate n tasks) (d, keys) = (d, keys)"
  using assms by (induction tasks arbitrary: n) (auto simp: write_task_def Let_def)

lemma open_titles_ok:
  assumes "store_ok re_id d" and "\<And>m. dget d (uids m) = None"
  shows "loop_ok uids 0 t cid (d, open_task_titles d t cid)"
proof -
  have "\<exists>x \<in> set (dvalues d). open_item t cid key x" if "key \<in> set (open_task_titles d t cid)" for key
    using that list_for_mem[of _ d t "Some task_kind" 1000]
    by (fastforce simp: open_task_titles_def List.map_filter_def open_item_def)
  with assms show ?thesis by (auto simp: loop_ok_def)
qed

lemma write_tasks_effect:
  assumes "store_ok re_id d" and "\<And>m. dget d (uids m) = None" and "inj uids"
  shows "store_ok re_id (write_tasks d uids now t cid tasks) \<and> adds_tasks t d (write_tasks d uids now t cid tasks)
    \<and> dget (write_tasks d uids now t cid tasks) (uids (length tasks)) = None
    \<and> (\<forall>task \<in> set tasks. task_title task \<noteq> [] \<longrightarrow>
         (\<exists>x \<in> set (dvalues (write_tasks d uids now t cid tasks)). open_item t cid (task_dedup_key (task_title task)) x))"
proof (cases "tasks = []")
  case True
  with assms show ?thesis by (simp add: write_tasks_def adds_tasks_def)
next
  case False
  obtain d' keys' where f: "fold (write_task uids now t cid) (enumerate 0 tasks) (d, open_task_titles d t cid) = (d', keys')"
    by (metis surj_pair)
  then have d': "write_tasks d uids now t cid tasks = d'" using False by (simp add: write_tasks_def)
  from write_task_fold[OF open_titles_ok[OF assms(1,2)] assms(3) f] show ?thesis
    unfolding d' loop_ok_def by auto
qed

text \<open>
  A run of \<open>apply_extraction\<close> that does something: the contact patched, the tasks added, the
  breadcrumb added.
\<close>

lemma patch_items:
  assumes "patch_contact d now c r = Inr d1" and "store_ok re_id d" and "res_get d cid = Some c"
    and "re_source_id c = None"
  shows "\<exists>c1. re_id c1 = cid \<and> re_tenant_id c1 = re_tenant_id c \<and> re_source_id c1 = None
    \<and> (\<forall>k \<in> set protected_contact_fields. dget (re_data c1) k = dget (re_data c) k)
    \<and> store_ok re_id d1 \<and> res_get d1 cid = Some c1
    \<and> set (dvalues d1) = insert c1 {x \<in> set (dvalues d). re_id x \<noteq> cid}
    \<and> (\<forall>i. i \<noteq> cid \<longrightarrow> dget d1 i = dget d i)"
proof -
  have c: "c \<in> set (dvalues d)" "re_id c = cid" using resources.get_mem[OF assms(2)] assms(3) by auto
  obtain data where data: "d1 = d \<or> d1 = upsert d (c\<lparr>re_data := data, re_updated_at := now\<rparr>)"
    "\<forall>k \<in> set protected_contact_fields. dget data k = dget (re_data c) k"
    using patch_spec[OF assms(1)] by blast
  show ?thesis
  proof (cases "d1 = d")
    case True
    have "x = c" if "x \<in> set (dvalues d)" "re_id x = cid" for x
      using resources.ident_unique[OF assms(2) that(1) c(1)] that(2) c(2) by metis
    then have "set (dvalues d1) = insert c {x \<in> set (dvalues d). re_id x \<noteq> cid}" using c(1) True by blast
    with True assms c(2) show ?thesis by blast
  next
    case False
    define c1 where "c1 = c\<lparr>re_data := data, re_updated_at := now\<rparr>"
    have d1: "d1 = upsert d c1" using data(1) False unfolding c1_def by blast
    have sel: "re_id c1 = cid" "re_tenant_id c1 = re_tenant_id c" "re_source_id c1 = None" "re_data c1 = data"
      using c(2) assms(4) by (simp_all add: c1_def)
    have items: "store_ok re_id d1" "set (dvalues d1) = insert c1 {x \<in> set (dvalues d). re_id x \<noteq> cid}"
      using replace_items[OF assms(2) sel(3)] unfolding d1 sel(1) by blast+
    have "d1 = dset d cid c1" unfolding d1 upsert_sourceless[OF sel(3)] res_add_def sel(1) ..
    then have "res_get d1 cid = Some c1" "\<forall>i. i \<noteq> cid \<longrightarrow> dget d1 i = dget d i"
      by (simp_all add: res_get_def)
    with items sel data(2) show ?thesis by blast
  qed
qed

lemma apply_run:
  assumes "apply_extraction d uids now t cid r = Inr d'" and "\<not> extraction_empty r"
    and "res_get d cid = Some c" and "re_tenant_id c = t"
  obtains d1 where "patch_contact d now c r = Inr d1"
    and "d' = maybe_write_stage_activity (write_tasks d1 uids now t cid (ex_new_tasks r))
           (uids (length (ex_new_tasks r))) now t cid (ex_stage_transition r)"
  using assms by (auto simp: apply_extraction_def Let_def split: sum.splits)

lemma apply_idle:
  "extraction_empty r \<or> res_get d cid = None \<or> (\<exists>c. res_get d cid = Some c \<and> re_tenant_id c \<noteq> t)
     \<Longrightarrow> apply_extraction d uids now t cid r = Inr d"
  by (auto simp: apply_extraction_def split: option.splits)

lemma stage_items:
  assumes "store_ok re_id d" and "dget d uid = None"
  shows "store_ok re_id (maybe_write_stage_activity d uid now t cid tr)
    \<and> set (dvalues (maybe_write_stage_activity d uid now t cid tr)) =
        (case tr of None \<Rightarrow> {} | Some s \<Rightarrow> {stage_resource uid now t cid s}) \<union> set (dvalues d)"
  using add_items[OF assms(1)] assms
  by (auto simp: maybe_write_stage_activity_def upsert_sourceless split: option.splits)

definition extraction_change :: "pystr \<Rightarrow> pystr \<Rightarrow> resource_store \<Rightarrow> resource \<Rightarrow> bool" where
  "extraction_change t cid d x \<longleftrightarrow> re_tenant_id x = t \<and>
     (if re_id x = cid
      then \<exists>c. res_get d cid = Some c \<and> (\<forall>k \<in> set protected_contact_fields. dget (re_data x) k = dget (re_data c) k)
      else re_kind x \<in> {task_kind, activity_kind})"

lemma apply_scoped:
  assumes "apply_extraction d uids now t cid r = Inr d'" and "store_ok re_id d" and "inj uids"
    and "\<And>m. dget d (uids m) = None" and "\<And>c. res_get d cid = Some c \<Longrightarrow> re_source_id c = None"
  shows "store_ok re_id d' \<and> {x \<in> set (dvalues d). re_id x \<noteq> cid} \<subseteq> set (dvalues d')
    \<and> (\<forall>x \<in> set (dvalues d') - set (dvalues d). extraction_change t cid d x)"
proof (cases "extraction_empty r \<or> res_get d cid = None \<or> (\<exists>c. res_get d cid = Some c \<and> re_tenant_id c \<noteq> t)")
  case True
  then have "d' = d" using apply_idle[OF True] assms(1) by simp
  with assms(2) show ?thesis by blast
next
  case False
  then obtain c where c: "\<not> extraction_empty r" "res_get d cid = Some c" "re_tenant_id c = t" by auto
  obtain d1 where d1: "patch_contact d now c r = Inr d1" and
    d': "d' = maybe_write_stage_activity (write_tasks d1 uids now t cid (ex_new_tasks r))
           (uids (length (ex_new_tasks r))) now t cid (ex_stage_transition r)"
    by (rule apply_run[OF assms(1) c])
  define d2 where "d2 = write_tasks d1 uids now t cid (ex_new_tasks r)"
  obtain c1 where c1: "re_id c1 = cid" "re_tenant_id c1 = t"
    "\<forall>k \<in> set protected_contact_fields. dget (re_data c1) k = dget (re_data c) k" "store_ok re_id d1"
    "set (dvalues d1) = insert c1 {x \<in> set (dvalues d). re_id x \<noteq> cid}"
    and frame: "\<And>i. i \<noteq> cid \<Longrightarrow> dget d1 i = dget d i"
    using patch_items[OF d1 assms(2) c(2) assms(5)[OF c(2)]] c(3) by blast
  have "uids m \<noteq> cid" for m using assms(4)[of m] c(2) by (auto simp: res_get_def)
  then have fresh: "\<And>m. dget d1 (uids m) = None" using frame assms(4) by simp
  have t: "store_ok re_id d2" "adds_tasks t d1 d2" "dget d2 (uids (length (ex_new_tasks r))) = None"
    using write_tasks_effect[OF c1(4) fresh assms(3)] unfolding d2_def by blast+
  have s: "store_ok re_id d'" "set (dvalues d') = (case ex_stage_transition r of None \<Rightarrow> {}
      | Some s \<Rightarrow> {stage_resource (uids (length (ex_new_tasks r))) now t cid s}) \<union> set (dvalues d2)"
    using stage_items[OF t(1,3)] unfolding d' d2_def by blast+
  have old: "set (dvalues d1) \<subseteq> set (dvalues d')" using t(2) s(2) by (auto simp: adds_tasks_def)
  have "extraction_change t cid d x" if x: "x \<in> set (dvalues d')" "x \<notin> set (dvalues d)" for x
  proof (cases "x \<in> set (dvalues d1)")
    case True
    then have "x = c1" using c1(5) x(2) by blast
    with c1 c show ?thesis by (simp add: extraction_change_def)
  next
    case False
    then have k: "re_tenant_id x = t \<and> re_kind x \<in> {task_kind, activity_kind}"
      using x(1) s(2) t(2) by (auto simp: adds_tasks_def split: option.splits)
    have "re_id x \<noteq> cid"
    proof
      assume "re_id x = cid"
      then have "re_id x = re_id c1" using c1(1) by simp
      moreover have "c1 \<in> set (dvalues d')" using old c1(5) by blast
      ultimately have "x = c1" using resources.ident_unique[OF s(1) x(1)] by blast
      with False c1(5) show False by blast
    qed
    with k show ?thesis by (simp add: extraction_change_def)
  qed
  with s(1) old c1(5) show ?thesis by blast
qed

section \<open>Applying twice\<close>

text \<open>An update is settled when a second pass would leave the data as it is.\<close>

definition settled :: "json dict \<Rightarrow> pystr \<times> json \<Rightarrow> bool" where
  "settled data kv \<longleftrightarrow> fst kv \<in> set protected_contact_fields \<or> py_eq (dget_or data (fst kv) JNull) (snd kv)
     \<or> dget data (fst kv) = Some (snd kv)"

lemma merge_settled:
  "(\<And>kv. kv \<in> set u \<Longrightarrow> settled (fst acc) kv) \<Longrightarrow> fst (fold merge_update u acc) = fst acc"
proof (induction u arbitrary: acc)
  case (Cons kv u)
  obtain k v data b where p: "kv = (k, v)" "acc = (data, b)" by (metis surj_pair)
  have "settled data (k, v)" using Cons.prems[of kv] by (simp add: p)
  then have "fst (merge_update kv acc) = data"
    by (auto simp: p merge_update_def settled_def dset_same)
  with Cons show ?case by (simp add: p)
qed simp

lemma merge_settles:
  assumes "distinct (map fst u)" and "kv \<in> set u"
  shows "settled (fst (fold merge_update u acc)) kv"
  using assms
proof (induction u arbitrary: acc)
  case (Cons p u)
  obtain k v data b where p: "p = (k, v)" "acc = (data, b)" by (metis surj_pair)
  show ?case
  proof (cases "kv = p")
    case True
    have "k \<notin> fst ` set u" using Cons.prems(1) by (simp add: p)
    then have "dget (fst (fold merge_update u (merge_update p acc))) k = dget (fst (merge_update p acc)) k"
      by (rule merge_update_frame)
    moreover have "settled (fst (merge_update p acc)) p"
      by (auto simp: p merge_update_def settled_def)
    ultimately show ?thesis by (simp add: True p settled_def dget_or_def)
  next
    case False
    with Cons.prems have "kv \<in> set u" "distinct (map fst u)" by auto
    from Cons.IH[OF this(2,1)] show ?thesis by simp
  qed
qed simp

lemma merge_flag: "snd (fold merge_update u (data, b)) = (b \<or> snd (fold merge_update u (data, False)))"
proof (induction u arbitrary: data b)
  case (Cons p u)
  obtain k v where p: "p = (k, v)" by (cases p)
  show ?case using Cons.IH[of data b] Cons.IH[of "dset data k v" True] by (simp add: p merge_update_def)
qed simp

lemma add_tag_keeps: "set tags \<subseteq> set (fst (fold add_tag gs (tags, b)))"
proof (induction gs arbitrary: tags b)
  case (Cons g gs)
  obtain tags' b' where s: "add_tag g (tags, b) = (tags', b')" by (metis surj_pair)
  then have "set tags \<subseteq> set tags'" by (auto simp: add_tag_def Let_def split: if_splits)
  with Cons[of tags' b'] s show ?case by auto
qed simp

lemma str_hashable: "\<not> unhashable (JStr x)"
  by (simp add: unhashable_def)

lemma add_tag_hashable:
  "find unhashable tags = None \<Longrightarrow> find unhashable (fst (fold add_tag gs (tags, b))) = None"
proof (induction gs arbitrary: tags b)
  case (Cons g gs)
  obtain tags' b' where s: "add_tag g (tags, b) = (tags', b')" by (metis surj_pair)
  then have "find unhashable tags' = None"
    using Cons.prems by (auto simp: add_tag_def Let_def find_append str_hashable split: if_splits)
  with Cons.IH[of tags' b'] s show ?case by simp
qed simp

lemma add_tag_known:
  "(\<And>g. g \<in> set gs \<Longrightarrow> lower (strip g) = [] \<or> JStr (lower (strip g)) \<in> set tags) \<Longrightarrow> fold add_tag gs (tags, b) = (tags, b)"
  by (induction gs) (auto simp: add_tag_def Let_def)

lemma add_tag_adds:
  "g \<in> set gs \<Longrightarrow> lower (strip g) = [] \<or> JStr (lower (strip g)) \<in> set (fst (fold add_tag gs (tags, b)))"
proof (induction gs arbitrary: tags b)
  case (Cons h gs)
  obtain tags' b' where s: "add_tag h (tags, b) = (tags', b')" by (metis surj_pair)
  show ?case
  proof (cases "g = h")
    case True
    then have "lower (strip g) = [] \<or> JStr (lower (strip g)) \<in> set tags'"
      using s by (auto simp: add_tag_def Let_def split: if_splits)
    with add_tag_keeps[of tags' gs b'] s show ?thesis by auto
  next
    case False
    with Cons s show ?thesis by auto
  qed
qed simp

lemma merge_tags_again:
  assumes "merge_tags gs (data, b) = Inr (data1, b1)"
  shows "\<exists>b2. merge_tags gs (data1, b') = Inr (data1, b2)"
proof (cases "gs = []")
  case True
  with assms show ?thesis by (simp add: merge_tags_def)
next
  case False
  define tags where "tags = (case jget data ''tags'' of JList xs \<Rightarrow> xs | _ \<Rightarrow> [])"
  obtain tags1 b1' where f: "fold add_tag gs (tags, b) = (tags1, b1')" by (metis surj_pair)
  have ok: "find unhashable tags = None" and data1: "data1 = dset data (lit ''tags'') (JList tags1)"
    using assms False f by (auto simp: merge_tags_def Let_def tags_def[symmetric] split: option.splits)
  have 1: "jget data1 ''tags'' = JList tags1" by (simp add: data1)
  have 2: "find unhashable tags1 = None" using add_tag_hashable[OF ok, of gs b] by (simp add: f)
  have 3: "fold add_tag gs (tags1, b') = (tags1, b')"
    by (rule add_tag_known) (use add_tag_adds[of _ gs tags b] f in auto)
  have 4: "dset data1 (lit ''tags'') (JList tags1) = data1" by (rule dset_same) (simp add: data1)
  show ?thesis using False 1 2 3 4 by (simp add: merge_tags_def)
qed

lemma merge_tags_frame: "merge_tags gs (data, b) = Inr (data1, b1) \<Longrightarrow> k \<noteq> (lit ''tags'') \<Longrightarrow> dget data1 k = dget data k"
  by (auto simp: merge_tags_def Let_def split: prod.splits if_splits option.splits)

text \<open>Patching the patched contact with the same clock changes nothing.\<close>

lemma patch_again:
  assumes "patch_contact d now c r = Inr d1" and "res_get d1 (re_id c) = Some c1" and "res_get d (re_id c) = Some c"
    and "re_source_id c = None" and "distinct (map fst (ex_contact_updates r))"
    and "(lit ''tags'') \<notin> fst ` set (ex_contact_updates r)"
    and "res_get e (re_id c) = Some c1"
  shows "patch_contact e now c1 r = Inr e"
proof -
  let ?u = "ex_contact_updates r" and ?g = "ex_new_tags r"
  obtain m b0 where mu: "merge_updates ?u (re_data c) = (m, b0)" by (metis surj_pair)
  obtain data b where mt: "merge_tags ?g (m, b0) = Inr (data, b)"
    using assms(1) by (auto simp: patch_contact_def mu split: sum.splits)
  have d1: "d1 = (if b then upsert d (c\<lparr>re_data := data, re_updated_at := now\<rparr>) else d)"
    using assms(1) by (auto simp: patch_contact_def mu mt split: if_splits)
  show ?thesis
  proof (cases b)
    case False
    then have "c1 = c" using d1 assms(2,3) by simp
    with False show ?thesis by (simp add: patch_contact_def mu mt)
  next
    case True
    have c1: "c1 = c\<lparr>re_data := data, re_updated_at := now\<rparr>"
      using d1 True assms(2,4) by (simp add: upsert_sourceless res_add_def res_get_def)
    have "settled data kv" if "kv \<in> set ?u" for kv
    proof -
      have "fst kv \<noteq> (lit ''tags'')" using that assms(6) by (metis imageI)
      then have "dget data (fst kv) = dget m (fst kv)" using merge_tags_frame[OF mt] by blast
      moreover have "settled m kv"
        using merge_settles[OF assms(5) that, of "(re_data c, False)"] mu by (simp add: merge_updates_def)
      ultimately show ?thesis by (simp add: settled_def dget_or_def)
    qed
    then have "fst (merge_updates ?u data) = data"
      unfolding merge_updates_def using merge_settled[of ?u "(data, False)"] by simp
    then obtain b' where mu': "merge_updates ?u data = (data, b')" by (metis prod.collapse)
    obtain b2 where mt': "merge_tags ?g (data, b') = Inr (data, b2)" using merge_tags_again[OF mt] by blast
    have "patch_contact e now c1 r = Inr (if b2 then upsert e c1 else e)"
      by (simp add: patch_contact_def c1 mu' mt')
    moreover have "upsert e c1 = e"
      using assms(4,7) by (simp add: upsert_sourceless res_add_def res_get_def c1 dset_same)
    ultimately show ?thesis by simp
  qed
qed

lemma list_for_all:
  assumes "length (filter (\<lambda>x. re_tenant_id x = t \<and> re_kind x = k) (dvalues d)) \<le> 1000"
    and "x \<in> set (dvalues d)" and "re_tenant_id x = t" and "re_kind x = k" and "re_status x = (lit ''active'')"
  shows "x \<in> set (res_list_for d t (Some k) 1000)"
proof -
  let ?q = "\<lambda>r. re_tenant_id r = t \<and> re_status r = (lit ''active'') \<and> (Some k = None \<or> Some k = Some (re_kind r))"
  have "length (filter ?q (dvalues d)) \<le> length (filter (\<lambda>x. re_tenant_id x = t \<and> re_kind x = k) (dvalues d))"
    by (intro length_filter_mono) simp
  then have "int (length (sort_desc re_created_at (filter ?q (dvalues d)))) \<le> 1000"
    using assms(1) by simp
  then have "res_list_for d t (Some k) 1000 = sort_desc re_created_at (filter ?q (dvalues d))"
    unfolding res_list_for_def Let_def by (rule slice_to_all)
  with assms show ?thesis by simp
qed

lemma apply_again:
  assumes "apply_extraction d uids now t cid r = Inr d'" and "store_ok re_id d" and "inj uids"
    and "\<And>m. dget d (uids m) = None" and "\<And>c. res_get d cid = Some c \<Longrightarrow> re_source_id c = None"
    and "distinct (map fst (ex_contact_updates r))" and "(lit ''tags'') \<notin> fst ` set (ex_contact_updates r)"
    and "length (filter (\<lambda>x. re_tenant_id x = t \<and> re_kind x = task_kind) (dvalues d')) \<le> 1000"
    and "ex_stage_transition r = None"
  shows "apply_extraction d' uids' now t cid r = Inr d'"
proof (cases "extraction_empty r \<or> res_get d cid = None \<or> (\<exists>c. res_get d cid = Some c \<and> re_tenant_id c \<noteq> t)")
  case True
  then have "d' = d" using apply_idle[OF True] assms(1) by simp
  with apply_idle[OF True] show ?thesis by simp
next
  case False
  then obtain c where c: "\<not> extraction_empty r" "res_get d cid = Some c" "re_tenant_id c = t" by auto
  obtain d1 where d1: "patch_contact d now c r = Inr d1"
    and d': "d' = write_tasks d1 uids now t cid (ex_new_tasks r)"
    using apply_run[OF assms(1) c] assms(9) by (metis maybe_write_stage_activity_def option.simps(4))
  note src = assms(5)[OF c(2)]
  have cid: "re_id c = cid" using resources.get_ident[OF assms(2) c(2)] .
  obtain c1 where c1: "re_id c1 = cid" "re_tenant_id c1 = t" "store_ok re_id d1" "res_get d1 cid = Some c1"
    "\<And>i. i \<noteq> cid \<Longrightarrow> dget d1 i = dget d i"
    using patch_items[OF d1 assms(2) c(2) src] c(3) by blast
  have "uids m \<noteq> cid" for m using assms(4)[of m] c(2) by (auto simp: res_get_def)
  then have fresh: "\<And>m. dget d1 (uids m) = None" using c1(5) assms(4) by simp
  note w = write_tasks_effect[OF c1(3) fresh assms(3), of now t cid "ex_new_tasks r", folded d']
  have "c1 \<in> set (dvalues d')"
    using w resources.get_mem[OF c1(3)] c1(4) by (auto simp: adds_tasks_def)
  then have g: "res_get d' cid = Some c1" using w resources.get_self[of d' c1] c1(1) by simp
  have p: "patch_contact d' now c1 r = Inr d'"
    by (rule patch_again[OF d1 _ _ src assms(6,7)]) (use c1(4) c(2) g cid in simp_all)
  have known: "task_title task = [] \<or> task_dedup_key (task_title task) \<in> set (open_task_titles d' t cid)"
    if "task \<in> set (ex_new_tasks r)" for task
  proof (cases "task_title task = []")
    case False
    then obtain x where x: "x \<in> set (dvalues d')" "open_item t cid (task_dedup_key (task_title task)) x"
      using w \<open>task \<in> set (ex_new_tasks r)\<close> by blast
    then have "x \<in> set (res_list_for d' t (Some task_kind) 1000)"
      using list_for_all[OF assms(8), of x] by (simp add: open_item_def)
    with x show ?thesis by (auto simp: open_task_titles_def open_item_def set_map_filter)
  qed simp
  have "write_tasks d' uids' now t cid (ex_new_tasks r) = d'"
    unfolding write_tasks_def by (subst write_tasks_known[OF known]) auto
  with p g c(1) c1(2) assms(9) show ?thesis
    by (simp add: apply_extraction_def maybe_write_stage_activity_def)
qed

text \<open>A stage transition leaves a new breadcrumb every time.\<close>

lemma apply_stage:
  assumes "apply_extraction d uids now t cid r = Inr d'" and "store_ok re_id d" and "inj uids"
    and "\<And>m. dget d (uids m) = None" and "res_get d cid = Some c" and "re_source_id c = None" and "re_tenant_id c = t"
    and "ex_stage_transition r = Some s"
  shows "stage_resource (uids (length (ex_new_tasks r))) now t cid s \<in> set (dvalues d')
    \<and> stage_resource (uids (length (ex_new_tasks r))) now t cid s \<notin> set (dvalues d)"
proof -
  have ne: "\<not> extraction_empty r" using assms(8) by (simp add: extraction_empty_def)
  obtain d1 where d1: "patch_contact d now c r = Inr d1" and
    d': "d' = maybe_write_stage_activity (write_tasks d1 uids now t cid (ex_new_tasks r))
           (uids (length (ex_new_tasks r))) now t cid (ex_stage_transition r)"
    by (rule apply_run[OF assms(1) ne assms(5,7)])
  obtain c1 where c1: "store_ok re_id d1" "\<And>i. i \<noteq> cid \<Longrightarrow> dget d1 i = dget d i"
    using patch_items[OF d1 assms(2,5,6)] by blast
  have "uids m \<noteq> cid" for m using assms(4)[of m] assms(5) by (auto simp: res_get_def)
  then have fresh: "\<And>m. dget d1 (uids m) = None" using c1(2) assms(4) by simp
  note w = write_tasks_effect[OF c1(1) fresh assms(3), of now t cid "ex_new_tasks r"]
  have "stage_resource (uids (length (ex_new_tasks r))) now t cid s \<in> set (dvalues d')"
    using stage_items[of "write_tasks d1 uids now t cid (ex_new_tasks r)"] w assms(8) unfolding d' by auto
  moreover have "re_id x \<noteq> uids m" if "x \<in> set (dvalues d)" for x m
    using resources.get_self[OF assms(2) that] assms(4)[of m] by (auto simp: res_get_def)
  ultimately show ?thesis by (metis stage_resource_sel(1))
qed

end
