(* ===== verification/Webhook.thy ===== *)
theory Webhook
  imports Domain_Models
begin

text \<open>
  The inbound WhatsApp webhook (\<open>sdk/wapsell/whatsapp/webhook.py\<close>): signature check, the
  subscription handshake and the reading of Meta's nested payload. The payload is whatever JSON
  the request holds: calling \<open>.get\<close> on a value that is no object raises \<open>AttributeError\<close>, iterating
  over one that is not iterable raises \<open>TypeError\<close>. \<open>hmac key body\<close> is the hexadecimal
  HMAC-SHA256 of the library.
\<close>

type_synonym hmac_fun = "pystr \<Rightarrow> nat list \<Rightarrow> pystr"

definition signature_prefix :: pystr where
  "signature_prefix = (lit ''sha256='')"

definition verify_signature :: "hmac_fun \<Rightarrow> pystr \<Rightarrow> nat list \<Rightarrow> pystr \<Rightarrow> bool res" where
  "verify_signature hmac app_secret payload header =
     (if \<not> startswith header signature_prefix then Inr False
      else compare_digest (hmac app_secret payload) (drop (length signature_prefix) header))"

definition verify_subscription :: "pystr \<Rightarrow> pystr \<Rightarrow> pystr \<Rightarrow> pystr \<Rightarrow> pystr option res" where
  "verify_subscription verify_token mode tok challenge =
     (if mode \<noteq> (lit ''subscribe'') then Inr None
      else (case compare_digest verify_token tok of
              Inl e \<Rightarrow> Inl e | Inr b \<Rightarrow> Inr (if b then Some challenge else None)))"

section \<open>Reading the payload\<close>

text \<open>\<open>v.get(k, default)\<close> and \<open>for x in v\<close> on any JSON value.\<close>

definition obj_get :: "json \<Rightarrow> string \<Rightarrow> json \<Rightarrow> json res" where
  "obj_get v k dflt =
     (case v of JObj d \<Rightarrow> Inr (dget_or d (lit k) dflt)
      | _ \<Rightarrow> Inl (AttributeError (([39]) @ type_name v @ ([39] @ lit '' object has no attribute '' @ [39] @ lit ''get'' @ [39]))))"

definition elements :: "json \<Rightarrow> json list res" where
  "elements v =
     (case v of JList xs \<Rightarrow> Inr xs
      | JObj d \<Rightarrow> Inr (map (\<lambda>p. JStr (fst p)) d)
      | JStr s \<Rightarrow> Inr (map (\<lambda>c. JStr [c]) s)
      | _ \<Rightarrow> Inl (TypeError (([39]) @ type_name v @ ([39] @ lit '' object is not iterable''))))"

definition each :: "string \<Rightarrow> json \<Rightarrow> json list res" where
  "each k v = and_then (obj_get v k (JList [])) elements"

fun first_in :: "('a \<Rightarrow> 'b option res) \<Rightarrow> 'a list \<Rightarrow> 'b option res" where
  "first_in f [] = Inr None"
| "first_in f (x # xs) =
     and_then (f x) (\<lambda>r. case r of None \<Rightarrow> first_in f xs | Some y \<Rightarrow> Inr (Some y))"

fun collect :: "('a \<Rightarrow> 'b list res) \<Rightarrow> 'a list \<Rightarrow> 'b list res" where
  "collect f [] = Inr []"
| "collect f (x # xs) = and_then (f x) (\<lambda>ys. and_then (collect f xs) (\<lambda>zs. Inr (ys @ zs)))"

definition change_phone_id :: "json \<Rightarrow> pystr option res" where
  "change_phone_id change =
     and_then (obj_get change ''value'' (JObj [])) (\<lambda>v.
     and_then (obj_get v ''metadata'' (JObj [])) (\<lambda>m.
     and_then (obj_get m ''phone_number_id'' JNull) (\<lambda>p.
       Inr (case p of JStr s \<Rightarrow> if s \<noteq> [] then Some s else None | _ \<Rightarrow> None))))"

definition extract_phone_number_id :: "json \<Rightarrow> pystr option res" where
  "extract_phone_number_id body =
     and_then (each ''entry'' body)
       (first_in (\<lambda>e. and_then (each ''changes'' e) (first_in change_phone_id)))"

text \<open>The profile names of one change, by \<open>wa_id\<close>.\<close>

definition add_profile :: "json \<Rightarrow> pystr dict \<Rightarrow> pystr dict res" where
  "add_profile contact names =
     and_then (obj_get contact ''wa_id'' (JStr [])) (\<lambda>w.
     and_then (obj_get contact ''profile'' (JObj [])) (\<lambda>p.
     and_then (obj_get p ''name'' (JStr [])) (\<lambda>n.
       (let wa_id = strip (py_str w); name = strip (py_str n)
        in Inr (if wa_id \<noteq> [] \<and> name \<noteq> [] then dset names wa_id name else names)))))"

fun profiles :: "json list \<Rightarrow> pystr dict \<Rightarrow> pystr dict res" where
  "profiles [] names = Inr names"
| "profiles (c # cs) names = and_then (add_profile c names) (profiles cs)"

definition parse_message :: "pystr \<Rightarrow> time \<Rightarrow> pystr dict \<Rightarrow> json \<Rightarrow> inbound_message list res" where
  "parse_message tenant_id now names m =
     and_then (obj_get m ''type'' JNull) (\<lambda>ty.
       if \<not> py_eq ty (JStr (lit ''text'')) then Inr []
       else
         and_then (obj_get m ''from'' (JStr [])) (\<lambda>f.
         and_then (obj_get m ''text'' (JObj [])) (\<lambda>tx.
         and_then (obj_get tx ''body'' (JStr [])) (\<lambda>b.
         and_then (obj_get m ''id'' (JStr [])) (\<lambda>i.
           Inr [\<lparr>im_tenant_id = tenant_id, im_from_number = py_str f, im_text = py_str b,
                 im_message_id = py_str i, im_profile_name = dget names (py_str f),
                 im_received_at = now\<rparr>])))))"

definition parse_change :: "pystr \<Rightarrow> time \<Rightarrow> json \<Rightarrow> inbound_message list res" where
  "parse_change tenant_id now change =
     and_then (obj_get change ''value'' (JObj [])) (\<lambda>v.
     and_then (each ''contacts'' v) (\<lambda>contacts.
     and_then (profiles contacts []) (\<lambda>names.
     and_then (each ''messages'' v) (collect (parse_message tenant_id now names)))))"

definition parse_messages :: "pystr \<Rightarrow> time \<Rightarrow> json \<Rightarrow> inbound_message list res" where
  "parse_messages tenant_id now body =
     and_then (each ''entry'' body)
       (collect (\<lambda>e. and_then (each ''changes'' e) (collect (parse_change tenant_id now))))"

section \<open>Meta's documented shape\<close>

text \<open>
  What Meta sends: entries of changes, each change with the phone number it was sent to, the
  profiles of the senders and the messages, of which those of type \<open>text\<close> have a body.
\<close>

record wa_message =
  wm_from :: pystr
  wm_id :: pystr
  wm_kind :: pystr
  wm_body :: pystr

record wa_change =
  wc_phone_id :: pystr
  wc_profiles :: "(pystr \<times> pystr) list"
  wc_messages :: "wa_message list"

definition message_json :: "wa_message \<Rightarrow> json" where
  "message_json m =
     JObj ([((lit ''from''), JStr (wm_from m)), ((lit ''id''), JStr (wm_id m)), ((lit ''type''), JStr (wm_kind m))]
       @ (if wm_kind m = (lit ''text'') then [((lit ''text''), JObj [((lit ''body''), JStr (wm_body m))])] else []))"

definition change_json :: "wa_change \<Rightarrow> json" where
  "change_json c =
     JObj [((lit ''field''), JStr (lit ''messages'')),
       ((lit ''value''), JObj [((lit ''messaging_product''), JStr (lit ''whatsapp'')),
          ((lit ''metadata''), JObj [((lit ''phone_number_id''), JStr (wc_phone_id c))]),
          ((lit ''contacts''), JList (map (\<lambda>p. JObj [((lit ''profile''), JObj [((lit ''name''), JStr (snd p))]), ((lit ''wa_id''), JStr (fst p))])
                              (wc_profiles c))),
          ((lit ''messages''), JList (map message_json (wc_messages c)))])]"

definition meta_json :: "wa_change list list \<Rightarrow> json" where
  "meta_json entries =
     JObj [((lit ''object''), JStr (lit ''whatsapp_business_account'')),
       ((lit ''entry''), JList (map (\<lambda>cs. JObj [((lit ''changes''), JList (map change_json cs))]) entries))]"

text \<open>What should come out: the text messages in order, with the last profile name of the sender.\<close>

definition profile_of :: "(pystr \<times> pystr) list \<Rightarrow> pystr \<Rightarrow> pystr option" where
  "profile_of ps w =
     map_option (\<lambda>p. strip (snd p))
       (find (\<lambda>p. strip (fst p) = w \<and> w \<noteq> [] \<and> strip (snd p) \<noteq> []) (rev ps))"

definition texts_of :: "pystr \<Rightarrow> time \<Rightarrow> wa_change \<Rightarrow> inbound_message list" where
  "texts_of tenant_id now c =
     map (\<lambda>m. \<lparr>im_tenant_id = tenant_id, im_from_number = wm_from m, im_text = wm_body m,
               im_message_id = wm_id m, im_profile_name = profile_of (wc_profiles c) (wm_from m),
               im_received_at = now\<rparr>)
       (filter (\<lambda>m. wm_kind m = (lit ''text'')) (wc_messages c))"

lemma obj_get_obj [simp]: "obj_get (JObj d) k x = Inr (dget_or d (lit k) x)"
  by (simp add: obj_get_def)

lemma elements_list [simp]: "elements (JList xs) = Inr xs"
  by (simp add: elements_def)

lemma collect_all: "(\<And>x. x \<in> set xs \<Longrightarrow> f x = Inr (g x)) \<Longrightarrow> collect f xs = Inr (concat (map g xs))"
  by (induction xs) simp_all

lemma profiles_of:
  "\<exists>names'. profiles (map (\<lambda>p. JObj [((lit ''profile''), JObj [((lit ''name''), JStr (snd p))]), ((lit ''wa_id''), JStr (fst p))]) ps) names = Inr names'
     \<and> dget names' w = (case profile_of ps w of Some n \<Rightarrow> Some n | None \<Rightarrow> dget names w)"
proof (induction ps arbitrary: names)
  case Nil
  then show ?case by (simp add: profile_of_def)
next
  case (Cons p ps)
  let ?j = "JObj [((lit ''profile''), JObj [((lit ''name''), JStr (snd p))]), ((lit ''wa_id''), JStr (fst p))]"
  define n1 where "n1 = (if strip (fst p) \<noteq> [] \<and> strip (snd p) \<noteq> [] then dset names (strip (fst p)) (strip (snd p)) else names)"
  have 1: "add_profile ?j names = Inr n1"
    by (simp add: add_profile_def dget_or_def py_str_def n1_def Let_def)
  have 2: "profile_of (p # ps) w = (case profile_of ps w of Some n \<Rightarrow> Some n
      | None \<Rightarrow> if strip (fst p) = w \<and> w \<noteq> [] \<and> strip (snd p) \<noteq> [] then Some (strip (snd p)) else None)"
    by (auto simp: profile_of_def find_append split: option.splits)
  obtain names' where "profiles (map (\<lambda>p. JObj [((lit ''profile''), JObj [((lit ''name''), JStr (snd p))]), ((lit ''wa_id''), JStr (fst p))]) ps) n1 = Inr names'"
    "dget names' w = (case profile_of ps w of Some n \<Rightarrow> Some n | None \<Rightarrow> dget n1 w)"
    using Cons.IH[of n1] by blast
  then show ?case by (auto simp: 1 2 n1_def split: option.splits)
qed

lemma profiles_all:
  "\<exists>names. profiles (map (\<lambda>p. JObj [((lit ''profile''), JObj [((lit ''name''), JStr (snd p))]), ((lit ''wa_id''), JStr (fst p))]) ps) [] = Inr names
     \<and> (\<forall>w. dget names w = profile_of ps w)"
proof -
  obtain names where n: "profiles (map (\<lambda>p. JObj [((lit ''profile''), JObj [((lit ''name''), JStr (snd p))]), ((lit ''wa_id''), JStr (fst p))]) ps) [] = Inr names"
    using profiles_of by blast
  have "dget names w = profile_of ps w" for w
    using profiles_of[of ps "[]" w] n by (auto split: option.splits)
  with n show ?thesis by blast
qed

lemma parse_change_exact: "parse_change t now (change_json c) = Inr (texts_of t now c)"
proof -
  obtain names where n: "profiles (map (\<lambda>p. JObj [((lit ''profile''), JObj [((lit ''name''), JStr (snd p))]), ((lit ''wa_id''), JStr (fst p))])
      (wc_profiles c)) [] = Inr names" "\<And>w. dget names w = profile_of (wc_profiles c) w"
    using profiles_all by blast
  define g where "g m = (if wm_kind m = (lit ''text'') then
      [\<lparr>im_tenant_id = t, im_from_number = wm_from m, im_text = wm_body m, im_message_id = wm_id m,
        im_profile_name = profile_of (wc_profiles c) (wm_from m), im_received_at = now\<rparr>] else [])" for m :: wa_message
  have "parse_message t now names (message_json m) = Inr (g m)" for m
    by (cases "wm_kind m = (lit ''text'')")
      (simp_all add: parse_message_def message_json_def dget_or_def py_str_def n(2) g_def)
  then have "collect (parse_message t now names) (map message_json ms) = Inr (concat (map g ms))" for ms
    by (induction ms) simp_all
  moreover have "concat (map g ms) = map (\<lambda>m. \<lparr>im_tenant_id = t, im_from_number = wm_from m, im_text = wm_body m,
      im_message_id = wm_id m, im_profile_name = profile_of (wc_profiles c) (wm_from m), im_received_at = now\<rparr>)
      (filter (\<lambda>m. wm_kind m = (lit ''text'')) ms)" for ms
    by (induction ms) (simp_all add: g_def)
  ultimately show ?thesis
    by (simp add: parse_change_def change_json_def each_def dget_or_def n(1) texts_of_def)
qed

lemma parse_exact:
  "parse_messages t now (meta_json entries) = Inr (concat (map (\<lambda>cs. concat (map (texts_of t now) cs)) entries))"
proof -
  have "collect (parse_change t now) (map change_json cs) = Inr (concat (map (texts_of t now) cs))" for cs
    by (induction cs) (simp_all add: parse_change_exact)
  then have "collect (\<lambda>e. and_then (each ''changes'' e) (collect (parse_change t now)))
      (map (\<lambda>cs. JObj [((lit ''changes''), JList (map change_json cs))]) entries)
    = Inr (concat (map (\<lambda>cs. concat (map (texts_of t now) cs)) entries))"
    by (induction entries) (simp_all add: each_def dget_or_def)
  then show ?thesis by (simp add: parse_messages_def meta_json_def each_def dget_or_def)
qed

lemma change_phone_exact:
  "change_phone_id (change_json c) = Inr (if wc_phone_id c = [] then None else Some (wc_phone_id c))"
  by (simp add: change_phone_id_def change_json_def dget_or_def)

lemma first_in_find:
  "(\<And>x. f x = Inr (g x)) \<Longrightarrow> first_in f xs = Inr (case find (\<lambda>x. g x \<noteq> None) xs of None \<Rightarrow> None | Some x \<Rightarrow> g x)"
  by (induction xs) (auto split: option.splits)

lemma phone_exact:
  "extract_phone_number_id (meta_json entries) =
     Inr (map_option wc_phone_id (find (\<lambda>c. wc_phone_id c \<noteq> []) (concat entries)))"
proof -
  have 1: "first_in change_phone_id (map change_json cs) =
      Inr (map_option wc_phone_id (find (\<lambda>c. wc_phone_id c \<noteq> []) cs))" for cs
    by (induction cs) (simp_all add: change_phone_exact)
  have "first_in (\<lambda>e. and_then (each ''changes'' e) (first_in change_phone_id))
      (map (\<lambda>cs. JObj [((lit ''changes''), JList (map change_json cs))]) entries)
    = Inr (map_option wc_phone_id (find (\<lambda>c. wc_phone_id c \<noteq> []) (concat entries)))"
    by (induction entries) (auto simp: each_def dget_or_def 1 find_append split: option.splits)
  then show ?thesis by (simp add: extract_phone_number_id_def meta_json_def each_def dget_or_def)
qed

lemma signature_exact:
  "verify_signature hmac key body header = Inr True \<longleftrightarrow>
     header = signature_prefix @ hmac key body \<and> \<not> (\<exists>c \<in> set (hmac key body). c > 127)"
  unfolding verify_signature_def compare_digest_def startswith_iff by auto

end
