(* ===== verification/Gateway.thy ===== *)
theory Gateway
  imports Agent
begin

text \<open>
  The outbound WhatsApp gateways (\<open>sdk/wapsell/whatsapp/gateway.py\<close>): the recording one for tests
  and development, the Kapso adapter and the Meta Cloud adapter, both over an abstract HTTP
  client (\<open>http_post\<close> of the agent theory: the failure text of the transport, or a response). The
  current time and, for the recording gateway, the random part of the message identifier are
  arguments. A body that is no JSON raises the \<open>ValueError\<close> of \<open>response.json()\<close>, which the
  adapters let through.
\<close>

datatype message_kind = Text_Message | Template_Message

record outbound_message =
  om_to_number :: pystr
  om_body :: pystr
  om_kind :: message_kind
  om_tenant_id :: "pystr option"
  om_template_id :: "pystr option"
  om_template_params :: "pystr dict"
  om_sent_at :: time
  om_vendor_message_id :: "pystr option"
  om_metadata :: "pystr dict"

definition outbound ::
  "time \<Rightarrow> pystr \<Rightarrow> pystr \<Rightarrow> message_kind \<Rightarrow> pystr option \<Rightarrow> pystr option \<Rightarrow> outbound_message" where
  "outbound now to_number body kind tenant_id vendor_id =
     \<lparr>om_to_number = to_number, om_body = body, om_kind = kind, om_tenant_id = tenant_id, om_template_id = None,
      om_template_params = [], om_sent_at = now, om_vendor_message_id = vendor_id, om_metadata = []\<rparr>"

definition template_body :: "pystr \<Rightarrow> pystr" where
  "template_body template_id = (lit ''[template:'') @ template_id @ (lit '']'')"

section \<open>The recording gateway\<close>

definition mem_send_text ::
  "outbound_message list \<Rightarrow> pystr \<Rightarrow> time \<Rightarrow> pystr \<Rightarrow> pystr \<Rightarrow> pystr option
     \<Rightarrow> outbound_message list \<times> outbound_message" where
  "mem_send_text sent uid now to_number body tenant_id =
     (let m = outbound now to_number body Text_Message tenant_id (Some ((lit ''mem-'') @ take 12 uid))
      in (sent @ [m], m))"

definition mem_send_template ::
  "outbound_message list \<Rightarrow> pystr \<Rightarrow> time \<Rightarrow> pystr \<Rightarrow> pystr \<Rightarrow> pystr dict option \<Rightarrow> pystr option
     \<Rightarrow> outbound_message list \<times> outbound_message" where
  "mem_send_template sent uid now to_number template_id params tenant_id =
     (let m = (outbound now to_number (template_body template_id) Template_Message tenant_id
                 (Some ((lit ''mem-'') @ take 12 uid)))
                \<lparr>om_template_id := Some template_id,
                 om_template_params := (case params of None \<Rightarrow> [] | Some p \<Rightarrow> p)\<rparr>
      in (sent @ [m], m))"

section \<open>Posting\<close>

definition http_error_floor :: nat where
  "http_error_floor = 400"

definition as_dict :: "json \<Rightarrow> json dict" where
  "as_dict body = (case body of JObj d \<Rightarrow> d | v \<Rightarrow> [((lit ''raw''), v)])"

definition kapso_post :: "http_post \<Rightarrow> pystr \<Rightarrow> pystr \<Rightarrow> json \<Rightarrow> json dict res" where
  "kapso_post post base_url path payload =
     (case post (base_url @ path) payload [] of
        Inl exc \<Rightarrow> Inl (GatewayError ((lit ''kapso request failed: '') @ exc))
      | Inr r \<Rightarrow>
          if cr_status r \<ge> http_error_floor
          then Inl (GatewayError ((lit ''kapso returned '') @ nat_digits (cr_status r) @ (lit '': '') @ take 200 (cr_text r)))
          else (case cr_json r of Inl exc \<Rightarrow> Inl (ValueError exc) | Inr body \<Rightarrow> Inr (as_dict body)))"

definition cloud_headers :: "pystr \<Rightarrow> pystr dict" where
  "cloud_headers access_token =
     [((lit ''Authorization''), (lit ''Bearer '') @ access_token), ((lit ''Content-Type''), (lit ''application/json''))]"

definition cloud_post :: "http_post \<Rightarrow> pystr \<Rightarrow> pystr \<Rightarrow> json \<Rightarrow> json dict res" where
  "cloud_post post endpoint access_token payload =
     (case post endpoint payload (cloud_headers access_token) of
        Inl exc \<Rightarrow> Inl (GatewayError ((lit ''meta cloud api request failed: '') @ exc))
      | Inr r \<Rightarrow>
          if cr_status r \<ge> http_error_floor
          then Inl (GatewayError ((lit ''meta cloud api returned '') @ nat_digits (cr_status r) @ (lit '': '') @ take 300 (cr_text r)))
          else (case cr_json r of Inl exc \<Rightarrow> Inl (ValueError exc) | Inr body \<Rightarrow> Inr (as_dict body)))"

text \<open>The vendor's identifier in \<open>{"messages": [{"id": ...}]}\<close>.\<close>

definition vendor_id :: "json dict \<Rightarrow> pystr option" where
  "vendor_id response =
     (case jget response ''messages'' of
        JList (JObj first # _) \<Rightarrow> if truthy (jget first ''id'') then Some (py_str (jget first ''id'')) else None
      | _ \<Rightarrow> None)"

definition build_outbound ::
  "time \<Rightarrow> json dict \<Rightarrow> pystr \<Rightarrow> pystr \<Rightarrow> message_kind \<Rightarrow> pystr option \<Rightarrow> outbound_message" where
  "build_outbound now response to_number body kind tenant_id =
     outbound now to_number body kind tenant_id (vendor_id response)"

section \<open>Kapso\<close>

text \<open>\<open>if tenant_id: payload["tenant_id"] = tenant_id\<close>.\<close>

definition with_tenant :: "pystr option \<Rightarrow> json dict \<Rightarrow> json dict" where
  "with_tenant tenant_id payload =
     (case tenant_id of None \<Rightarrow> payload
      | Some t \<Rightarrow> if t = [] then payload else dset payload (lit ''tenant_id'') (JStr t))"

definition kapso_base :: "pystr \<Rightarrow> pystr" where
  "kapso_base base_url = rev (dropWhile (\<lambda>c. c = 47) (rev base_url))"

definition kapso_send_text ::
  "http_post \<Rightarrow> pystr \<Rightarrow> time \<Rightarrow> pystr \<Rightarrow> pystr \<Rightarrow> pystr option \<Rightarrow> outbound_message res" where
  "kapso_send_text post base_url now to_number body tenant_id =
     (let payload = with_tenant tenant_id
            [((lit ''to''), JStr to_number), ((lit ''type''), JStr (lit ''text'')), ((lit ''text''), JObj [((lit ''body''), JStr body)])]
      in and_then (kapso_post post (kapso_base base_url) (lit ''/messages'') (JObj payload))
           (\<lambda>r. Inr (build_outbound now r to_number body Text_Message tenant_id)))"

definition kapso_send_template ::
  "http_post \<Rightarrow> pystr \<Rightarrow> time \<Rightarrow> pystr \<Rightarrow> pystr \<Rightarrow> pystr dict option \<Rightarrow> pystr option \<Rightarrow> outbound_message res" where
  "kapso_send_template post base_url now to_number template_id params tenant_id =
     (let ps = (case params of None \<Rightarrow> [] | Some p \<Rightarrow> p);
          payload = with_tenant tenant_id
            [((lit ''to''), JStr to_number), ((lit ''type''), JStr (lit ''template'')),
             ((lit ''template''), JObj [((lit ''name''), JStr template_id),
                ((lit ''parameters''), JObj (map (\<lambda>p. (fst p, JStr (snd p))) ps))])]
      in and_then (kapso_post post (kapso_base base_url) (lit ''/messages'') (JObj payload))
           (\<lambda>r. Inr ((build_outbound now r to_number (template_body template_id) Template_Message tenant_id)
                       \<lparr>om_template_id := Some template_id, om_template_params := ps\<rparr>)))"

section \<open>Meta Cloud\<close>

record cloud_gateway =
  cg_access_token :: pystr
  cg_endpoint :: pystr
  cg_default_language :: pystr

definition make_cloud_gateway :: "pystr \<Rightarrow> pystr \<Rightarrow> pystr \<Rightarrow> pystr \<Rightarrow> cloud_gateway res" where
  "make_cloud_gateway access_token phone_number_id graph_version default_language =
     (if access_token = [] then Inl (GatewayError (lit ''WhatsAppCloudGateway requires a non-empty access_token''))
      else if phone_number_id = [] then Inl (GatewayError (lit ''WhatsAppCloudGateway requires a non-empty phone_number_id''))
      else Inr \<lparr>cg_access_token = access_token,
                cg_endpoint = (lit ''https://graph.facebook.com'') @ (lit ''/'') @ graph_version @ (lit ''/'') @ phone_number_id @ (lit ''/messages''),
                cg_default_language = default_language\<rparr>)"

definition cloud_text :: "pystr \<Rightarrow> pystr \<Rightarrow> json" where
  "cloud_text to_number body =
     JObj [((lit ''messaging_product''), JStr (lit ''whatsapp'')), ((lit ''recipient_type''), JStr (lit ''individual'')), ((lit ''to''), JStr to_number),
           ((lit ''type''), JStr (lit ''text'')), ((lit ''text''), JObj [((lit ''preview_url''), JBool False), ((lit ''body''), JStr body)])]"

definition cloud_send_text ::
  "http_post \<Rightarrow> cloud_gateway \<Rightarrow> time \<Rightarrow> pystr \<Rightarrow> pystr \<Rightarrow> pystr option \<Rightarrow> outbound_message res" where
  "cloud_send_text post g now to_number body tenant_id =
     and_then (cloud_post post (cg_endpoint g) (cg_access_token g) (cloud_text to_number body))
       (\<lambda>r. Inr (build_outbound now r to_number body Text_Message tenant_id))"

definition cloud_send_template ::
  "http_post \<Rightarrow> cloud_gateway \<Rightarrow> time \<Rightarrow> pystr \<Rightarrow> pystr \<Rightarrow> pystr dict option \<Rightarrow> pystr option \<Rightarrow> outbound_message res" where
  "cloud_send_template post g now to_number template_id params tenant_id =
     (let ps = (case params of None \<Rightarrow> [] | Some p \<Rightarrow> p);
          components = (if ps = [] then []
            else [JObj [((lit ''type''), JStr (lit ''body'')),
                    ((lit ''parameters''), JList (map (\<lambda>v. JObj [((lit ''type''), JStr (lit ''text'')), ((lit ''text''), JStr v)]) (dvalues ps)))]])
      in and_then (cloud_post post (cg_endpoint g) (cg_access_token g)
             (JObj [((lit ''messaging_product''), JStr (lit ''whatsapp'')), ((lit ''to''), JStr to_number), ((lit ''type''), JStr (lit ''template'')),
                    ((lit ''template''), JObj [((lit ''name''), JStr template_id),
                       ((lit ''language''), JObj [((lit ''code''), JStr (cg_default_language g))]), ((lit ''components''), JList components)])]))
           (\<lambda>r. Inr ((build_outbound now r to_number (template_body template_id) Template_Message tenant_id)
                       \<lparr>om_template_id := Some template_id, om_template_params := ps\<rparr>)))"

section \<open>Outcomes\<close>

text \<open>
  What a send of the two HTTP adapters can end in: the transport failed, the gateway refused,
  the body was no JSON, or the message was accepted.
\<close>

definition accepted :: "pystr + chat_response \<Rightarrow> json dict option" where
  "accepted answer =
     (case answer of Inl _ \<Rightarrow> None
      | Inr r \<Rightarrow> if cr_status r \<ge> 400 then None
                else (case cr_json r of Inl _ \<Rightarrow> None | Inr body \<Rightarrow> Some (as_dict body)))"

definition refused :: "pystr + chat_response \<Rightarrow> bool" where
  "refused answer \<longleftrightarrow> (case answer of Inl _ \<Rightarrow> True | Inr r \<Rightarrow> cr_status r \<ge> 400)"

lemma cloud_post_accepted:
  "cloud_post post e tok p = Inr d \<longleftrightarrow>
     accepted (post e p (cloud_headers tok)) = Some d"
  by (auto simp: cloud_post_def accepted_def http_error_floor_def split: sum.splits)

lemma cloud_post_refused:
  "(\<exists>m. cloud_post post e tok p = Inl (GatewayError m)) \<longleftrightarrow>
     refused (post e p (cloud_headers tok))"
  by (auto simp: cloud_post_def refused_def http_error_floor_def split: sum.splits)

lemma kapso_post_accepted:
  "kapso_post post b path p = Inr d \<longleftrightarrow> accepted (post (b @ path) p []) = Some d"
  by (auto simp: kapso_post_def accepted_def http_error_floor_def split: sum.splits)

lemma cloud_text_outcome:
  "case accepted (post (cg_endpoint g) (cloud_text dest body) (cloud_headers (cg_access_token g))) of
     Some d \<Rightarrow> cloud_send_text post g now dest body t = Inr (outbound now dest body Text_Message t (vendor_id d))
   | None \<Rightarrow> \<exists>m. cloud_send_text post g now dest body t =
       Inl (if refused (post (cg_endpoint g) (cloud_text dest body) (cloud_headers (cg_access_token g)))
            then GatewayError m else ValueError m)"
proof (cases "post (cg_endpoint g) (cloud_text dest body) (cloud_headers (cg_access_token g))")
  case (Inl e)
  then show ?thesis by (simp add: cloud_send_text_def cloud_post_def accepted_def refused_def)
next
  case (Inr r)
  then show ?thesis
    by (cases "cr_json r")
      (simp_all add: cloud_send_text_def cloud_post_def accepted_def refused_def http_error_floor_def build_outbound_def)
qed

lemma cloud_template_outcome:
  "cloud_send_template post g now dest name params t = Inr m \<Longrightarrow>
     om_to_number m = dest \<and> om_template_id m = Some name \<and> om_kind m = Template_Message \<and> om_body m = template_body name"
  by (auto simp: cloud_send_template_def and_then_Inr Let_def build_outbound_def outbound_def)

end
