(* ===== verification/Skills.thy ===== *)
theory Skills
  imports Ingestion Resources
begin

text \<open>
  The skills (\<open>sdk/wapsell/skills/\<close>) and the goal judge (\<open>sdk/wapsell/goal.py\<close>): catalog look-up,
  resource search, lead qualifier, sales closer, and the registry that invokes them by name. A
  skill works on the host's stores (\<open>skill_host\<close>) and on two JSON dictionaries, the context and
  the parameters; a parameter of the wrong type raises what Python raises. The patterns of the
  qualifier are lists of words: a word counts where it stands between word boundaries, and the
  scan goes on after it, which is what \<open>findall\<close> does with an alternation of literals.
\<close>

record skill_result =
  so_success :: bool
  so_data :: "json dict"
  so_error :: "pystr option"

definition skill_ok :: "json dict \<Rightarrow> skill_result" where
  "skill_ok data = \<lparr>so_success = True, so_data = data, so_error = None\<rparr>"

definition skill_fail :: "pystr \<Rightarrow> skill_result" where
  "skill_fail e = \<lparr>so_success = False, so_data = [], so_error = Some e\<rparr>"

record skill_host =
  sk_facts :: facts
  sk_resources :: resource_store
  sk_query_log :: query_log

type_synonym skill = "skill_host \<Rightarrow> time \<Rightarrow> json dict \<Rightarrow> json dict \<Rightarrow> skill_host \<times> skill_result res"

text \<open>\<open>v or ""\<close> followed by the string method \<open>m\<close>.\<close>

definition string_or :: "json \<Rightarrow> pystr \<Rightarrow> pystr \<Rightarrow> pystr res" where
  "string_or v dflt m =
     (if \<not> truthy v then Inr dflt
      else (case v of JStr s \<Rightarrow> Inr s
            | _ \<Rightarrow> Inl (AttributeError (([39]) @ type_name v @ ([39] @ lit '' object has no attribute '' @ [39]) @ m @ ([39])))))"

section \<open>Catalog look-up\<close>

definition fact_match :: "fact \<Rightarrow> json" where
  "fact_match f = JObj [((lit ''content''), JStr (f_content f)), ((lit ''source''), JStr (f_source f)),
     ((lit ''metadata''), JObj (map (\<lambda>p. (fst p, JStr (snd p))) (f_metadata f)))]"

definition catalog_lookup :: skill where
  "catalog_lookup h now context params =
     (h, and_then (string_or (jget params ''query'') [] (lit ''strip'')) (\<lambda>q.
       (let query = strip q; tenant_id = jget context ''tenant_id''
        in if query = [] then Inr (skill_fail (lit ''query is required''))
           else if \<not> truthy tenant_id
           then Inr (skill_fail (lit ''context.tenant_id is required for tenant-scoped lookup''))
           else (let k = jget params ''top_k''
                 in and_then (int_of_json (if truthy k then k else JInt 5)) (\<lambda>top_k.
                      (let matches = map fact_match (query_facts (sk_facts h) query (Some (py_str tenant_id)) top_k);
                           message = (if matches = [] then (lit ''no products found for: '') @ str_repr query
                                      else (lit ''found '') @ nat_digits (length matches) @ (lit '' product(s) for: '') @ str_repr query)
                       in Inr (skill_ok [((lit ''matches''), JList matches), ((lit ''message''), JStr message),
                                         ((lit ''tenant_id''), tenant_id)])))))))"

section \<open>Resource search\<close>

definition resource_match :: "resource \<Rightarrow> json" where
  "resource_match r = JObj [((lit ''id''), JStr (re_id r)), ((lit ''summary''), JStr (re_summary r)),
     ((lit ''data''), JObj (re_data r)), ((lit ''kind''), JStr (re_kind r))]"

text \<open>
  The log entry is validated by Pydantic: a buyer that is neither a string nor absent is
  rejected, and the exception is suppressed with the write.
\<close>

definition search_log_entry ::
  "time \<Rightarrow> pystr \<Rightarrow> json \<Rightarrow> pystr option \<Rightarrow> json dict \<Rightarrow> nat \<Rightarrow> query_log_entry option" where
  "search_log_entry now tenant_id buyer query_text filters n =
     (let e = (\<lambda>b. \<lparr>ql_id = None, ql_tenant_id = tenant_id, ql_buyer_id = b, ql_query_text = query_text,
                   ql_filters = filters, ql_result_count = int n, ql_created_at = now\<rparr>)
      in case buyer of JNull \<Rightarrow> Some (e None) | JStr b \<Rightarrow> Some (e (Some b)) | _ \<Rightarrow> None)"

definition clamp_limit :: "int \<Rightarrow> int" where
  "clamp_limit n = max 1 (min n 25)"

definition none_if_empty :: "pystr \<Rightarrow> pystr option" where
  "none_if_empty s = (if s = [] then None else Some s)"

definition resource_search :: skill where
  "resource_search h now context params =
     (let tenant_id = jget context ''tenant_id''
      in if \<not> truthy tenant_id then (h, Inr (skill_fail (lit ''context.tenant_id is required for resource search'')))
         else (case (if truthy (jget params ''filters'') then jget params ''filters'' else JObj []) of
                 JObj filters \<Rightarrow>
                   (case string_or (jget params ''query'') [] (lit ''strip'') of
                      Inl e \<Rightarrow> (h, Inl e)
                    | Inr q \<Rightarrow>
                        (let query_text = none_if_empty (strip q);
                             kind = (if truthy (jget params ''kind'') then Some (py_str (jget params ''kind'')) else None);
                             l = jget params ''limit''
                         in case int_of_json (if truthy l then l else JInt 5) of
                              Inl e \<Rightarrow> (h, Inl e)
                            | Inr n \<Rightarrow>
                                (case res_search (sk_resources h) (py_str tenant_id) (Some filters) query_text kind
                                        (clamp_limit n) of
                                   Inl e \<Rightarrow> (h, Inl e)
                                 | Inr hits \<Rightarrow>
                                     (let h' = (case search_log_entry now (py_str tenant_id) (jget context ''buyer_id'')
                                                       query_text filters (length hits) of
                                                  None \<Rightarrow> h
                                                | Some e \<Rightarrow> h\<lparr>sk_query_log := fst (log_query (sk_query_log h) e)\<rparr>);
                                          message = (if hits = [] then (lit ''no matches for the given filters / query'')
                                                     else (lit ''found '') @ nat_digits (length hits) @ (lit '' match(es)''))
                                      in (h', Inr (skill_ok
                                            [((lit ''matches''), JList (map resource_match hits)), ((lit ''message''), JStr message),
                                             ((lit ''tenant_id''), tenant_id), ((lit ''applied_filters''), JObj filters),
                                             ((lit ''query''), case query_text of None \<Rightarrow> JNull | Some q \<Rightarrow> JStr q)]))))))
               | _ \<Rightarrow> (h, Inr (skill_fail (lit ''filters must be a dict of {key: value}'')))))"

section \<open>Lead qualifier\<close>

definition high_intent :: "pystr list" where
  "high_intent = [(lit ''comprar''), (lit ''quiero''), (lit ''necesito''), (lit ''precio''), (lit ''cu'' @ [233] @ lit ''nto''), (lit ''cuento''), (lit ''costo''), (lit ''envi'' @ [225] @ lit ''r''), (lit ''enviar''),
     (lit ''ordenar''), (lit ''pedir''), (lit ''pago''), (lit ''transferencia''), (lit ''urgente''), (lit ''hoy'')]"

definition low_intent :: "pystr list" where
  "low_intent = [(lit ''solo''), (lit ''curiosidad''), (lit ''viendo''), (lit ''despu'' @ [233] @ lit ''s''), (lit ''despues''), (lit ''luego''), (lit ''tal vez''), (lit ''quiz'' @ [225]), (lit ''quiza'')]"

definition urgency :: "pystr list" where
  "urgency = [(lit ''urgente''), (lit ''hoy''), (lit ''ahora''), (lit ''inmediato''), (lit ''ya''), (lit ''ma'' @ [241] @ lit ''ana''), (lit ''manana''), (lit ''lo antes posible'')]"

definition budget :: "pystr list" where
  "budget = [(lit ''presupuesto''), (lit ''lmite''), (lit ''m'' @ [225] @ lit ''ximo''), (lit ''maximo''), (lit ''no m'' @ [225] @ lit ''s de''), (lit ''no mas de''), (lit ''caro''), (lit ''barato''), (lit ''cuesta''),
     (lit ''cuesta'')]"

text \<open>The first alternative that matches here, between word boundaries, ignoring case.\<close>

definition match_here :: "pystr list \<Rightarrow> bool \<Rightarrow> pystr \<Rightarrow> nat option" where
  "match_here ws prev s =
     (if s = [] \<or> prev = is_word (hd s) then None
      else map_option length
        (find (\<lambda>w. startswith (lower s) w
                 \<and> (case drop (length w) s of [] \<Rightarrow> is_word (last w) | c # _ \<Rightarrow> is_word (last w) \<noteq> is_word c)) ws))"

fun hits :: "pystr list \<Rightarrow> nat \<Rightarrow> bool \<Rightarrow> pystr \<Rightarrow> nat" where
  "hits ws k prev [] = 0"
| "hits ws k prev (c # s) =
     (case k of
        Suc m \<Rightarrow> hits ws m (is_word c) s
      | 0 \<Rightarrow> (case match_here ws prev (c # s) of
               None \<Rightarrow> hits ws 0 (is_word c) s
             | Some n \<Rightarrow> Suc (hits ws (n - 1) (is_word c) s)))"

definition findall :: "pystr list \<Rightarrow> pystr \<Rightarrow> nat" where
  "findall ws s = hits ws 0 False s"

definition lead_score :: "pystr \<Rightarrow> int" where
  "lead_score message =
     (let m = lower message;
          score = 50 + int (findall high_intent m) * 10 - int (findall low_intent m) * 8
                    + int (findall urgency m) * 15 + int (findall budget m) * 5
      in max 0 (min 100 score))"

definition lead_tag :: "int \<Rightarrow> pystr" where
  "lead_tag score = (if score \<ge> 70 then (lit ''hot'') else if score \<ge> 40 then (lit ''warm'') else (lit ''cold''))"

definition next_action :: "int \<Rightarrow> pystr \<Rightarrow> pystr" where
  "next_action score tag =
     (if tag = (lit ''hot'') then (lit ''prioritize: assign sales-closer immediately'')
      else if tag = (lit ''warm'') \<and> score \<ge> 55 then (lit ''nurture: send catalog and follow up'')
      else (lit ''monitor: no immediate action''))"

definition lead_qualifier :: skill where
  "lead_qualifier h now context params =
     (h, and_then (string_or (jget params ''message'') [] (lit ''strip'')) (\<lambda>m.
       (let message = strip m
        in if message = [] then Inr (skill_fail (lit ''message is required''))
           else (let score = lead_score message; tag = lead_tag score
                 in Inr (skill_ok [((lit ''intent_score''), JInt score), ((lit ''tag''), JStr tag),
                      ((lit ''urgency_detected''), JBool (findall urgency message > 0)),
                      ((lit ''budget_signal_detected''), JBool (findall budget message > 0)),
                      ((lit ''suggested_next_action''), JStr (next_action score tag))])))))"

section \<open>Sales closer\<close>

datatype stage = IDENTIFY | PRESENT | OBJECTIONS | CONFIRM | NOTIFY | CLOSED | ESCALATED

definition stage_str :: "stage \<Rightarrow> pystr" where
  "stage_str s = (case s of IDENTIFY \<Rightarrow> (lit ''IDENTIFY'') | PRESENT \<Rightarrow> (lit ''PRESENT'') | OBJECTIONS \<Rightarrow> (lit ''OBJECTIONS'')
     | CONFIRM \<Rightarrow> (lit ''CONFIRM'') | NOTIFY \<Rightarrow> (lit ''NOTIFY'') | CLOSED \<Rightarrow> (lit ''CLOSED'') | ESCALATED \<Rightarrow> (lit ''ESCALATED''))"

definition all_stages :: "stage list" where
  "all_stages = [IDENTIFY, PRESENT, OBJECTIONS, CONFIRM, NOTIFY, CLOSED, ESCALATED]"

definition stage_of :: "pystr \<Rightarrow> stage option" where
  "stage_of s = find (\<lambda>x. stage_str x = s) all_stages"

definition stage_prompt :: "stage \<Rightarrow> pystr" where
  "stage_prompt s =
     (case s of
        IDENTIFY \<Rightarrow> (lit ''Pregunt'' @ [225] @ lit '' al cliente qu'' @ [233] @ lit '' producto busca, cantidad y uso.'')
      | PRESENT \<Rightarrow> (lit ''Present'' @ [225] @ lit '' los productos del cat'' @ [225] @ lit ''logo que matchean su necesidad. '')
          @ (lit ''Inclu'' @ [237] @ lit '' precio y stock. Nunca inventes datos.'')
      | OBJECTIONS \<Rightarrow> (lit ''Respond'' @ [233] @ lit '' objeciones con honestidad. Ofrec'' @ [233] @ lit '' alternativas si no hay stock. '')
          @ (lit ''Si la objeci'' @ [243] @ lit ''n se repite, escal'' @ [225] @ lit '' a humano.'')
      | CONFIRM \<Rightarrow> (lit ''Ped'' @ [237] @ lit '' confirmaci'' @ [243] @ lit ''n de compra y m'' @ [233] @ lit ''todo de pago. No marques como cerrado sin pago confirmado.'')
      | NOTIFY \<Rightarrow> (lit ''Confirm'' @ [225] @ lit '' la venta y notific'' @ [225] @ lit '' al canal correspondiente.'')
      | _ \<Rightarrow> [])"

definition any_in :: "pystr list \<Rightarrow> pystr \<Rightarrow> bool" where
  "any_in ws m \<longleftrightarrow> (\<exists>w \<in> set ws. contains w m)"

definition transition :: "stage \<Rightarrow> pystr \<Rightarrow> stage" where
  "transition current message =
     (let m = lower message
      in case current of
           IDENTIFY \<Rightarrow> PRESENT
         | PRESENT \<Rightarrow> if any_in [(lit ''no''), (lit ''caro''), (lit ''otro''), (lit ''alternativa'')] m then OBJECTIONS else CONFIRM
         | OBJECTIONS \<Rightarrow> if any_in [(lit ''escalar''), (lit ''humano''), (lit ''hablar con'')] m then ESCALATED
                         else if any_in [(lit ''ok''), (lit ''s'' @ [237]), (lit ''si''), (lit ''compro''), (lit ''quiero''), (lit ''dame'')] m then CONFIRM
                         else OBJECTIONS
         | CONFIRM \<Rightarrow> if any_in [(lit ''pagado''), (lit ''transfer'' @ [237]), (lit ''ok''), (lit ''listo'')] m then NOTIFY else CONFIRM
         | NOTIFY \<Rightarrow> CLOSED
         | CLOSED \<Rightarrow> CLOSED
         | ESCALATED \<Rightarrow> ESCALATED)"

text \<open>
  \<open>str.upper\<close>, exact on ASCII and Latin-1, and on the two other code points with an ASCII upper
  case, the dotless i and the long s.
\<close>

definition upper_cp :: "nat \<Rightarrow> pystr" where
  "upper_cp c =
     (if (97 \<le> c \<and> c \<le> 122) \<or> (224 \<le> c \<and> c \<le> 254 \<and> c \<noteq> 247) then [c - 32]
      else if c = 223 then [83, 83] else if c = 255 then [376] else if c = 181 then [924]
      else if c = 305 then [73] else if c = 383 then [83] else [c])"

definition upper :: "pystr \<Rightarrow> pystr" where
  "upper s = concat (map upper_cp s)"

definition sales_closer :: skill where
  "sales_closer h now context params =
     (h, and_then (string_or (jget params ''current_stage'') (lit ''IDENTIFY'') (lit ''upper'')) (\<lambda>raw.
       (case stage_of (upper raw) of
          None \<Rightarrow> Inr (skill_fail ((lit ''invalid stage: '') @ upper raw))
        | Some current \<Rightarrow>
            and_then (string_or (jget params ''message'') [] (lit ''lower'')) (\<lambda>message.
              (let nxt = transition current message
               in Inr (skill_ok [((lit ''current_stage''), JStr (stage_str current)), ((lit ''next_stage''), JStr (stage_str nxt)),
                    ((lit ''prompt''), JStr (stage_prompt nxt)), ((lit ''is_terminal''), JBool (nxt = CLOSED \<or> nxt = ESCALATED)),
                    ((lit ''needs_escalation''), JBool (nxt = ESCALATED))]))))))"

section \<open>Registry\<close>

type_synonym registry = "skill dict"

definition builtin_skills :: registry where
  "builtin_skills = [((lit ''catalog-lookup''), catalog_lookup), ((lit ''lead-qualifier''), lead_qualifier),
     ((lit ''sales-closer''), sales_closer), ((lit ''resource-search''), resource_search)]"

definition register_skill :: "registry \<Rightarrow> pystr \<Rightarrow> skill \<Rightarrow> registry" where
  "register_skill reg name sk = dset reg name sk"

definition skill_get :: "registry \<Rightarrow> pystr \<Rightarrow> skill res" where
  "skill_get reg name =
     (case dget reg name of None \<Rightarrow> Inl (SkillNotFoundError ((lit ''unknown skill: '') @ name)) | Some s \<Rightarrow> Inr s)"

definition skill_names :: "registry \<Rightarrow> pystr list" where
  "skill_names reg = dkeys reg"

definition invoke ::
  "registry \<Rightarrow> skill_host \<Rightarrow> time \<Rightarrow> pystr \<Rightarrow> json dict \<Rightarrow> json dict \<Rightarrow> skill_host \<times> skill_result res" where
  "invoke reg h now name context params =
     (case skill_get reg name of Inl e \<Rightarrow> (h, Inl e) | Inr sk \<Rightarrow> sk h now context params)"

text \<open>\<open>WapsellClient.invoke_skill\<close>.\<close>

definition client_invoke_skill ::
  "registry \<Rightarrow> skill_host \<Rightarrow> time \<Rightarrow> pystr \<Rightarrow> json dict \<Rightarrow> json dict \<Rightarrow> skill_host \<times> json dict res" where
  "client_invoke_skill reg h now name context params =
     (case invoke reg h now name context params of
        (h', Inl e) \<Rightarrow> (h', Inl e)
      | (h', Inr r) \<Rightarrow>
          (h', Inr (dmerge (so_data r) [((lit ''success''), JBool (so_success r)),
                      ((lit ''error''), case so_error r of None \<Rightarrow> JNull | Some e \<Rightarrow> JStr e)])))"

section \<open>Goals\<close>

datatype goal_type = QUALIFY | SELL | LOOKUP | FOLLOW_UP

definition goal_type_str :: "goal_type \<Rightarrow> pystr" where
  "goal_type_str g = (case g of QUALIFY \<Rightarrow> (lit ''qualify'') | SELL \<Rightarrow> (lit ''sell'') | LOOKUP \<Rightarrow> (lit ''lookup'') | FOLLOW_UP \<Rightarrow> (lit ''follow_up''))"

definition goal_type_of :: "pystr \<Rightarrow> goal_type option" where
  "goal_type_of s = find (\<lambda>g. goal_type_str g = s) [QUALIFY, SELL, LOOKUP, FOLLOW_UP]"

datatype goal_status = PENDING_GOAL | ACTIVE_GOAL | ACHIEVED_GOAL | FAILED_GOAL

record goal =
  go_id :: pystr
  go_tenant_id :: pystr
  go_type :: goal_type
  go_status :: goal_status
  go_params :: "json dict"
  go_created_at :: time

text \<open>\<open>achieved\<close> is the value of an \<open>and\<close>, which for a sale can be what the context holds.\<close>

record goal_result =
  gr_goal_id :: pystr
  gr_achieved :: json
  gr_score :: rat
  gr_diagnostics :: "json dict"

definition judge_qualify :: "goal \<Rightarrow> json dict \<Rightarrow> goal_result res" where
  "judge_qualify g context =
     (let score = dget_or context (lit ''intent_score'') (JInt 0); tag = dget_or context (lit ''tag'') (JStr (lit ''cold''))
      in case json_num score of
           None \<Rightarrow> Inl (TypeError (([39] @ lit ''>='' @ [39] @ lit '' not supported between instances of '' @ [39]) @ type_name score @ ([39] @ lit '' and '' @ [39] @ lit ''int'' @ [39])))
         | Some n \<Rightarrow>
             Inr \<lparr>gr_goal_id = go_id g, gr_achieved = JBool (n \<ge> 40 \<and> tag \<in> {JStr (lit ''warm''), JStr (lit ''hot'')}),
                  gr_score = n / 100,
                  gr_diagnostics = [((lit ''intent_score''), score), ((lit ''tag''), tag), ((lit ''threshold''), JInt 40)]\<rparr>)"

definition judge_sell :: "goal \<Rightarrow> json dict \<Rightarrow> goal_result" where
  "judge_sell g context =
     (let stage = dget_or context (lit ''stage'') (JStr (lit ''IDENTIFY''));
          paid = dget_or context (lit ''payment_confirmed'') (JBool False);
          achieved = (if stage = JStr (lit ''CLOSED'') then paid else JBool False)
      in \<lparr>gr_goal_id = go_id g, gr_achieved = achieved, gr_score = (if truthy achieved then 1 else 0),
          gr_diagnostics = [((lit ''stage''), stage), ((lit ''payment_confirmed''), paid)]\<rparr>)"

definition json_len :: "json \<Rightarrow> nat res" where
  "json_len j = (case j of JList xs \<Rightarrow> Inr (length xs) | JObj d \<Rightarrow> Inr (length d) | JStr s \<Rightarrow> Inr (length s)
     | _ \<Rightarrow> Inl (TypeError ((lit ''object of type '' @ [39]) @ type_name j @ ([39] @ lit '' has no len()''))))"

definition judge_lookup :: "goal \<Rightarrow> json dict \<Rightarrow> goal_result res" where
  "judge_lookup g context =
     and_then (json_len (dget_or context (lit ''matches'') (JList []))) (\<lambda>n.
       Inr \<lparr>gr_goal_id = go_id g, gr_achieved = JBool (n > 0), gr_score = (if n > 0 then 1 else 0),
            gr_diagnostics = [((lit ''matches_found''), JInt (int n)), ((lit ''query''), dget_or (go_params g) (lit ''query'') (JStr []))]\<rparr>)"

definition judge :: "goal \<Rightarrow> json dict \<Rightarrow> goal_result res" where
  "judge g context =
     (case go_type g of
        QUALIFY \<Rightarrow> judge_qualify g context
      | SELL \<Rightarrow> Inr (judge_sell g context)
      | LOOKUP \<Rightarrow> judge_lookup g context
      | FOLLOW_UP \<Rightarrow> Inr \<lparr>gr_goal_id = go_id g, gr_achieved = JBool False, gr_score = 0,
                         gr_diagnostics = [((lit ''error''), JStr (lit ''unknown goal type''))]\<rparr>)"

section \<open>Conversations with the closer\<close>

text \<open>The stage after a list of messages, one invocation each.\<close>

definition converse :: "stage \<Rightarrow> pystr list \<Rightarrow> stage" where
  "converse s ms = foldl transition s ms"

definition payment_words :: "pystr list" where
  "payment_words = [(lit ''pagado''), (lit ''transfer'' @ [237]), (lit ''ok''), (lit ''listo'')]"

lemma converse_snoc: "converse s (ms @ [m]) = transition (converse s ms) m"
  by (simp add: converse_def)

lemma converse_terminal: "s \<in> {CLOSED, ESCALATED} \<Longrightarrow> converse s ms = s"
  by (induction ms) (auto simp: converse_def transition_def)

lemma transition_target:
  "transition s m = CLOSED \<Longrightarrow> s \<in> {CLOSED, NOTIFY}"
  "transition s m = NOTIFY \<Longrightarrow> s = CONFIRM \<and> any_in payment_words (lower m)"
  "transition s m = ESCALATED \<Longrightarrow> s = ESCALATED \<or> s = OBJECTIONS \<and> any_in [(lit ''escalar''), (lit ''humano''), (lit ''hablar con'')] (lower m)"
  by (cases s; simp add: transition_def payment_words_def Let_def split: if_splits)+

text \<open>The funnel in its order, the order of the source's enumeration: a conversation never goes back.\<close>

definition stage_rank :: "stage \<Rightarrow> nat" where
  "stage_rank s = (case s of IDENTIFY \<Rightarrow> 0 | PRESENT \<Rightarrow> 1 | OBJECTIONS \<Rightarrow> 2 | CONFIRM \<Rightarrow> 3 | NOTIFY \<Rightarrow> 4 | CLOSED \<Rightarrow> 5 | ESCALATED \<Rightarrow> 6)"

lemma stage_rank_inj: "stage_rank s = stage_rank t \<Longrightarrow> s = t"
  by (cases s; cases t) (simp_all add: stage_rank_def)

instantiation stage :: linorder
begin

definition less_eq_stage :: "stage \<Rightarrow> stage \<Rightarrow> bool" where
  "less_eq_stage s t \<longleftrightarrow> stage_rank s \<le> stage_rank t"

definition less_stage :: "stage \<Rightarrow> stage \<Rightarrow> bool" where
  "less_stage s t \<longleftrightarrow> stage_rank s < stage_rank t"

instance
  by standard (auto simp: less_eq_stage_def less_stage_def intro: stage_rank_inj)

end

lemma transition_forward: "s \<le> transition s m"
  by (cases s) (simp_all add: transition_def less_eq_stage_def stage_rank_def Let_def)

lemma converse_forward: "converse s ms \<le> converse s (ms @ ms')"
proof (induction ms' rule: rev_induct)
  case (snoc m ms')
  have "converse s (ms @ ms' @ [m]) = transition (converse s (ms @ ms')) m"
    by (simp add: converse_def)
  with snoc show ?case using transition_forward by (metis order_trans)
qed simp

lemma notify_needs_payment:
  assumes "converse IDENTIFY ms \<in> {NOTIFY, CLOSED}"
  shows "\<exists>i < length ms. converse IDENTIFY (take i ms) = CONFIRM \<and> any_in payment_words (lower (ms ! i))"
  using assms
proof (induction ms rule: rev_induct)
  case Nil
  then show ?case by (simp add: converse_def)
next
  case (snoc m ms)
  show ?case
  proof (cases "converse IDENTIFY ms \<in> {NOTIFY, CLOSED}")
    case True
    with snoc.IH obtain i where "i < length ms" "converse IDENTIFY (take i ms) = CONFIRM" "any_in payment_words (lower (ms ! i))"
      by blast
    then show ?thesis by (intro exI[of _ i]) (simp add: nth_append)
  next
    case False
    then have "transition (converse IDENTIFY ms) m = NOTIFY"
      using snoc.prems transition_target(1)[of "converse IDENTIFY ms" m] by (auto simp: converse_snoc)
    from transition_target(2)[OF this] show ?thesis by (intro exI[of _ "length ms"]) simp
  qed
qed

section \<open>Scores and scope\<close>

lemma lead_score_range: "0 \<le> lead_score m \<and> lead_score m \<le> 100"
  by (simp add: lead_score_def Let_def)

lemma lead_tag_split:
  "lead_tag n \<in> {(lit ''warm''), (lit ''hot'')} \<longleftrightarrow> 40 \<le> n" "lead_tag n = (lit ''hot'') \<longleftrightarrow> 70 \<le> n" "lead_tag n = (lit ''cold'') \<longleftrightarrow> n < 40"
  by (auto simp: lead_tag_def)

lemma qualifier_result:
  assumes "jget params ''message'' = JStr message" and "strip message \<noteq> []"
  shows "\<exists>data. invoke builtin_skills h now (lit ''lead-qualifier'') context params = (h, Inr (skill_ok data))
    \<and> dget data (lit ''intent_score'') = Some (JInt (lead_score (strip message)))
    \<and> dget data (lit ''tag'') = Some (JStr (lead_tag (lead_score (strip message))))"
proof -
  have "message \<noteq> []" using assms(2) by auto
  with assms show ?thesis
    by (simp add: invoke_def skill_get_def builtin_skills_def lead_qualifier_def string_or_def Let_def)
      (intro exI conjI, rule refl, simp_all)
qed

lemma judge_lead:
  assumes "dget data (lit ''intent_score'') = Some (JInt n)" and "dget data (lit ''tag'') = Some (JStr (lead_tag n))" and "go_type g = QUALIFY"
  shows "\<exists>r. judge g data = Inr r \<and> gr_achieved r = JBool (40 \<le> n) \<and> gr_score r = of_int n / 100"
proof -
  have "JStr (lead_tag n) \<in> {JStr (lit ''warm''), JStr (lit ''hot'')} \<longleftrightarrow> 40 \<le> n" using lead_tag_split(1)[of n] by simp
  moreover have "(40::rat) \<le> of_int n \<longleftrightarrow> 40 \<le> n" by (metis of_int_le_iff of_int_numeral)
  ultimately show ?thesis using assms
    by (simp add: judge_def judge_qualify_def dget_or_def)
qed

lemma resource_search_scoped:
  assumes "resource_search h now context params = (h', Inr r)" and "so_success r"
  shows "\<exists>tenant hits n. jget context ''tenant_id'' = tenant \<and> truthy tenant
    \<and> jget (so_data r) ''matches'' = JList (map resource_match hits) \<and> length hits \<le> 25
    \<and> (\<forall>x \<in> set hits. x \<in> set (dvalues (sk_resources h)) \<and> re_tenant_id x = py_str tenant \<and> re_status x = (lit ''active''))
    \<and> sk_resources h' = sk_resources h \<and> sk_facts h' = sk_facts h
    \<and> qg_entries (sk_query_log h') = qg_entries (sk_query_log h) @ n \<and> length n \<le> 1"
proof -
  obtain filters q kind k hits where tr: "truthy (jget context ''tenant_id'')"
    and s: "res_search (sk_resources h) (py_str (jget context ''tenant_id'')) (Some filters) q kind (clamp_limit k) = Inr hits"
    and r: "jget (so_data r) ''matches'' = JList (map resource_match hits)"
    and h': "h' = (case search_log_entry now (py_str (jget context ''tenant_id'')) (jget context ''buyer_id'') q filters (length hits) of
                     None \<Rightarrow> h | Some e \<Rightarrow> h\<lparr>sk_query_log := fst (log_query (sk_query_log h) e)\<rparr>)"
    using assms
    by (auto simp: resource_search_def Let_def skill_fail_def skill_ok_def jget_def dget_or_def
        split: if_splits json.splits sum.splits)
  have "int (length hits) \<le> clamp_limit k"
    by (rule search_length[OF s]) (simp add: clamp_limit_def)
  then have len: "length hits \<le> 25" by (simp add: clamp_limit_def)
  have mem: "x \<in> set (dvalues (sk_resources h)) \<and> re_tenant_id x = py_str (jget context ''tenant_id'') \<and> re_status x = (lit ''active'')"
    if "x \<in> set hits" for x
    using search_sound[OF s that] by blast
  have "sk_resources h' = sk_resources h \<and> sk_facts h' = sk_facts h
    \<and> (\<exists>n. qg_entries (sk_query_log h') = qg_entries (sk_query_log h) @ n \<and> length n \<le> 1)"
    unfolding h' by (auto simp: log_query_def Let_def split: option.splits)
  with tr r len mem show ?thesis by blast
qed

end
