(* ===== verification/Token_Cipher.thy ===== *)
theory Token_Cipher
  imports Py_String
begin

text \<open>
  The credential cipher (\<open>sdk/wapsell/security/crypto.py\<close>): a token is the URL-safe base64 of
  nonce and ciphertext, without padding. Bytes are naturals below 256. AES-GCM is a parameter
  (\<open>aead\<close>): its two operations on nonce, data and associated data, \<open>None\<close> standing for
  \<open>InvalidTag\<close>. Base64 and UTF-8 are the ones of the standard library, the base64 decoder being
  the lenient one: it skips characters outside the alphabet and stops at a complete padding.
\<close>

section \<open>UTF-8\<close>

definition utf8_cp :: "nat \<Rightarrow> nat list" where
  "utf8_cp c =
     (if c < 128 then [c]
      else if c < 2048 then [192 + c div 64, 128 + c mod 64]
      else if c < 65536 then [224 + c div 4096, 128 + c div 64 mod 64, 128 + c mod 64]
      else [240 + c div 262144, 128 + c div 4096 mod 64, 128 + c div 64 mod 64, 128 + c mod 64])"

definition encodable :: "nat \<Rightarrow> bool" where
  "encodable c \<longleftrightarrow> c < 1114112 \<and> \<not> (55296 \<le> c \<and> c \<le> 57343)"

text \<open>\<open>s.encode("utf-8")\<close>; a surrogate is refused.\<close>

definition utf8_encode :: "pystr \<Rightarrow> nat list option" where
  "utf8_encode s = (if \<forall>c \<in> set s. encodable c then Some (concat (map utf8_cp s)) else None)"

definition cont :: "nat \<Rightarrow> bool" where
  "cont b \<longleftrightarrow> 128 \<le> b \<and> b < 192"

text \<open>\<open>b.decode("utf-8")\<close>: overlong forms, surrogates and stray bytes are refused.\<close>

fun utf8_decode :: "nat list \<Rightarrow> pystr option" where
  "utf8_decode [] = Some []"
| "utf8_decode (a # r) =
     (if a < 128 then map_option ((#) a) (utf8_decode r)
      else if 194 \<le> a \<and> a < 224 then
        (case r of b # r1 \<Rightarrow> if cont b then map_option ((#) ((a - 192) * 64 + (b - 128))) (utf8_decode r1) else None
         | _ \<Rightarrow> None)
      else if 224 \<le> a \<and> a < 240 then
        (case r of b # c # r1 \<Rightarrow>
           (let v = (a - 224) * 4096 + (b - 128) * 64 + (c - 128)
            in if cont b \<and> cont c \<and> 2048 \<le> v \<and> encodable v then map_option ((#) v) (utf8_decode r1) else None)
         | _ \<Rightarrow> None)
      else if 240 \<le> a \<and> a < 245 then
        (case r of b # c # d # r1 \<Rightarrow>
           (let v = (a - 240) * 262144 + (b - 128) * 4096 + (c - 128) * 64 + (d - 128)
            in if cont b \<and> cont c \<and> cont d \<and> 65536 \<le> v \<and> encodable v
               then map_option ((#) v) (utf8_decode r1) else None)
         | _ \<Rightarrow> None)
      else None)"

section \<open>Base64\<close>

definition b64_char :: "nat \<Rightarrow> nat" where
  "b64_char v = (if v < 26 then 65 + v else if v < 52 then 71 + v else if v < 62 then v - 4
     else if v = 62 then 45 else 95)"

definition b64_value :: "nat \<Rightarrow> nat option" where
  "b64_value c =
     (if 65 \<le> c \<and> c \<le> 90 then Some (c - 65) else if 97 \<le> c \<and> c \<le> 122 then Some (c - 71)
      else if 48 \<le> c \<and> c \<le> 57 then Some (c + 4) else if c = 43 \<or> c = 45 then Some 62
      else if c = 47 \<or> c = 95 then Some 63 else None)"

text \<open>\<open>base64.urlsafe_b64encode\<close>.\<close>

fun b64_encode :: "nat list \<Rightarrow> pystr" where
  "b64_encode [] = []"
| "b64_encode [a] = [b64_char (a div 4), b64_char (a mod 4 * 16), 61, 61]"
| "b64_encode [a, b] = [b64_char (a div 4), b64_char (a mod 4 * 16 + b div 16), b64_char (b mod 16 * 4), 61]"
| "b64_encode (a # b # c # r) =
     [b64_char (a div 4), b64_char (a mod 4 * 16 + b div 16), b64_char (b mod 16 * 4 + c div 64), b64_char (c mod 64)]
     @ b64_encode r"

text \<open>
  \<open>base64.urlsafe_b64decode\<close>: position in the group of four, bits left over, padding characters
  seen. \<open>None\<close> is the \<open>ValueError\<close> of a wrong length or of a character outside ASCII.
\<close>

fun b64_scan :: "nat \<Rightarrow> nat \<Rightarrow> nat \<Rightarrow> pystr \<Rightarrow> nat list option" where
  "b64_scan q left pads [] = (if q = 0 then Some [] else None)"
| "b64_scan q left pads (c # s) =
     (if c = 61 then
        (if q \<ge> 2 \<and> q + pads + 1 \<ge> 4 then Some []
         else b64_scan q left (if q \<ge> 2 then pads + 1 else pads) s)
      else (case b64_value c of
              None \<Rightarrow> b64_scan q left pads s
            | Some v \<Rightarrow>
                if q = 0 then b64_scan 1 v 0 s
                else if q = 1 then map_option ((#) (left * 4 + v div 16)) (b64_scan 2 (v mod 16) 0 s)
                else if q = 2 then map_option ((#) (left * 16 + v div 4)) (b64_scan 3 (v mod 4) 0 s)
                else map_option ((#) (left * 64 + v)) (b64_scan 0 0 0 s)))"

definition b64_decode :: "pystr \<Rightarrow> nat list option" where
  "b64_decode s = (if \<exists>c \<in> set s. c > 127 then None else b64_scan 0 0 0 s)"

definition pad :: "pystr \<Rightarrow> pystr" where
  "pad s = s @ replicate ((4 - length s mod 4) mod 4) 61"

definition strip_padding :: "pystr \<Rightarrow> pystr" where
  "strip_padding s = rev (dropWhile (\<lambda>c. c = 61) (rev s))"

section \<open>The cipher\<close>

record aead =
  ae_encrypt :: "nat list \<Rightarrow> nat list \<Rightarrow> nat list option \<Rightarrow> nat list"
  ae_decrypt :: "nat list \<Rightarrow> nat list \<Rightarrow> nat list option \<Rightarrow> nat list option"

definition nonce_bytes :: nat where
  "nonce_bytes = 12"

definition key_bytes :: nat where
  "key_bytes = 32"

definition generate_key :: "nat list \<Rightarrow> pystr" where
  "generate_key random = b64_encode random"

definition key_from_env :: "pystr \<Rightarrow> pystr \<Rightarrow> nat list res" where
  "key_from_env var raw =
     (if raw = [] then Inl (CryptoError ((lit ''missing env var: '') @ var))
      else (case b64_decode (pad raw) of
              None \<Rightarrow> Inl (CryptoError (var @ (lit '' is not valid base64'')))
            | Some key \<Rightarrow>
                if length key \<noteq> key_bytes
                then Inl (CryptoError (var @ (lit '' must decode to '') @ nat_digits key_bytes @ (lit '' bytes (got '')
                            @ nat_digits (length key) @ (lit '')'')))
                else Inr key))"

text \<open>\<open>TokenCipher(key)\<close>: \<open>AESGCM(key)\<close> is the argument.\<close>

definition make_cipher :: "(nat list \<Rightarrow> aead) \<Rightarrow> nat list \<Rightarrow> aead res" where
  "make_cipher aesgcm key =
     (if length key \<noteq> key_bytes
      then Inl (CryptoError ((lit ''key must be '') @ nat_digits key_bytes @ (lit '' bytes; got '') @ nat_digits (length key)))
      else Inr (aesgcm key))"

text \<open>The nonce is the twelve random bytes of the call.\<close>

definition encrypt :: "aead \<Rightarrow> nat list \<Rightarrow> pystr \<Rightarrow> nat list option \<Rightarrow> pystr res" where
  "encrypt A nonce plaintext ad =
     (case utf8_encode plaintext of
        None \<Rightarrow> Inl (CryptoError (lit ''encrypt failed: surrogates not allowed''))
      | Some b \<Rightarrow> Inr (strip_padding (b64_encode (nonce @ ae_encrypt A nonce b ad))))"

definition decrypt :: "aead \<Rightarrow> pystr \<Rightarrow> nat list option \<Rightarrow> pystr res" where
  "decrypt A tok ad =
     (case b64_decode (pad tok) of
        None \<Rightarrow> Inl (CryptoError (lit ''token is not valid base64''))
      | Some blob \<Rightarrow>
          if length blob \<le> nonce_bytes then Inl (CryptoError (lit ''token shorter than the nonce '' @ [8212] @ lit '' malformed''))
          else (case ae_decrypt A (take nonce_bytes blob) (drop nonce_bytes blob) ad of
                  None \<Rightarrow> Inl (CryptoError (lit ''decrypt failed: authentication tag mismatch''))
                | Some pt \<Rightarrow> (case utf8_decode pt of
                               None \<Rightarrow> Inl (ValueError ([39] @ lit ''utf-8'' @ [39] @ lit '' codec can'' @ [39] @ lit ''t decode bytes''))
                             | Some s \<Rightarrow> Inr s)))"

section \<open>Reading back\<close>

lemma split_base: "0 < n \<Longrightarrow> \<exists>h l. (c::nat) = h * n + l \<and> l < n"
  by (intro exI[of _ "c div n"] exI[of _ "c mod n"]) simp

lemma utf8_cp_back:
  assumes "encodable c"
  shows "utf8_decode (utf8_cp c @ r) = map_option ((#) c) (utf8_decode r)"
proof -
  consider "c < 128" | "128 \<le> c" "c < 2048" | "2048 \<le> c" "c < 65536" | "65536 \<le> c" by linarith
  then show ?thesis
  proof cases
    case 1
    then show ?thesis by (simp add: utf8_cp_def)
  next
    case 2
    obtain h l where c: "c = h * 64 + l" "l < 64" using split_base[of 64 c] by auto
    then have "2 \<le> h" "h < 32" using 2 by linarith+
    with c 2 show ?thesis by (simp add: utf8_cp_def cont_def)
  next
    case 3
    obtain m l where c: "c = m * 64 + l" "l < 64" using split_base[of 64 c] by auto
    obtain h k where m: "m = h * 64 + k" "k < 64" using split_base[of 64 m] by auto
    have "h < 16" using 3 c m by linarith
    moreover have "c div 64 = m" "c mod 64 = l" using c by simp_all
    moreover have "m mod 64 = k" using m by simp
    moreover have "c div 4096 = h" using c m by (simp_all add: div_mult2_eq[of c 64 64, simplified])
    moreover have "h * 4096 + k * 64 + l = c" using c m by simp
    ultimately show ?thesis using 3 c(2) m(2) assms by (simp add: utf8_cp_def cont_def Let_def)
  next
    case 4
    obtain n l where c: "c = n * 64 + l" "l < 64" using split_base[of 64 c] by auto
    obtain m k where n: "n = m * 64 + k" "k < 64" using split_base[of 64 n] by auto
    obtain h j where m: "m = h * 64 + j" "j < 64" using split_base[of 64 m] by auto
    have "h < 5" using assms c n m by (simp add: encodable_def)
    moreover have "c div 262144 = h" "c div 4096 = m" "c div 64 = n"
      using c n m by (simp_all add: div_mult2_eq[of c 64 64, simplified] div_mult2_eq[of c 4096 64, simplified])
    moreover have "c mod 64 = l" using c by simp
    moreover have "n mod 64 = k" using n by simp
    moreover have "m mod 64 = j" using m by simp
    moreover have "h * 262144 + j * 4096 + k * 64 + l = c" using c n m by simp
    ultimately show ?thesis using 4 c(2) n(2) m(2) assms by (simp add: utf8_cp_def cont_def Let_def)
  qed
qed

lemma utf8_back: "utf8_encode s = Some b \<Longrightarrow> utf8_decode b = Some s"
proof -
  have "\<forall>c \<in> set s. encodable c \<Longrightarrow> utf8_decode (concat (map utf8_cp s)) = Some s"
    by (induction s) (simp_all add: utf8_cp_back)
  then show "utf8_encode s = Some b \<Longrightarrow> utf8_decode b = Some s"
    by (auto simp: utf8_encode_def split: if_splits)
qed

lemma b64_char_range: "v < 64 \<Longrightarrow> b64_char v \<noteq> 61 \<and> b64_char v \<le> 127"
  by (auto simp: b64_char_def)

lemma b64_value_char: "v < 64 \<Longrightarrow> b64_value (b64_char v) = Some v"
  by (auto simp: b64_char_def b64_value_def)

lemma scan_char:
  "v < 64 \<Longrightarrow> b64_scan q left pads (b64_char v # s) =
     (if q = 0 then b64_scan 1 v 0 s
      else if q = 1 then map_option ((#) (left * 4 + v div 16)) (b64_scan 2 (v mod 16) 0 s)
      else if q = 2 then map_option ((#) (left * 16 + v div 4)) (b64_scan 3 (v mod 4) 0 s)
      else map_option ((#) (left * 64 + v)) (b64_scan 0 0 0 s))"
  using b64_char_range[of v] by (simp add: b64_value_char)

definition bytes :: "nat list \<Rightarrow> bool" where
  "bytes b \<longleftrightarrow> (\<forall>x \<in> set b. x < 256)"

lemma byte_parts:
  assumes "(a::nat) < 256" and "b < 256" and "c < 256"
  shows "a div 4 < 64" "a mod 4 * 16 + b div 16 < 64" "b mod 16 * 4 + c div 64 < 64" "a mod 4 * 16 < 64" "b mod 16 * 4 < 64"
    and "(a mod 4 * 16 + b div 16) div 16 = a mod 4" "(a mod 4 * 16 + b div 16) mod 16 = b div 16"
    and "(b mod 16 * 4 + c div 64) div 4 = b mod 16" "(b mod 16 * 4 + c div 64) mod 4 = c div 64"
proof -
  have p: "a div 4 < 64" "a mod 4 < 4" "b div 16 < 16" "b mod 16 < 16" "c div 64 < 4"
    using assms by (simp_all add: less_mult_imp_div_less)
  show "a div 4 < 64" "a mod 4 * 16 + b div 16 < 64" "b mod 16 * 4 + c div 64 < 64" "a mod 4 * 16 < 64" "b mod 16 * 4 < 64"
    using p by linarith+
  show "(a mod 4 * 16 + b div 16) div 16 = a mod 4" "(a mod 4 * 16 + b div 16) mod 16 = b div 16"
    using p(3) by simp_all
  show "(b mod 16 * 4 + c div 64) div 4 = b mod 16" "(b mod 16 * 4 + c div 64) mod 4 = c div 64"
    using p(5) by simp_all
qed

lemma scan_pad:
  "b64_scan q left pads (61 # s) =
     (if q \<ge> 2 \<and> q + pads + 1 \<ge> 4 then Some [] else b64_scan q left (if q \<ge> 2 then pads + 1 else pads) s)"
  by simp

lemma scan_encode: "bytes b \<Longrightarrow> b64_scan 0 0 0 (b64_encode b) = Some b"
proof (induction b rule: b64_encode.induct)
  case 1
  then show ?case by simp
next
  case (2 a)
  then show ?case using byte_parts(1,4)[of a 0 0] by (simp add: bytes_def scan_char scan_pad del: b64_scan.simps(2))
next
  case (3 a b)
  then have "a < 256" "b < 256" by (simp_all add: bytes_def)
  then show ?case using byte_parts[of a b 0] by (simp add: scan_char scan_pad del: b64_scan.simps(2))
next
  case (4 a b c r)
  then have ab: "a < 256" "b < 256" "c < 256" "bytes r" by (simp_all add: bytes_def)
  with 4 show ?case using byte_parts[OF ab(1-3)] by (simp add: scan_char scan_pad del: b64_scan.simps(2))
qed

lemma encode_ascii: "bytes b \<Longrightarrow> \<forall>c \<in> set (b64_encode b). c \<le> 127"
proof (induction b rule: b64_encode.induct)
  case (2 a)
  then show ?case using byte_parts(1,4)[of a 0 0] by (simp add: bytes_def b64_char_range)
next
  case (3 a b)
  then show ?case using byte_parts[of a b 0] by (simp add: bytes_def b64_char_range)
next
  case (4 a b c r)
  then show ?case using byte_parts[of a b c] by (simp add: bytes_def b64_char_range)
qed simp

text \<open>Padding the stripped text gives the text back.\<close>

lemma encode_shape:
  "bytes b \<Longrightarrow> \<exists>t k. b64_encode b = t @ replicate k 61 \<and> k \<le> 2 \<and> length (b64_encode b) mod 4 = 0
     \<and> (t = [] \<or> last t \<noteq> 61) \<and> (t = [] \<longrightarrow> k = 0)"
proof (induction b rule: b64_encode.induct)
  case 1
  then show ?case by simp
next
  case (2 a)
  then have "b64_char (a mod 4 * 16) \<noteq> 61" using b64_char_range byte_parts(4)[of a 0 0] by (simp add: bytes_def)
  then show ?case
    by (intro exI[of _ "[b64_char (a div 4), b64_char (a mod 4 * 16)]"] exI[of _ 2]) (simp add: numeral_2_eq_2)
next
  case (3 a b)
  then have "b64_char (b mod 16 * 4) \<noteq> 61" using b64_char_range byte_parts(5)[of a b 0] by (simp add: bytes_def)
  then show ?case
    by (intro exI[of _ "[b64_char (a div 4), b64_char (a mod 4 * 16 + b div 16), b64_char (b mod 16 * 4)]"] exI[of _ 1])
      simp
next
  case (4 a b c r)
  then have r: "bytes r" "b64_char (c mod 64) \<noteq> 61" using b64_char_range by (simp_all add: bytes_def)
  with 4 obtain t k where t: "b64_encode r = t @ replicate k 61" "k \<le> 2" "length (b64_encode r) mod 4 = 0"
    "t = [] \<or> last t \<noteq> 61" "t = [] \<longrightarrow> k = 0"
    by metis
  let ?q = "[b64_char (a div 4), b64_char (a mod 4 * 16 + b div 16), b64_char (b mod 16 * 4 + c div 64), b64_char (c mod 64)]"
  have "b64_encode (a # b # c # r) = (?q @ t) @ replicate k 61" using t(1) by simp
  moreover have "last (?q @ t) \<noteq> 61" using t(4) r(2) by (cases "t = []") simp_all
  moreover have "length (b64_encode (a # b # c # r)) mod 4 = 0" using t(3) by (simp add: mod_Suc)
  ultimately show ?case using t(2) by (metis Nil_is_append_conv list.distinct(1))
qed

lemma missing_padding: "(n + k) mod 4 = 0 \<Longrightarrow> k \<le> 2 \<Longrightarrow> (4 - n mod 4) mod 4 = (k::nat)"
proof -
  assume a: "(n + k) mod 4 = 0" "k \<le> 2"
  consider "k = 0" | "k = 1" | "k = 2" using a(2) by linarith
  then show ?thesis using a(1) by cases (auto simp: mod_Suc split: if_splits)
qed

lemma drop_repeated: "xs = [] \<or> hd xs \<noteq> a \<Longrightarrow> dropWhile (\<lambda>c. c = a) (replicate k a @ xs) = xs"
  by (induction k) (cases xs, auto)

lemma pad_strip: "bytes b \<Longrightarrow> pad (strip_padding (b64_encode b)) = b64_encode b"
proof -
  assume "bytes b"
  from encode_shape[OF this] obtain t k where t: "b64_encode b = t @ replicate k 61" "k \<le> 2"
    "length (b64_encode b) mod 4 = 0" "t = [] \<or> last t \<noteq> 61" by metis
  have "dropWhile (\<lambda>c. c = 61) (replicate k 61 @ rev t) = rev t"
    using t(4) by (intro drop_repeated) (cases t rule: rev_cases; simp)
  then have s: "strip_padding (b64_encode b) = t" by (simp add: strip_padding_def t(1))
  have "(length t + k) mod 4 = 0" using t(1,3) by simp
  then have "(4 - length t mod 4) mod 4 = k" using t(2) by (rule missing_padding)
  with s t(1) show ?thesis by (simp add: pad_def)
qed

lemma decode_back: "bytes b \<Longrightarrow> b64_decode (pad (strip_padding (b64_encode b))) = Some b"
  using encode_ascii[of b] scan_encode[of b] by (auto simp: pad_strip b64_decode_def)

text \<open>What the documentation of AES-GCM promises: decryption inverts encryption, and the tag makes the text longer.\<close>

definition aead_ok :: "aead \<Rightarrow> bool" where
  "aead_ok A \<longleftrightarrow> (\<forall>n p ad. bytes n \<longrightarrow> bytes p \<longrightarrow>
     ae_decrypt A n (ae_encrypt A n p ad) ad = Some p \<and> bytes (ae_encrypt A n p ad) \<and> ae_encrypt A n p ad \<noteq> [])"

lemma utf8_bytes: "utf8_encode s = Some b \<Longrightarrow> bytes b"
proof -
  have cp: "encodable c \<Longrightarrow> bytes (utf8_cp c)" for c
    unfolding utf8_cp_def encodable_def bytes_def by (auto simp: less_mult_imp_div_less)
  assume "utf8_encode s = Some b"
  then have "\<forall>c \<in> set s. encodable c" "b = concat (map utf8_cp s)" by (auto simp: utf8_encode_def split: if_splits)
  then show ?thesis using cp by (auto simp: bytes_def)
qed

lemma decrypt_encrypt:
  assumes "aead_ok A" and "bytes nonce" and "length nonce = nonce_bytes" and "encrypt A nonce s ad = Inr tok"
  shows "decrypt A tok ad = Inr s"
proof -
  obtain b where b: "utf8_encode s = Some b" and tok: "tok = strip_padding (b64_encode (nonce @ ae_encrypt A nonce b ad))"
    using assms(4) by (auto simp: encrypt_def split: option.splits)
  have A: "ae_decrypt A nonce (ae_encrypt A nonce b ad) ad = Some b" "bytes (ae_encrypt A nonce b ad)"
    "ae_encrypt A nonce b ad \<noteq> []"
    using assms(1,2) utf8_bytes[OF b] by (auto simp: aead_ok_def)
  then have "bytes (nonce @ ae_encrypt A nonce b ad)" using assms(2) by (auto simp: bytes_def)
  from decode_back[OF this] show ?thesis
    using A assms(3) utf8_back[OF b] by (simp add: decrypt_def tok)
qed

end
