(* ===== verification/Api_Core.thy ===== *)
theory Api_Core
  imports Events_Onboarding Auth Bot_Pauses Buyer_Memory Ingestion Resources Templates Billing Postgres
begin

text \<open>
  The HTTP API (\<open>services/api/main.py\<close>), first part: the state of the process, the access guards
  and the routes of tenants, SOUL, handoff and catalog facts. \<open>app\<close> bundles the stores of the
  in-memory composition; a request brings its environment (\<open>os.environ\<close>), the clock, its session
  cookie and the identifiers the objects it creates will get. A handler returns the state and
  either the body of the response or the exception that ended it: \<open>HTTPException status detail\<close>
  is the framework's answer, any other exception is an internal error. FastAPI's validation of
  bodies and the rate limiter are outside the model.
\<close>

record app =
  a_tenants :: tenant_store
  a_running :: spawner
  a_bus :: bus
  a_facts :: facts
  a_memory :: memory
  a_pauses :: pause_store
  a_templates :: template_store
  a_resources :: resource_store
  a_sources :: source_store
  a_query_log :: query_log
  a_users :: user_store
  a_sessions :: session_store
  a_subs :: sub_store

record request =
  rq_env :: "pystr dict"
  rq_now :: time
  rq_cookie :: "pystr option"
  rq_uids :: "nat \<Rightarrow> pystr"

type_synonym 'r handled = "app \<times> 'r res"

definition then_do :: "'x handled \<Rightarrow> (app \<Rightarrow> 'x \<Rightarrow> 'y handled) \<Rightarrow> 'y handled" where
  "then_do r f = (case r of (a, Inl e) \<Rightarrow> (a, Inl e) | (a, Inr x) \<Rightarrow> f a x)"

lemma then_do_simps [simp]: "then_do (a, Inl e) f = (a, Inl e)" "then_do (a, Inr x) f = f a x"
  by (simp_all add: then_do_def)

definition getenv :: "request \<Rightarrow> string \<Rightarrow> pystr \<Rightarrow> pystr" where
  "getenv q k dflt = dget_or (rq_env q) (lit k) dflt"

definition int_or :: "pystr \<Rightarrow> int \<Rightarrow> int" where
  "int_or s dflt = (case int_of_str s of None \<Rightarrow> dflt | Some n \<Rightarrow> n)"

section \<open>Cookies and access control\<close>

definition auth_cookie_secure :: "request \<Rightarrow> bool" where
  "auth_cookie_secure q \<longleftrightarrow> lower (getenv q ''WAPSELL_AUTH_COOKIE_SECURE'' (lit ''true'')) \<noteq> (lit ''false'')"

definition auth_cookie_samesite :: "request \<Rightarrow> pystr" where
  "auth_cookie_samesite q =
     (let raw = lower (getenv q ''WAPSELL_AUTH_COOKIE_SAMESITE'' (lit ''strict''))
      in if raw \<notin> {(lit ''strict''), (lit ''lax''), (lit ''none'')} then (lit ''strict'') else raw)"

definition auth_required :: "request \<Rightarrow> bool" where
  "auth_required q \<longleftrightarrow> lower (strip (getenv q ''WAPSELL_AUTH_REQUIRED'' [])) = (lit ''true'')"

definition optional_current_user :: "request \<Rightarrow> app \<Rightarrow> app \<times> user option" where
  "optional_current_user q a =
     (if rq_cookie q = None \<or> rq_cookie q = Some [] then (a, None)
      else (case authenticate (a_users a) (a_sessions a) (rq_now q) (rq_cookie q) of
              (ss, Inl _) \<Rightarrow> (a\<lparr>a_sessions := ss\<rparr>, None)
            | (ss, Inr u) \<Rightarrow> (a\<lparr>a_sessions := ss\<rparr>, Some u)))"

definition assert_authenticated :: "request \<Rightarrow> app \<Rightarrow> user option handled" where
  "assert_authenticated q a =
     (case optional_current_user q a of (a', u) \<Rightarrow>
        if \<not> auth_required q then (a', Inr u)
        else if u = None then (a', Inl (HTTPException 401 (lit ''authentication required'')))
        else (a', Inr u))"

definition assert_admin :: "request \<Rightarrow> app \<Rightarrow> user option handled" where
  "assert_admin q a =
     (if \<not> auth_required q then (case optional_current_user q a of (a', u) \<Rightarrow> (a', Inr u))
      else then_do (assert_authenticated q a) (\<lambda>a' u.
        if \<exists>x. u = Some x \<and> u_role x = ADMIN then (a', Inr u)
        else (a', Inl (HTTPException 403 (lit ''admin role required'')))))"

definition assert_tenant_access :: "request \<Rightarrow> app \<Rightarrow> pystr \<Rightarrow> user option handled" where
  "assert_tenant_access q a tenant_id =
     (if \<not> auth_required q then (case optional_current_user q a of (a', u) \<Rightarrow> (a', Inr u))
      else then_do (assert_authenticated q a) (\<lambda>a' u.
        case u of
          None \<Rightarrow> (a', Inl (HTTPException 401 (lit ''authentication required'')))
        | Some x \<Rightarrow>
            if u_role x = ADMIN then (a', Inr u)
            else if u_tenant_id x \<noteq> Some tenant_id then (a', Inl (HTTPException 403 (lit ''tenant access denied'')))
            else (a', Inr u)))"

definition filter_visible_tenants :: "request \<Rightarrow> app \<Rightarrow> tenant list \<Rightarrow> tenant list handled" where
  "filter_visible_tenants q a ts =
     (if \<not> auth_required q then (a, Inr ts)
      else (case optional_current_user q a of
              (a', None) \<Rightarrow> (a', Inl (HTTPException 401 (lit ''authentication required'')))
            | (a', Some u) \<Rightarrow>
                if u_role u = ADMIN then (a', Inr ts)
                else (a', Inr (filter (\<lambda>t. Some (t_id t) = u_tenant_id u) ts))))"

section \<open>Tenants\<close>

definition tenant_status_str :: "tenant_status \<Rightarrow> pystr" where
  "tenant_status_str s = (case s of PROVISIONING \<Rightarrow> (lit ''PROVISIONING'') | ACTIVE \<Rightarrow> (lit ''ACTIVE'') | SUSPENDED \<Rightarrow> (lit ''SUSPENDED''))"

definition tenant_out :: "tenant \<Rightarrow> json" where
  "tenant_out t =
     JObj [((lit ''id''), JStr (t_id t)), ((lit ''name''), JStr (t_name t)), ((lit ''slug''), JStr (t_slug t)),
           ((lit ''status''), JStr (tenant_status_str (t_status t))), ((lit ''model''), JStr (t_model t)),
           ((lit ''whatsapp_phone_number_id''), json_opt (t_phone_number_id t)),
           ((lit ''created_at''), JStr (isoformat (t_created_at t)))]"

text \<open>\<open>_client.tenants.get\<close> with \<open>KeyError\<close> turned into a 404, and \<open>repository.update\<close>.\<close>

definition load_tenant :: "pystr \<Rightarrow> app \<Rightarrow> tenant handled" where
  "load_tenant tid a =
     (case manager_get mem_tenants (a_tenants a) tid of
        Inl (KeyError m) \<Rightarrow> (a, Inl (HTTPException 404 (lit ''tenant not found'')))
      | Inl e \<Rightarrow> (a, Inl e)
      | Inr t \<Rightarrow> (a, Inr t))"

definition save_tenant :: "tenant \<Rightarrow> app \<Rightarrow> tenant handled" where
  "save_tenant t a =
     (case mem_update (a_tenants a) t of Inl e \<Rightarrow> (a, Inl e) | Inr d \<Rightarrow> (a\<lparr>a_tenants := d\<rparr>, Inr t))"

definition list_tenants :: "request \<Rightarrow> app \<Rightarrow> json handled" where
  "list_tenants q a =
     then_do (filter_visible_tenants q a (mem_list_all (a_tenants a))) (\<lambda>a' ts.
       (a', Inr (JList (map tenant_out ts))))"

record tenant_create =
  tc_name :: pystr
  tc_slug :: pystr
  tc_model :: "pystr option"
  tc_phone_number_id :: "pystr option"

definition create_tenant :: "tenant_create \<Rightarrow> request \<Rightarrow> app \<Rightarrow> json handled" where
  "create_tenant r q a =
     then_do (assert_admin q a) (\<lambda>a _.
       case create mem_tenants (a_tenants a) (rq_uids q 0) (rq_now q) (tc_name r) (tc_slug r) (tc_model r) of
         Inl (ValueError m) \<Rightarrow> (a, Inl (HTTPException 409 (exn_text (ValueError m))))
       | Inl e \<Rightarrow> (a, Inl e)
       | Inr (d, t) \<Rightarrow>
           (let a = a\<lparr>a_tenants := d\<rparr>
            in case tc_phone_number_id r of
                 Some p \<Rightarrow>
                   if p = [] then (a, Inr (tenant_out t))
                   else then_do (save_tenant (t\<lparr>t_phone_number_id := Some p\<rparr>) a) (\<lambda>a t. (a, Inr (tenant_out t)))
               | None \<Rightarrow> (a, Inr (tenant_out t))))"

definition get_tenant :: "pystr \<Rightarrow> request \<Rightarrow> app \<Rightarrow> json handled" where
  "get_tenant tid q a =
     then_do (assert_tenant_access q a tid) (\<lambda>a _.
     then_do (load_tenant tid a) (\<lambda>a t. (a, Inr (tenant_out t))))"

record tenant_update =
  tu_model :: "pystr option"
  tu_phone_number_id :: "pystr option"

definition update_tenant :: "pystr \<Rightarrow> tenant_update \<Rightarrow> request \<Rightarrow> app \<Rightarrow> json handled" where
  "update_tenant tid r q a =
     then_do (assert_tenant_access q a tid) (\<lambda>a _.
     then_do (load_tenant tid a) (\<lambda>a t.
       (let t1 = (case tu_model r of None \<Rightarrow> t | Some m \<Rightarrow> t\<lparr>t_model := m\<rparr>);
            t2 = (case tu_phone_number_id r of None \<Rightarrow> t1 | Some p \<Rightarrow> t1\<lparr>t_phone_number_id := Some p\<rparr>)
        in if tu_model r = None \<and> tu_phone_number_id r = None then (a, Inr (tenant_out t))
           else then_do (save_tenant t2 a) (\<lambda>a t. (a, Inr (tenant_out t))))))"

text \<open>The outer \<open>None\<close> is a slug search that does not return.\<close>

definition connect_whatsapp :: "signup \<Rightarrow> request \<Rightarrow> app \<Rightarrow> json handled option" where
  "connect_whatsapp p q a =
     (case assert_admin q a of
        (a, Inl e) \<Rightarrow> Some (a, Inl e)
      | (a, Inr _) \<Rightarrow>
          (case onboarding_run mem_tenants (a_tenants a) (a_running a) (a_bus a) (rq_uids q 0) (rq_now q) (rq_now q) p of
             None \<Rightarrow> None
           | Some (d, r, b, res) \<Rightarrow>
               (let a = a\<lparr>a_tenants := d, a_running := r, a_bus := b\<rparr>
                in Some (case res of
                     Inl (OnboardingError m) \<Rightarrow> (a, Inl (HTTPException 422 m))
                   | Inl e \<Rightarrow> (a, Inl e)
                   | Inr (t, new) \<Rightarrow>
                       (a, Inr (JObj [((lit ''tenant_id''), JStr (t_id t)), ((lit ''slug''), JStr (t_slug t)), ((lit ''is_new''), JBool new)]))))))"

section \<open>SOUL and handoff configuration\<close>

text \<open>\<open>_client.soul_for(tenant_id)\<close>.\<close>

definition soul_for :: "pystr \<Rightarrow> app \<Rightarrow> pystr res" where
  "soul_for tid a =
     (case manager_get mem_tenants (a_tenants a) tid of Inl e \<Rightarrow> Inl e | Inr t \<Rightarrow> Inr (soul_build t None []))"

definition soul_out :: "pystr \<Rightarrow> soul_config \<Rightarrow> json" where
  "soul_out soul c = JObj [((lit ''soul''), JStr soul), ((lit ''config''), soul_json c)]"

definition get_tenant_soul :: "pystr \<Rightarrow> request \<Rightarrow> app \<Rightarrow> json handled" where
  "get_tenant_soul tid q a =
     then_do (assert_tenant_access q a tid) (\<lambda>a _.
     then_do (load_tenant tid a) (\<lambda>a t.
     then_do (a, soul_for tid a) (\<lambda>a soul.
       (a, Inr (soul_out soul (case t_soul_config t of None \<Rightarrow> default_soul | Some c \<Rightarrow> c))))))"

definition update_tenant_soul :: "pystr \<Rightarrow> soul_config \<Rightarrow> request \<Rightarrow> app \<Rightarrow> json handled" where
  "update_tenant_soul tid c q a =
     then_do (assert_tenant_access q a tid) (\<lambda>a _.
     then_do (load_tenant tid a) (\<lambda>a t.
     then_do (save_tenant (t\<lparr>t_soul_config := Some c\<rparr>) a) (\<lambda>a _.
     then_do (a, soul_for tid a) (\<lambda>a soul. (a, Inr (soul_out soul c))))))"

definition handoff_out :: "handoff_config \<Rightarrow> json" where
  "handoff_out c = JObj [((lit ''config''), handoff_json c)]"

definition get_tenant_handoff :: "pystr \<Rightarrow> request \<Rightarrow> app \<Rightarrow> json handled" where
  "get_tenant_handoff tid q a =
     then_do (assert_tenant_access q a tid) (\<lambda>a _.
     then_do (load_tenant tid a) (\<lambda>a t.
       (a, Inr (handoff_out (case t_handoff_config t of None \<Rightarrow> default_handoff | Some c \<Rightarrow> c)))))"

definition update_tenant_handoff :: "pystr \<Rightarrow> handoff_config \<Rightarrow> request \<Rightarrow> app \<Rightarrow> json handled" where
  "update_tenant_handoff tid c q a =
     then_do (assert_tenant_access q a tid) (\<lambda>a _.
     then_do (load_tenant tid a) (\<lambda>a t.
     then_do (save_tenant (t\<lparr>t_handoff_config := Some c\<rparr>) a) (\<lambda>a _. (a, Inr (handoff_out c)))))"

section \<open>Catalog facts\<close>

text \<open>\<open>facts\<close>: content and metadata of each row of the upload.\<close>

record catalog_ingest =
  ci_source :: pystr
  ci_facts :: "(pystr \<times> pystr dict) list"

definition ingest_catalog_facts :: "pystr \<Rightarrow> catalog_ingest \<Rightarrow> request \<Rightarrow> app \<Rightarrow> json handled" where
  "ingest_catalog_facts tid r q a =
     then_do (assert_tenant_access q a tid) (\<lambda>a _.
     then_do (load_tenant tid a) (\<lambda>a _.
       if ci_facts r = [] then (a, Inl (HTTPException 422 (lit ''facts must not be empty'')))
       else (let fs = map (\<lambda>(n, content, metadata).
                        \<lparr>f_id = rq_uids q n, f_tenant_id = tid, f_source = ci_source r, f_content = content,
                         f_metadata = metadata, f_created_at = rq_now q\<rparr>) (enumerate 0 (ci_facts r))
             in (a\<lparr>a_facts := foldl add_fact (a_facts a) fs\<rparr>,
                 Inr (JObj [((lit ''tenant_id''), JStr tid), ((lit ''ingested''), JInt (int (length fs))),
                            ((lit ''fact_ids''), JList (map (\<lambda>f. JStr (f_id f)) fs))])))))"

definition str_dict :: "pystr dict \<Rightarrow> json" where
  "str_dict d = JObj (map (\<lambda>p. (fst p, JStr (snd p))) d)"

definition fact_out :: "fact \<Rightarrow> json" where
  "fact_out f =
     JObj [((lit ''id''), JStr (f_id f)), ((lit ''source''), JStr (f_source f)), ((lit ''content''), JStr (f_content f)),
           ((lit ''metadata''), str_dict (f_metadata f)), ((lit ''created_at''), JStr (isoformat (f_created_at f)))]"

definition list_catalog_facts :: "pystr \<Rightarrow> request \<Rightarrow> app \<Rightarrow> json handled" where
  "list_catalog_facts tid q a =
     then_do (assert_tenant_access q a tid) (\<lambda>a _.
     then_do (load_tenant tid a) (\<lambda>a _. (a, Inr (JList (map fact_out (all_for (a_facts a) tid))))))"

section \<open>What the guards decide\<close>

text \<open>The user a request acts for, \<open>None\<close> without a live session.\<close>

definition caller :: "request \<Rightarrow> app \<Rightarrow> user option" where
  "caller q a = snd (optional_current_user q a)"

definition may_access :: "request \<Rightarrow> app \<Rightarrow> pystr \<Rightarrow> bool" where
  "may_access q a tid \<longleftrightarrow> \<not> auth_required q \<or>
     (\<exists>u. caller q a = Some u \<and> (u_role u = ADMIN \<or> u_tenant_id u = Some tid))"

text \<open>A guard changes at most the session store, by dropping the session of the cookie.\<close>

definition guard_only :: "request \<Rightarrow> app \<Rightarrow> app \<Rightarrow> bool" where
  "guard_only q a a' \<longleftrightarrow> (\<exists>ss. a' = a\<lparr>a_sessions := ss\<rparr> \<and>
     (ss = a_sessions a \<or> (\<exists>tok. rq_cookie q = Some tok \<and> ss = dpop (a_sessions a) tok)))"

lemma optional_user_state: "guard_only q a (fst (optional_current_user q a))"
proof (cases "rq_cookie q")
  case None
  then show ?thesis by (auto simp: optional_current_user_def guard_only_def intro: exI[of _ "a_sessions a"])
next
  case (Some tok)
  have "fst (authenticate (a_users a) (a_sessions a) (rq_now q) (Some tok)) \<in> {a_sessions a, dpop (a_sessions a) tok}"
    by (simp add: authenticate_sessions)
  then show ?thesis using Some
    by (auto simp: optional_current_user_def guard_only_def split: prod.splits sum.splits intro: exI[of _ "a_sessions a"])
qed

lemma caller_iff:
  "caller q a = Some u \<longleftrightarrow> (\<exists>tok s. rq_cookie q = Some tok \<and> tok \<noteq> [] \<and> session_get (a_sessions a) tok = Some s
     \<and> rq_now q < s_expires_at s \<and> user_get (a_users a) (s_user_id s) = Some u)"
  using authenticate_iff[of "a_users a" "a_sessions a" "rq_now q" "rq_cookie q" u]
  by (auto simp: caller_def optional_current_user_def split: prod.splits sum.splits)

lemma access_granted:
  "(\<exists>u. snd (assert_tenant_access q a tid) = Inr u) \<longleftrightarrow> may_access q a tid"
  by (auto simp: assert_tenant_access_def assert_authenticated_def may_access_def caller_def then_do_def
      split: prod.splits option.splits)

lemma access_denied:
  "\<not> may_access q a tid \<Longrightarrow> snd (assert_tenant_access q a tid) =
     Inl (if caller q a = None then HTTPException 401 (lit ''authentication required'') else HTTPException 403 (lit ''tenant access denied''))"
  by (auto simp: assert_tenant_access_def assert_authenticated_def may_access_def caller_def then_do_def
      split: prod.splits option.splits)

lemma access_state: "guard_only q a (fst (assert_tenant_access q a tid))"
  using optional_user_state[of q a]
  by (auto simp: assert_tenant_access_def assert_authenticated_def then_do_def split: prod.splits option.splits sum.splits)

lemma admin_granted:
  "(\<exists>u. snd (assert_admin q a) = Inr u) \<longleftrightarrow> \<not> auth_required q \<or> (\<exists>u. caller q a = Some u \<and> u_role u = ADMIN)"
  by (auto simp: assert_admin_def assert_authenticated_def caller_def then_do_def split: prod.splits option.splits)

lemma admin_state: "guard_only q a (fst (assert_admin q a))"
  using optional_user_state[of q a]
  by (auto simp: assert_admin_def assert_authenticated_def then_do_def split: prod.splits option.splits sum.splits)

text \<open>A handler that starts with the guard does nothing behind a closed one.\<close>

definition guarded :: "pystr \<Rightarrow> (request \<Rightarrow> app \<Rightarrow> 'r handled) \<Rightarrow> bool" where
  "guarded tid h \<longleftrightarrow> (\<exists>k. \<forall>q a. h q a = then_do (assert_tenant_access q a tid) (k q))"

lemma guardedI: "(\<And>q a. h q a = then_do (assert_tenant_access q a tid) (k q)) \<Longrightarrow> guarded tid h"
  unfolding guarded_def by blast

lemma guarded_denied:
  assumes "guarded tid h" and "\<not> may_access q a tid"
  shows "guard_only q a (fst (h q a)) \<and>
    snd (h q a) = Inl (if caller q a = None then HTTPException 401 (lit ''authentication required'') else HTTPException 403 (lit ''tenant access denied''))"
proof -
  obtain k where k: "h q a = then_do (assert_tenant_access q a tid) (k q)" using assms(1) by (auto simp: guarded_def)
  obtain a' where "assert_tenant_access q a tid =
      (a', Inl (if caller q a = None then HTTPException 401 (lit ''authentication required'') else HTTPException 403 (lit ''tenant access denied'')))"
    using access_denied[OF assms(2)] by (metis prod.collapse)
  with k access_state[of q a tid] show ?thesis by simp
qed

end
