(* ===== verification/Api_Inbox.thy ===== *)
theory Api_Inbox
  imports Api_Core Gateway Crm_Recorder
begin

text \<open>
  The HTTP API (\<open>services/api/main.py\<close>), second part: the conversation inbox (listing, transcript,
  human reply, pause and resume of the bot) and the analytics of a tenant. The WhatsApp gateway
  is an argument \<open>send\<close>, a call that may fail. Quotients of the analytics are rationals where
  Python computes a float.
\<close>

section \<open>Conversations\<close>

text \<open>
  \<open>datetime.now(UTC) + timedelta(hours=h)\<close> for a positive \<open>h\<close>: an \<open>OverflowError\<close> past the year 9999.
\<close>

definition end_of_time :: time where
  "end_of_time = 253402300800 * second"

definition add_hours :: "time \<Rightarrow> int \<Rightarrow> time res" where
  "add_hours now h = (if now + hours h \<ge> end_of_time then Inl (OtherError (lit ''date value out of range'')) else Inr (now + hours h))"

definition split_from_number :: "pystr \<Rightarrow> pystr" where
  "split_from_number buyer_id =
     (case partition_on 58 buyer_id of (_, sep, rest) \<Rightarrow> if sep then rest else buyer_id)"

definition thread_prefix :: "tenant \<Rightarrow> pystr" where
  "thread_prefix t = t_slug t @ (lit '':'')"

definition thread_out :: "pystr \<Rightarrow> int \<Rightarrow> time \<Rightarrow> pystr \<Rightarrow> bot_pause option \<Rightarrow> json" where
  "thread_out bid count last_at last_text p =
     JObj [((lit ''buyer_id''), JStr bid), ((lit ''from_number''), JStr (split_from_number bid)), ((lit ''message_count''), JInt count),
           ((lit ''last_at''), JStr (isoformat last_at)), ((lit ''last_text''), JStr last_text), ((lit ''bot_paused''), JBool (p \<noteq> None)),
           ((lit ''bot_paused_until''), json_opt (map_option (isoformat \<circ> bp_paused_until) p))]"

definition turn_out :: "pystr \<Rightarrow> pystr \<Rightarrow> time \<Rightarrow> pystr dict \<Rightarrow> json" where
  "turn_out r txt tm metadata =
     JObj [((lit ''role''), JStr r), ((lit ''text''), JStr txt), ((lit ''at''), JStr (isoformat tm)), ((lit ''metadata''), str_dict metadata)]"

text \<open>\<open>{p.buyer_id: p for p in active}\<close>: the last pause of a buyer wins.\<close>

definition paused_by_bid :: "bot_pause list \<Rightarrow> bot_pause dict" where
  "paused_by_bid ps = foldl (\<lambda>d p. dset d (bp_buyer_id p) p) [] ps"

definition list_conversations :: "pystr \<Rightarrow> request \<Rightarrow> app \<Rightarrow> json handled" where
  "list_conversations tid q a =
     then_do (assert_tenant_access q a tid) (\<lambda>a _.
     then_do (load_tenant tid a) (\<lambda>a t.
       (let threads = list_threads (a_memory a) (Some (thread_prefix t)) 100;
            paused = paused_by_bid (list_active (a_pauses a) (t_id t) (rq_now q))
        in (a, Inr (JList (map (\<lambda>s.
              thread_out (ts_buyer_id s) (int (ts_message_count s)) (ts_last_at s) (ts_last_text s)
                (dget paused (ts_buyer_id s))) threads))))))"

text \<open>\<open>_tenant_for_conv\<close>; \<open>get_conversation_thread\<close> has the same lines inline.\<close>

definition tenant_for_conv :: "pystr \<Rightarrow> pystr \<Rightarrow> app \<Rightarrow> tenant handled" where
  "tenant_for_conv tid bid a =
     then_do (load_tenant tid a) (\<lambda>a t.
       if \<not> startswith bid (thread_prefix t) then (a, Inl (HTTPException 404 (lit ''conversation not found'')))
       else (a, Inr t))"

definition get_conversation_thread :: "pystr \<Rightarrow> pystr \<Rightarrow> request \<Rightarrow> app \<Rightarrow> json handled" where
  "get_conversation_thread tid bid q a =
     then_do (assert_tenant_access q a tid) (\<lambda>a _.
     then_do (load_tenant tid a) (\<lambda>a t.
       if \<not> startswith bid (thread_prefix t) then (a, Inl (HTTPException 404 (lit ''conversation not found'')))
       else (let turns = recall (a_memory a) bid None;
                 p = pause_get (a_pauses a) (t_id t) bid;
                 active = (case p of None \<Rightarrow> None | Some x \<Rightarrow> if bp_paused_until x > rq_now q then Some x else None)
             in (a, Inr (JObj
                  [((lit ''turns''), JList (map (\<lambda>i. turn_out (role_str (bi_role i)) (bi_text i) (bi_at i) (bi_metadata i)) turns)),
                   ((lit ''bot_paused''), JBool (active \<noteq> None)),
                   ((lit ''bot_paused_until''), json_opt (map_option (isoformat \<circ> bp_paused_until) active))])))))"

section \<open>Human takeover\<close>

type_synonym send_port = "pystr \<Rightarrow> pystr \<Rightarrow> pystr option \<Rightarrow> outbound_message res"

text \<open>The vendor's message id and the delivery error, one of them empty.\<close>

definition deliver :: "send_port \<Rightarrow> pystr \<Rightarrow> pystr \<Rightarrow> pystr \<Rightarrow> pystr \<times> pystr option" where
  "deliver send to txt tid =
     (case send to txt (Some tid) of
        Inl e \<Rightarrow> ([], Some (take 200 (exn_text e)))
      | Inr sent \<Rightarrow> (case om_vendor_message_id sent of None \<Rightarrow> [] | Some v \<Rightarrow> v, None))"

definition human_metadata :: "pystr \<Rightarrow> pystr option \<Rightarrow> pystr dict" where
  "human_metadata vendor_message_id delivery_error =
     (let m = [((lit ''human''), (lit ''true''))];
          m = (if vendor_message_id = [] then m else dset m (lit ''vendor_message_id'') vendor_message_id)
      in case nonempty delivery_error of None \<Rightarrow> m | Some e \<Rightarrow> dset m (lit ''delivery_error'') e)"

text \<open>The automatic pause after a message; its failure is logged and changes nothing.\<close>

definition pause_after :: "int option \<Rightarrow> pystr \<Rightarrow> pystr \<Rightarrow> time \<Rightarrow> app \<times> pystr dict \<Rightarrow> app \<times> pystr dict" where
  "pause_after h tid bid now am =
     (case h of
        None \<Rightarrow> am
      | Some h \<Rightarrow>
          if h > 0
          then (case (am, add_hours now h) of
                  (_, Inl _) \<Rightarrow> am
                | ((a, m), Inr until) \<Rightarrow>
                    (a\<lparr>a_pauses := pause (a_pauses a) tid bid until\<rparr>, dset m (lit ''bot_paused_until'') (isoformat until)))
          else am)"

definition send_human_message ::
  "send_port \<Rightarrow> pystr \<Rightarrow> pystr \<Rightarrow> pystr \<Rightarrow> int option \<Rightarrow> request \<Rightarrow> app \<Rightarrow> json handled" where
  "send_human_message send tid bid body pause_hours q a =
     then_do (assert_tenant_access q a tid) (\<lambda>a _.
     then_do (tenant_for_conv tid bid a) (\<lambda>a t.
       (let txt = strip body
        in if txt = [] then (a, Inl (HTTPException 422 (lit ''text must not be empty'')))
           else (case deliver send (split_from_number bid) txt (t_id t) of
                   (vendor_message_id, delivery_error) \<Rightarrow>
                     (case pause_after pause_hours (t_id t) bid (rq_now q) (a, human_metadata vendor_message_id delivery_error) of
                        (a, metadata) \<Rightarrow>
                          (a\<lparr>a_memory := remember (a_memory a) bid
                              \<lparr>bi_text = txt, bi_role = Agent, bi_at = rq_now q, bi_metadata = metadata\<rparr>\<rparr>,
                           Inr (turn_out (lit ''agent'') txt (rq_now q) metadata)))))))"

definition pause_state :: "time option \<Rightarrow> json" where
  "pause_state u = JObj [((lit ''bot_paused''), JBool (u \<noteq> None)), ((lit ''bot_paused_until''), json_opt (map_option isoformat u))]"

definition pause_bot :: "pystr \<Rightarrow> pystr \<Rightarrow> int \<Rightarrow> request \<Rightarrow> app \<Rightarrow> json handled" where
  "pause_bot tid bid h q a =
     then_do (assert_tenant_access q a tid) (\<lambda>a _.
     then_do (tenant_for_conv tid bid a) (\<lambda>a t.
       if h \<le> 0 then (a, Inl (HTTPException 422 (lit ''hours must be > 0'')))
       else (case add_hours (rq_now q) h of
               Inl e \<Rightarrow> (a, Inl e)
             | Inr until \<Rightarrow> (a\<lparr>a_pauses := pause (a_pauses a) (t_id t) bid until\<rparr>, Inr (pause_state (Some until))))))"

definition resume_bot :: "pystr \<Rightarrow> pystr \<Rightarrow> request \<Rightarrow> app \<Rightarrow> json handled" where
  "resume_bot tid bid q a =
     then_do (assert_tenant_access q a tid) (\<lambda>a _.
     then_do (tenant_for_conv tid bid a) (\<lambda>a t.
       (a\<lparr>a_pauses := resume (a_pauses a) (t_id t) bid\<rparr>, Inr (pause_state None))))"

end
