(* ===== verification/Inbound.thy ===== *)
theory Inbound
  imports Agent Handoff Bot_Pauses Webhook Api_Inbox Events_Onboarding
begin

text \<open>
  The inbound path of the API (\<open>services/api/main.py\<close>): \<open>_process_inbound_message\<close> and the two
  webhook routes. Every collaborator of the handler is a fallible operation of a \<open>channel\<close> on a
  state of any type, so that the statements hold whatever the memory, the model, the gateway or
  the database do, an exception in the middle of a write included. The JSON parser of the body and
  the HMAC of the signature are arguments.
\<close>

section \<open>The collaborators of the handler\<close>

record 's channel =
  ch_remember :: "pystr \<Rightarrow> interaction \<Rightarrow> 's \<Rightarrow> 's \<times> unit res"
  ch_inbound :: "pystr \<Rightarrow> pystr \<Rightarrow> pystr \<Rightarrow> pystr \<Rightarrow> pystr option \<Rightarrow> 's \<Rightarrow> 's \<times> unit res"
  ch_is_paused :: "pystr \<Rightarrow> pystr \<Rightarrow> 's \<Rightarrow> 's \<times> bool res"
  ch_respond :: "tenant \<Rightarrow> pystr \<Rightarrow> pystr \<Rightarrow> 's \<Rightarrow> 's \<times> agent_turn res"
  ch_notify :: "tenant \<Rightarrow> pystr \<Rightarrow> pystr \<Rightarrow> handoff_decision \<Rightarrow> 's \<Rightarrow> 's \<times> unit res"
  ch_pause :: "pystr \<Rightarrow> pystr \<Rightarrow> time \<Rightarrow> 's \<Rightarrow> 's \<times> unit res"
  ch_send :: "pystr \<Rightarrow> pystr \<Rightarrow> pystr \<Rightarrow> 's \<Rightarrow> 's \<times> pystr option res"
  ch_outbound :: "pystr \<Rightarrow> pystr \<Rightarrow> pystr \<Rightarrow> pystr \<Rightarrow> pystr dict \<Rightarrow> 's \<Rightarrow> 's \<times> unit res"
  ch_dispatch :: "pystr \<Rightarrow> pystr \<Rightarrow> pystr \<Rightarrow> 's \<Rightarrow> 's"

section \<open>One inbound message\<close>

definition buyer_id_for :: "pystr \<Rightarrow> pystr \<Rightarrow> pystr" where
  "buyer_id_for tenant_slug from_number = tenant_slug @ (lit '':'') @ from_number"

definition fallback_reply :: pystr where
  "fallback_reply = (lit ''Tuvimos un inconveniente procesando tu mensaje. Te respondemos en unos minutos.'')"

definition buyer_turn :: "time \<Rightarrow> tenant \<Rightarrow> inbound_message \<Rightarrow> interaction" where
  "buyer_turn now t m =
     \<lparr>bi_text = im_text m, bi_role = Buyer, bi_at = now,
      bi_metadata = [((lit ''tenant_id''), t_id t), ((lit ''message_id''), im_message_id m)]\<rparr>"

definition agent_entry :: "time \<Rightarrow> pystr \<Rightarrow> pystr dict \<Rightarrow> interaction" where
  "agent_entry now reply meta = \<lparr>bi_text = reply, bi_role = Agent, bi_at = now, bi_metadata = meta\<rparr>"

definition turn_meta :: "agent_turn \<Rightarrow> pystr dict" where
  "turn_meta turn =
     [((lit ''model''), at_model turn), ((lit ''facts_cited''), nat_digits (length (at_facts_cited turn))),
      ((lit ''history_used''), nat_digits (at_history_used turn))]"

text \<open>The automatic pause of an escalated thread; a failure is logged.\<close>

definition auto_pause ::
  "'s channel \<Rightarrow> time \<Rightarrow> tenant \<Rightarrow> pystr \<Rightarrow> pystr dict \<Rightarrow> 's \<Rightarrow> 's \<times> pystr dict" where
  "auto_pause C now t bid meta s =
     (case t_handoff_config t of
        None \<Rightarrow> (s, meta)
      | Some c \<Rightarrow>
          if hc_auto_pause_hours c > 0
          then (case add_hours now (hc_auto_pause_hours c) of
                  Inl e \<Rightarrow> (s, meta)
                | Inr until \<Rightarrow>
                    (case ch_pause C (t_id t) bid until s of
                       (s, Inl e) \<Rightarrow> (s, meta)
                     | (s, Inr _) \<Rightarrow> (s, dset meta (lit ''bot_paused_until'') (isoformat until))))
          else (s, meta))"

definition escalate ::
  "'s channel \<Rightarrow> time \<Rightarrow> tenant \<Rightarrow> pystr \<Rightarrow> pystr \<Rightarrow> agent_turn \<Rightarrow> 's \<Rightarrow> 's \<times> pystr dict" where
  "escalate C now t bid txt turn s =
     (case at_handoff turn of
        None \<Rightarrow> (s, turn_meta turn)
      | Some d \<Rightarrow>
          if hd_escalate d
          then (let meta = dset (turn_meta turn) (lit ''handoff'') (lit ''true'');
                    meta = (case nonempty (hd_matched_keyword d) of None \<Rightarrow> meta | Some k \<Rightarrow> dset meta (lit ''handoff_keyword'') k);
                    s = fst (ch_notify C t bid txt d s)
                in auto_pause C now t bid meta s)
          else (s, turn_meta turn))"

text \<open>Step 2: the reply and its metadata; any failure of the agent becomes the canned reply.\<close>

definition compose_reply ::
  "'s channel \<Rightarrow> time \<Rightarrow> tenant \<Rightarrow> pystr \<Rightarrow> pystr \<Rightarrow> 's \<Rightarrow> 's \<times> pystr \<times> pystr dict" where
  "compose_reply C now t bid txt s =
     (case ch_respond C t bid txt s of
        (s, Inl e) \<Rightarrow> (s, fallback_reply, [((lit ''error''), take 200 (exn_text e))])
      | (s, Inr turn) \<Rightarrow> (case escalate C now t bid txt turn s of (s, meta) \<Rightarrow> (s, at_reply turn, meta)))"

text \<open>Step 3: delivery. The vendor's identifier, and the metadata with the error of a failure.\<close>

definition send_reply ::
  "'s channel \<Rightarrow> tenant \<Rightarrow> pystr \<Rightarrow> pystr \<Rightarrow> pystr dict \<Rightarrow> 's \<Rightarrow> 's \<times> pystr \<times> pystr dict" where
  "send_reply C t to reply meta s =
     (case ch_send C to reply (t_id t) s of
        (s, Inl e) \<Rightarrow> (s, [], dset meta (lit ''delivery_error'') (take 200 (exn_text e)))
      | (s, Inr v) \<Rightarrow> (s, case v of None \<Rightarrow> [] | Some i \<Rightarrow> i, meta))"

definition reply_meta :: "pystr \<Rightarrow> pystr dict \<Rightarrow> pystr dict" where
  "reply_meta vendor_message_id meta = dmerge [((lit ''vendor_message_id''), vendor_message_id)] meta"

text \<open>Steps 2 to 6, for a thread that is not paused.\<close>

definition answer_message :: "'s channel \<Rightarrow> time \<Rightarrow> tenant \<Rightarrow> pystr \<Rightarrow> inbound_message \<Rightarrow> 's \<Rightarrow> 's" where
  "answer_message C now t bid m s =
     (case compose_reply C now t bid (im_text m) s of (s, reply, meta) \<Rightarrow>
      case send_reply C t (im_from_number m) reply meta s of (s, vid, meta) \<Rightarrow>
        (let s = fst (ch_remember C bid (agent_entry now reply (reply_meta vid meta)) s);
             s = fst (ch_outbound C (t_id t) (im_from_number m) reply (im_message_id m) (reply_meta vid meta) s)
         in ch_dispatch C (t_id t) bid (im_from_number m) s))"

definition process_inbound :: "'s channel \<Rightarrow> time \<Rightarrow> tenant \<Rightarrow> inbound_message \<Rightarrow> 's \<Rightarrow> 's" where
  "process_inbound C now t m s =
     (let bid = buyer_id_for (t_slug t) (im_from_number m);
          s = fst (ch_remember C bid (buyer_turn now t m) s);
          s = fst (ch_inbound C (t_id t) (im_from_number m) (im_text m) (im_message_id m) (im_profile_name m) s)
      in case ch_is_paused C (t_id t) bid s of
           (s, Inr True) \<Rightarrow> s
         | (s, _) \<Rightarrow> answer_message C now t bid m s)"

section \<open>The webhook\<close>

definition webhook_verify :: "pystr dict \<Rightarrow> pystr dict \<Rightarrow> (nat \<times> pystr) res" where
  "webhook_verify env params =
     and_then (verify_subscription (dget_or env (lit ''META_VERIFY_TOKEN'') []) (dget_or params (lit ''hub.mode'') [])
                 (dget_or params (lit ''hub.verify_token'') []) (dget_or params (lit ''hub.challenge'') []))
       (\<lambda>challenge. Inr (case challenge of None \<Rightarrow> (403, (lit ''forbidden'')) | Some c \<Rightarrow> (200, c)))"

definition process_all :: "'s channel \<Rightarrow> time \<Rightarrow> tenant \<Rightarrow> inbound_message list \<Rightarrow> 's \<Rightarrow> 's" where
  "process_all C now t ms s = foldl (\<lambda>s m. process_inbound C now t m s) s ms"

text \<open>\<open>read_json\<close> is \<open>request.json()\<close>, \<open>tenants\<close> the router's registry.\<close>

definition webhook_receive ::
  "'s channel \<Rightarrow> hmac_fun \<Rightarrow> (nat list \<Rightarrow> json res) \<Rightarrow> pystr dict \<Rightarrow> time \<Rightarrow> tenant_store
     \<Rightarrow> nat list \<Rightarrow> pystr \<Rightarrow> 's \<Rightarrow> 's \<times> (nat \<times> pystr) res" where
  "webhook_receive C hmac read_json env now tenants body signature s =
     (case verify_signature hmac (dget_or env (lit ''META_APP_SECRET'') []) body signature of
        Inl e \<Rightarrow> (s, Inl e)
      | Inr False \<Rightarrow> (s, Inr (401, (lit ''invalid signature'')))
      | Inr True \<Rightarrow>
          (case and_then (read_json body) (\<lambda>payload.
                  and_then (extract_phone_number_id payload) (\<lambda>pid. Inr (payload, pid))) of
             Inl e \<Rightarrow> (s, Inl e)
           | Inr (payload, pid) \<Rightarrow>
               (case Option.bind pid (try_resolve mem_tenants tenants) of
                  None \<Rightarrow> (s, Inr (200, (lit ''no tenant for this phone_number_id'')))
                | Some t \<Rightarrow>
                    (case parse_messages (t_id t) now payload of
                       Inl e \<Rightarrow> (s, Inl e)
                     | Inr ms \<Rightarrow>
                         (process_all C now t ms s,
                          Inr (200, (lit ''received '') @ nat_digits (length ms) @ (lit '' for '') @ t_slug t))))))"

section \<open>The calls of one message\<close>

text \<open>
  \<open>traced C\<close> is the channel \<open>C\<close> that also records its calls, whatever their outcome. The handler
  on it gives the state the handler gives on \<open>C\<close>.
\<close>

datatype call_event =
    Stored pystr interaction
  | Crm_In pystr pystr pystr pystr "pystr option"
  | Pause_Asked pystr pystr
  | Agent_Asked tenant pystr pystr
  | Notified tenant pystr pystr handoff_decision
  | Bot_Paused pystr pystr time
  | Sent pystr pystr pystr
  | Crm_Out pystr pystr pystr pystr "pystr dict"
  | Dispatched pystr pystr pystr

definition observe :: "call_event \<Rightarrow> ('s \<Rightarrow> 's \<times> 'r) \<Rightarrow> 's \<times> call_event list \<Rightarrow> ('s \<times> call_event list) \<times> 'r" where
  "observe e f st = (case f (fst st) of (s, r) \<Rightarrow> ((s, snd st @ [e]), r))"

definition traced :: "'s channel \<Rightarrow> ('s \<times> call_event list) channel" where
  "traced C =
     \<lparr>ch_remember = \<lambda>b i. observe (Stored b i) (ch_remember C b i),
      ch_inbound = \<lambda>t f x i p. observe (Crm_In t f x i p) (ch_inbound C t f x i p),
      ch_is_paused = \<lambda>t b. observe (Pause_Asked t b) (ch_is_paused C t b),
      ch_respond = \<lambda>t b x. observe (Agent_Asked t b x) (ch_respond C t b x),
      ch_notify = \<lambda>t b x d. observe (Notified t b x d) (ch_notify C t b x d),
      ch_pause = \<lambda>t b u. observe (Bot_Paused t b u) (ch_pause C t b u),
      ch_send = \<lambda>to x t. observe (Sent to x t) (ch_send C to x t),
      ch_outbound = \<lambda>t f x i d. observe (Crm_Out t f x i d) (ch_outbound C t f x i d),
      ch_dispatch = \<lambda>t b f st. (ch_dispatch C t b f (fst st), snd st @ [Dispatched t b f])\<rparr>"

lemmas traced_calls = traced_def observe_def

definition escalation :: "call_event \<Rightarrow> bool" where
  "escalation e \<longleftrightarrow> (case e of Notified _ _ _ _ \<Rightarrow> True | Bot_Paused _ _ _ \<Rightarrow> True | _ \<Rightarrow> False)"

lemma auto_pause_traced:
  "\<exists>es. list_all escalation es \<and> length es \<le> 1 \<and>
     auto_pause (traced C) now t bid meta (s, tr) =
       ((fst (auto_pause C now t bid meta s), tr @ es), snd (auto_pause C now t bid meta s))"
proof (cases "t_handoff_config t")
  case None
  then show ?thesis by (intro exI[of _ "[]"]) (simp add: auto_pause_def)
next
  case (Some c)
  show ?thesis
  proof (cases "hc_auto_pause_hours c > 0 \<and> (\<exists>u. add_hours now (hc_auto_pause_hours c) = Inr u)")
    case True
    then obtain u where "hc_auto_pause_hours c > 0" "add_hours now (hc_auto_pause_hours c) = Inr u" by blast
    with Some show ?thesis
      by (intro exI[of _ "[Bot_Paused (t_id t) bid u]"])
        (auto simp: auto_pause_def traced_calls escalation_def split: prod.splits sum.splits)
  next
    case False
    with Some show ?thesis
      by (intro exI[of _ "[]"]) (auto simp: auto_pause_def split: sum.splits)
  qed
qed

lemma escalate_traced:
  "\<exists>es. list_all escalation es \<and> length es \<le> 2 \<and>
     escalate (traced C) now t bid txt turn (s, tr) =
       ((fst (escalate C now t bid txt turn s), tr @ es), snd (escalate C now t bid txt turn s))"
proof (cases "\<exists>d. at_handoff turn = Some d \<and> hd_escalate d")
  case True
  then obtain d where d: "at_handoff turn = Some d" "hd_escalate d" by blast
  obtain s1 r where n: "ch_notify C t bid txt d s = (s1, r)" by (cases "ch_notify C t bid txt d s")
  let ?meta = "let meta = dset (turn_meta turn) (lit ''handoff'') (lit ''true'')
    in case nonempty (hd_matched_keyword d) of None \<Rightarrow> meta | Some k \<Rightarrow> dset meta (lit ''handoff_keyword'') k"
  obtain es where "list_all escalation es" "length es \<le> 1"
    "auto_pause (traced C) now t bid ?meta (s1, tr @ [Notified t bid txt d]) =
       ((fst (auto_pause C now t bid ?meta s1), (tr @ [Notified t bid txt d]) @ es), snd (auto_pause C now t bid ?meta s1))"
    using auto_pause_traced[of C now t bid ?meta s1 "tr @ [Notified t bid txt d]"] by blast
  with d n show ?thesis
    by (intro exI[of _ "Notified t bid txt d # es"]) (simp add: escalate_def traced_calls escalation_def Let_def)
next
  case False
  then show ?thesis by (intro exI[of _ "[]"]) (auto simp: escalate_def split: option.splits)
qed

lemma compose_traced:
  "\<exists>es. list_all escalation es \<and> length es \<le> 2 \<and>
     compose_reply (traced C) now t bid txt (s, tr) =
       ((fst (compose_reply C now t bid txt s), tr @ Agent_Asked t bid txt # es), snd (compose_reply C now t bid txt s))"
proof (cases "ch_respond C t bid txt s")
  case (Pair s1 r)
  show ?thesis
  proof (cases r)
    case (Inl e)
    with Pair show ?thesis by (intro exI[of _ "[]"]) (simp add: compose_reply_def traced_calls)
  next
    case (Inr turn)
    obtain es where "list_all escalation es" "length es \<le> 2"
      "escalate (traced C) now t bid txt turn (s1, tr @ [Agent_Asked t bid txt]) =
         ((fst (escalate C now t bid txt turn s1), (tr @ [Agent_Asked t bid txt]) @ es), snd (escalate C now t bid txt turn s1))"
      using escalate_traced[of C now t bid "txt" turn s1 "tr @ [Agent_Asked t bid txt]"] by blast
    with Pair Inr show ?thesis
      by (intro exI[of _ es]) (simp add: compose_reply_def traced_def observe_def[of "Agent_Asked t bid txt"] split: prod.splits)
  qed
qed

lemma dict_ok_lits [simp]: "dict_ok [((lit ''model''), a), ((lit ''facts_cited''), b), ((lit ''history_used''), c)]" "dict_ok [(k, a)]"
  by (simp_all add: dict_ok_def)

text \<open>The metadata of a composed reply has neither of the keys that delivery sets.\<close>

lemma composed_keys:
  "dget (snd (snd (compose_reply C now t bid txt s))) (lit ''delivery_error'') = None"
  "dget (snd (snd (compose_reply C now t bid txt s))) (lit ''vendor_message_id'') = None"
  "dict_ok (snd (snd (compose_reply C now t bid txt s)))"
  by (auto simp: compose_reply_def escalate_def auto_pause_def turn_meta_def Let_def
      split: prod.splits sum.splits option.splits dest!: arg_cong[of _ _ snd])

definition delivery_noted :: "pystr option res \<Rightarrow> pystr dict \<Rightarrow> bool" where
  "delivery_noted r meta \<longleftrightarrow>
     (case r of
        Inl e \<Rightarrow> dget meta (lit ''delivery_error'') = Some (take 200 (exn_text e)) \<and> dget meta (lit ''vendor_message_id'') = Some []
      | Inr v \<Rightarrow> dget meta (lit ''delivery_error'') = None
               \<and> dget meta (lit ''vendor_message_id'') = Some (case v of None \<Rightarrow> [] | Some i \<Rightarrow> i))"

definition reply_text :: "agent_turn res \<Rightarrow> pystr" where
  "reply_text r = (case r of Inl e \<Rightarrow> fallback_reply | Inr turn \<Rightarrow> at_reply turn)"

lemma composed_reply: "fst (snd (compose_reply C now t bid txt s)) = reply_text (snd (ch_respond C t bid txt s))"
  by (simp add: compose_reply_def reply_text_def split: prod.split sum.split)

lemma sent_meta:
  assumes "dget meta (lit ''delivery_error'') = None" and "dget meta (lit ''vendor_message_id'') = None" and "dict_ok meta"
    and "send_reply C t to reply meta s = (s', vid, meta')"
  shows "delivery_noted (snd (ch_send C to reply (t_id t) s)) (reply_meta vid meta')"
  using assms by (auto simp: send_reply_def delivery_noted_def reply_meta_def dget_dmerge split: prod.splits sum.splits)

text \<open>What is stored and sent for a message of an unpaused thread, given the agent's and the gateway's outcome.\<close>

definition answer_events :: "tenant \<Rightarrow> pystr \<Rightarrow> time \<Rightarrow> inbound_message \<Rightarrow> pystr \<Rightarrow> pystr dict \<Rightarrow> call_event list" where
  "answer_events t bid now m reply meta =
     [Sent (im_from_number m) reply (t_id t), Stored bid (agent_entry now reply meta),
      Crm_Out (t_id t) (im_from_number m) reply (im_message_id m) meta, Dispatched (t_id t) bid (im_from_number m)]"

lemma answer_traced:
  "\<exists>es meta. list_all escalation es \<and> length es \<le> 2 \<and>
     delivery_noted (snd (ch_send C (im_from_number m) (reply_text (snd (ch_respond C t bid (im_text m) s))) (t_id t)
       (fst (compose_reply C now t bid (im_text m) s)))) meta \<and>
     answer_message (traced C) now t bid m (s, tr) =
       (answer_message C now t bid m s, tr @ Agent_Asked t bid (im_text m) # es
          @ answer_events t bid now m (reply_text (snd (ch_respond C t bid (im_text m) s))) meta)"
proof -
  obtain s1 reply meta1 where c: "compose_reply C now t bid (im_text m) s = (s1, reply, meta1)"
    by (cases "compose_reply C now t bid (im_text m) s")
  have r: "reply = reply_text (snd (ch_respond C t bid (im_text m) s))" using composed_reply[of C now t bid "im_text m" s] c by simp
  obtain s2 vid meta2 where d: "send_reply C t (im_from_number m) reply meta1 s1 = (s2, vid, meta2)"
    by (cases "send_reply C t (im_from_number m) reply meta1 s1")
  have noted: "delivery_noted (snd (ch_send C (im_from_number m) reply (t_id t) s1)) (reply_meta vid meta2)"
    using sent_meta[OF _ _ _ d] composed_keys[of C now t bid "im_text m" s] c by simp
  obtain es where es: "list_all escalation es" "length es \<le> 2"
    "compose_reply (traced C) now t bid (im_text m) (s, tr) = ((s1, tr @ Agent_Asked t bid (im_text m) # es), reply, meta1)"
    using compose_traced[of C now t bid "im_text m" s tr] c by auto
  have dt: "send_reply (traced C) t (im_from_number m) reply meta1 (s1, tr') =
      ((s2, tr' @ [Sent (im_from_number m) reply (t_id t)]), vid, meta2)" for tr'
    using d by (auto simp: send_reply_def traced_calls split: prod.splits sum.splits)
  have "answer_message (traced C) now t bid m (s, tr) =
       (answer_message C now t bid m s, tr @ Agent_Asked t bid (im_text m) # es @ answer_events t bid now m reply (reply_meta vid meta2))"
    by (simp add: answer_message_def c d es dt) (auto simp: traced_calls answer_events_def split: prod.splits)
  with es noted show ?thesis unfolding r[symmetric] c by auto
qed

text \<open>The state in which the handler asks whether the thread is paused.\<close>

definition after_arrival :: "'s channel \<Rightarrow> time \<Rightarrow> tenant \<Rightarrow> inbound_message \<Rightarrow> 's \<Rightarrow> 's" where
  "after_arrival C now t m s =
     fst (ch_inbound C (t_id t) (im_from_number m) (im_text m) (im_message_id m) (im_profile_name m)
       (fst (ch_remember C (buyer_id_for (t_slug t) (im_from_number m)) (buyer_turn now t m) s)))"

definition arrival_events :: "time \<Rightarrow> tenant \<Rightarrow> inbound_message \<Rightarrow> call_event list" where
  "arrival_events now t m =
     [Stored (buyer_id_for (t_slug t) (im_from_number m)) (buyer_turn now t m),
      Crm_In (t_id t) (im_from_number m) (im_text m) (im_message_id m) (im_profile_name m),
      Pause_Asked (t_id t) (buyer_id_for (t_slug t) (im_from_number m))]"

definition found_paused :: "'s channel \<Rightarrow> time \<Rightarrow> tenant \<Rightarrow> inbound_message \<Rightarrow> 's \<Rightarrow> bool" where
  "found_paused C now t m s \<longleftrightarrow>
     snd (ch_is_paused C (t_id t) (buyer_id_for (t_slug t) (im_from_number m)) (after_arrival C now t m s)) = Inr True"

lemma process_paused:
  assumes "found_paused C now t m s"
  shows "process_inbound (traced C) now t m (s, tr) = (process_inbound C now t m s, tr @ arrival_events now t m)"
  using assms
  by (auto simp: process_inbound_def found_paused_def after_arrival_def arrival_events_def traced_calls Let_def split: prod.splits)

lemma process_not_paused:
  assumes "\<not> found_paused C now t m s"
  shows "process_inbound C now t m s = answer_message C now t (buyer_id_for (t_slug t) (im_from_number m)) m
      (fst (ch_is_paused C (t_id t) (buyer_id_for (t_slug t) (im_from_number m)) (after_arrival C now t m s)))"
    and "process_inbound (traced C) now t m (s, tr) = answer_message (traced C) now t (buyer_id_for (t_slug t) (im_from_number m)) m
      (fst (ch_is_paused C (t_id t) (buyer_id_for (t_slug t) (im_from_number m)) (after_arrival C now t m s)), tr @ arrival_events now t m)"
  using assms
  by (auto simp: process_inbound_def found_paused_def after_arrival_def arrival_events_def traced_calls Let_def
      split: prod.splits sum.splits bool.splits)

section \<open>What a step of every collaborator keeps, a message keeps\<close>

text \<open>
  The contract the handler has with its collaborators, for a transitive relation on their states:
  every call for this tenant and this buyer is a step of the relation. Then so is the handling of
  a message, whatever succeeds or fails on the way.
\<close>

locale respectful_channel =
  fixes C :: "'s channel"
    and rel :: "'s \<Rightarrow> 's \<Rightarrow> bool"
    and t :: tenant
    and bid :: pystr
  assumes rel_refl: "rel s s"
    and rel_trans: "rel s1 s2 \<Longrightarrow> rel s2 s3 \<Longrightarrow> rel s1 s3"
    and remember_rel: "rel s (fst (ch_remember C bid turn s))"
    and inbound_rel: "rel s (fst (ch_inbound C (t_id t) f x mid p s))"
    and is_paused_rel: "rel s (fst (ch_is_paused C (t_id t) bid s))"
    and respond_rel: "rel s (fst (ch_respond C t bid x s))"
    and notify_rel: "rel s (fst (ch_notify C t bid x d s))"
    and pause_rel: "rel s (fst (ch_pause C (t_id t) bid u s))"
    and send_rel: "rel s (fst (ch_send C f x (t_id t) s))"
    and outbound_rel: "rel s (fst (ch_outbound C (t_id t) f x mid e s))"
    and dispatch_rel: "rel s (ch_dispatch C (t_id t) bid f s)"
begin

lemma auto_pause_rel: "rel s (fst (auto_pause C now t bid meta s))"
  using pause_rel rel_refl by (fastforce simp: auto_pause_def split: option.splits sum.splits prod.splits dest!: arg_cong[of _ _ fst])

lemma escalate_rel: "rel s (fst (escalate C now t bid x turn s))"
  using notify_rel auto_pause_rel rel_refl rel_trans by (fastforce simp: escalate_def Let_def split: option.splits)

lemma compose_rel: "rel s (fst (compose_reply C now t bid x s))"
proof (cases "ch_respond C t bid x s")
  case (Pair s1 r)
  have "rel s s1" using respond_rel[of s x] Pair by simp
  moreover have "rel s1 (fst (escalate C now t bid x turn s1))" for turn by (rule escalate_rel)
  ultimately show ?thesis using Pair rel_trans by (cases r) (auto simp: compose_reply_def split: prod.split dest!: arg_cong[of _ _ fst])
qed

lemma deliver_rel: "rel s (fst (send_reply C t f reply meta s))"
  using send_rel[of s f reply] by (auto simp: send_reply_def split: prod.splits sum.splits)

lemma answer_rel: "rel s (answer_message C now t bid m s)"
proof -
  obtain s1 reply meta where c: "compose_reply C now t bid (im_text m) s = (s1, reply, meta)"
    by (cases "compose_reply C now t bid (im_text m) s")
  obtain s2 vid meta2 where d: "send_reply C t (im_from_number m) reply meta s1 = (s2, vid, meta2)"
    by (cases "send_reply C t (im_from_number m) reply meta s1")
  have "rel s s1" using compose_rel[of s now "im_text m"] c by simp
  moreover have "rel s1 s2" using deliver_rel[of s1 "im_from_number m" reply meta] d by simp
  ultimately show ?thesis
    by (simp add: answer_message_def c d Let_def) (meson rel_trans remember_rel outbound_rel dispatch_rel)
qed

lemma process_rel:
  assumes "buyer_id_for (t_slug t) (im_from_number m) = bid"
  shows "rel s (process_inbound C now t m s)"
proof -
  let ?s1 = "fst (ch_remember C bid (buyer_turn now t m) s)"
  let ?s2 = "fst (ch_inbound C (t_id t) (im_from_number m) (im_text m) (im_message_id m) (im_profile_name m) ?s1)"
  have 2: "rel s ?s2" by (meson rel_trans remember_rel inbound_rel)
  obtain s3 r where p: "ch_is_paused C (t_id t) bid ?s2 = (s3, r)" by (cases "ch_is_paused C (t_id t) bid ?s2")
  have 3: "rel s s3" using is_paused_rel[of ?s2] p 2 rel_trans by fastforce
  have "process_inbound C now t m s = s3 \<or> process_inbound C now t m s = answer_message C now t bid m s3"
    by (auto simp: process_inbound_def assms p Let_def split: sum.split bool.split)
  then show ?thesis using 3 answer_rel rel_trans by metis
qed

end

end
