(* ===== verification/Scope.thy ===== *)
theory Scope
  imports Crm_Recorder Crm_Extractor
begin

text \<open>
  What one tenant sees of a store shared by all: the subsequence of the values it owns. An
  operation that only writes entries of one tenant leaves the view of every other. These are the
  unwinding conditions the isolation properties of the API and of the inbound path rest on.
\<close>

definition items_of :: "pystr \<Rightarrow> resource_store \<Rightarrow> resource list" where
  "items_of t d = filter (\<lambda>r. re_tenant_id r = t) (dvalues d)"

text \<open>The identifier is free or already the tenant's.\<close>

definition may_write :: "pystr \<Rightarrow> resource_store \<Rightarrow> pystr \<Rightarrow> bool" where
  "may_write t d i \<longleftrightarrow> (\<forall>r. dget d i = Some r \<longrightarrow> re_tenant_id r = t)"

lemma add_scoped:
  assumes "may_write (re_tenant_id r) d (re_id r)" and "t \<noteq> re_tenant_id r"
  shows "items_of t (res_add d r) = items_of t d"
  using assms by (auto simp: items_of_def res_add_def may_write_def intro!: filter_dset_other)

lemma delete_scoped:
  assumes "dict_ok d" and "may_write t' d i" and "t \<noteq> t'"
  shows "items_of t (res_delete d i) = items_of t d"
  using assms by (auto simp: items_of_def res_delete_def may_write_def intro!: filter_dpop_other)

lemma pops_scoped:
  assumes "store_ok re_id d" and "\<forall>e \<in> set es. P e \<longrightarrow> re_tenant_id e \<noteq> t \<and> (\<forall>x. dget d (re_id e) = Some x \<longrightarrow> x = e)"
  shows "items_of t (fold (\<lambda>e acc. if P e then dpop acc (re_id e) else acc) es d) = items_of t d"
  using assms
proof (induction es arbitrary: d)
  case (Cons e es)
  show ?case
  proof (cases "P e")
    case True
    have "store_ok re_id (dpop d (re_id e))" using Cons.prems(1) by (rule store_ok_dpop)
    moreover have "\<forall>e' \<in> set es. P e' \<longrightarrow> re_tenant_id e' \<noteq> t \<and> (\<forall>x. dget (dpop d (re_id e)) (re_id e') = Some x \<longrightarrow> x = e')"
      using Cons.prems(2) by (auto split: if_splits)
    ultimately have "items_of t (fold (\<lambda>e acc. if P e then dpop acc (re_id e) else acc) es (dpop d (re_id e))) = items_of t (dpop d (re_id e))"
      by (rule Cons.IH)
    also have "\<dots> = items_of t d"
      unfolding items_of_def using Cons.prems True by (intro filter_dpop_other) (auto simp: store_ok_def)
    finally show ?thesis using True by simp
  next
    case False
    with Cons show ?thesis by simp
  qed
qed simp

lemma upsert_scoped:
  assumes "store_ok re_id d" and "may_write (re_tenant_id r) d (re_id r)" and "t \<noteq> re_tenant_id r"
  shows "items_of t (upsert d r) = items_of t d"
proof -
  let ?P = "\<lambda>e. dedup_key e = dedup_key r \<and> re_id e \<noteq> re_id r"
  let ?d = "if re_external_id r \<noteq> None \<and> re_source_id r \<noteq> None
    then fold (\<lambda>e acc. if ?P e then dpop acc (re_id e) else acc) (dvalues d) d else d"
  have self: "dget d (re_id e) = Some x \<Longrightarrow> x = e" if "e \<in> set (dvalues d)" for e x
    using store_lookup[OF assms(1), of "re_id e" e] that by simp
  have "items_of t (fold (\<lambda>e acc. if ?P e then dpop acc (re_id e) else acc) (dvalues d) d) = items_of t d"
    using assms(1,3) self by (intro pops_scoped) (auto simp: dedup_key_def)
  then have pops: "items_of t ?d = items_of t d" by simp
  have "items_of t (dset ?d (re_id r) r) = items_of t ?d"
    unfolding items_of_def using assms(2,3)
    by (intro filter_dset_other) (auto simp: fold_pops may_write_def split: if_splits)
  with pops show ?thesis by (simp add: upsert_def Let_def)
qed

text \<open>What an operation of tenant \<open>t\<close> may do to the shared store.\<close>

definition scoped :: "pystr \<Rightarrow> resource_store \<Rightarrow> resource_store \<Rightarrow> bool" where
  "scoped t d d' \<longleftrightarrow> (store_ok re_id d \<longrightarrow> store_ok re_id d') \<and> (\<forall>t'. t' \<noteq> t \<longrightarrow> items_of t' d' = items_of t' d)"

lemma scoped_refl [simp]: "scoped t d d"
  by (simp add: scoped_def)

lemma scoped_trans [trans]: "scoped t a b \<Longrightarrow> scoped t b c \<Longrightarrow> scoped t a c"
  by (simp add: scoped_def)

lemma scoped_add: "may_write (re_tenant_id r) d (re_id r) \<Longrightarrow> scoped (re_tenant_id r) d (res_add d r)"
  by (simp add: scoped_def add_scoped resources.put_ok)

lemma scoped_upsert:
  "store_ok re_id d \<Longrightarrow> may_write (re_tenant_id r) d (re_id r) \<Longrightarrow> scoped (re_tenant_id r) d (upsert d r)"
  by (simp add: scoped_def upsert_scoped resources.put_ok2)

lemma scoped_delete: "store_ok re_id d \<Longrightarrow> may_write t d i \<Longrightarrow> scoped t d (res_delete d i)"
  by (simp add: scoped_def res_delete_def store_ok_dpop) (simp add: delete_scoped[unfolded res_delete_def] store_ok_def)

lemma found_item:
  assumes "store_ok re_id d" and "find_by_external_id d t k x = Some r"
  shows "dget d (re_id r) = Some r" and "re_tenant_id r = t"
  using assms(2) resources.ext_Some[of d t k x r] store_lookup[OF assms(1), of "re_id r" r] by simp_all

section \<open>The recorder stays in its tenant\<close>

lemma contact_scoped:
  assumes "upsert_contact_for_inbound d u now t phone name tm = Inr (d', c)" and "store_ok re_id d" and "dget d u = None"
  shows "scoped t d d'" and "dget d' i = None \<or> i = u \<or> dget d i \<noteq> None"
proof -
  have "scoped t d d' \<and> (dget d' i = None \<or> i = u \<or> dget d i \<noteq> None)"
  proof (cases "find_by_external_id d t contact_kind (contact_external_id phone)")
    case None
    then obtain data s where "d' = res_add d (new_resource u now t contact_kind (contact_external_id phone) data s)"
      using assms(1) by (auto simp: upsert_contact_for_inbound_def Let_def)
    then show ?thesis
      using scoped_add[of "new_resource u now t contact_kind (contact_external_id phone) data s" d] assms(3)
      by (auto simp: may_write_def res_add_def)
  next
    case (Some old)
    then obtain data s w where d': "d' = upsert d (old\<lparr>re_data := data, re_summary := s, re_updated_at := w\<rparr>)"
      using assms(1) by (auto simp: upsert_contact_for_inbound_def Let_def split: sum.splits)
    note old = found_item[OF assms(2) Some]
    let ?c = "old\<lparr>re_data := data, re_summary := s, re_updated_at := w\<rparr>"
    have "scoped t d d'" unfolding d' using scoped_upsert[OF assms(2), of ?c] old by (simp add: may_write_def)
    moreover have "dget d' i = None \<or> dget d i \<noteq> None"
      using resources.put_get2[OF assms(2), of ?c i] old by (auto simp: d' res_get_def split: option.splits if_splits)
    ultimately show ?thesis by blast
  qed
  then show "scoped t d d'" and "dget d' i = None \<or> i = u \<or> dget d i \<noteq> None" by blast+
qed

lemma activity_scoped:
  assumes "record_activity d u now t cid dir text mid ty tm extra = (d', a)" and "dget d u = None"
  shows "scoped t d d'"
proof (cases "find_by_external_id d t activity_kind (activity_external_id mid dir)")
  case None
  then obtain data s where "d' = res_add d (new_resource u now t activity_kind (activity_external_id mid dir) data s)"
    using assms(1) by (auto simp: record_activity_def Let_def)
  then show ?thesis
    using scoped_add[of "new_resource u now t activity_kind (activity_external_id mid dir) data s" d] assms(2)
    by (simp add: may_write_def)
next
  case (Some old)
  then show ?thesis using assms(1) by (simp add: record_activity_def)
qed

lemma activity_keys:
  assumes "record_activity d u now t cid dir text mid ty tm extra = (d', a)"
  shows "dget d' i = None \<or> i = u \<or> dget d i \<noteq> None"
  using assms by (auto simp: record_activity_def Let_def res_add_def split: option.splits)

lemma inbound_scoped:
  assumes "record_inbound d u v now t phone text mid name tm = Inr (d', c, a)" and "store_ok re_id d"
    and "dget d u = None" and "dget d v = None" and "u \<noteq> v"
  shows "scoped t d d'" and "dget d' i = None \<or> i = u \<or> i = v \<or> dget d i \<noteq> None"
proof -
  obtain d1 where s1: "upsert_contact_for_inbound d u now t phone name tm = Inr (d1, c)"
    and s2: "record_activity d1 v now t (re_id c) (lit ''inbound'') text mid whatsapp_message tm None = (d', a)"
    using assms(1) by (auto simp: record_inbound_def split: sum.splits prod.splits)
  have "dget d1 v = None" using contact_scoped(2)[OF s1 assms(2,3), of v] assms(4,5) by auto
  then show "scoped t d d'" using contact_scoped(1)[OF s1 assms(2,3)] activity_scoped[OF s2] scoped_trans by blast
  show "dget d' i = None \<or> i = u \<or> i = v \<or> dget d i \<noteq> None"
    using contact_scoped(2)[OF s1 assms(2,3), of i] activity_keys[OF s2, of i] by blast
qed

lemma outbound_keys:
  "dget (fst (record_outbound d u now t phone text mid tm extra)) i = None \<or> i = u \<or> dget d i \<noteq> None"
proof (cases "find_by_external_id d t contact_kind (contact_external_id phone)")
  case (Some c)
  obtain d' r where s: "record_activity d u now t (re_id c) (lit ''outbound'') text mid whatsapp_message tm extra = (d', r)"
    by (cases "record_activity d u now t (re_id c) (lit ''outbound'') text mid whatsapp_message tm extra")
  then show ?thesis using activity_keys[OF s, of i] Some by (simp add: record_outbound_def)
next
  case None
  then show ?thesis by (cases "dget d i") (simp_all add: record_outbound_def)
qed

lemma outbound_scoped:
  assumes "dget d u = None"
  shows "scoped t d (fst (record_outbound d u now t phone text mid tm extra))"
  using activity_scoped[OF _ assms] by (auto simp: record_outbound_def split: option.splits prod.splits)

end
