(* ===== verification/Inbound_Live.thy ===== *)
theory Inbound_Live
  imports Inbound Scope Learning Ingestion
begin

text \<open>
  The inbound path over the in-memory adapters, as \<open>WapsellClient\<close> wires them
  (\<open>sdk/wapsell/client.py\<close>, \<open>services/api/main.py\<close>): the channel of \<open>Inbound\<close> on the state of the
  process, the dispatcher of the background CRM extraction and the extraction itself. The language
  model, the handoff HTTP client, the identifiers and the environment are the fields of \<open>deps\<close>. A
  scheduled extraction (\<open>asyncio.create_task\<close>) is an entry of a queue that a later step runs.
\<close>

section \<open>State and dependencies\<close>

record world =
  w_app :: app
  w_outbox :: "outbound_message list"
  w_posts :: "(pystr \<times> json) list"
  w_jobs :: "(pystr \<times> pystr \<times> pystr) list"
  w_ids :: nat

record deps =
  dp_uids :: "nat \<Rightarrow> pystr"
  dp_llm :: "llm_message list \<Rightarrow> pystr \<Rightarrow> llm_reply res"
  dp_post :: "pystr \<Rightarrow> json \<Rightarrow> pystr + nat"
  dp_extractor :: "(llm_call \<times> pystr) option"
  dp_env :: "pystr dict"

text \<open>The ports of the agent loop on the in-memory stores, with the defaults of its constructor.\<close>

definition agent_ports :: "deps \<Rightarrow> time \<Rightarrow> app \<Rightarrow> ports" where
  "agent_ports D now a =
     \<lparr>pt_recall = \<lambda>b n. Inr (recall (a_memory a) b n),
      pt_facts = \<lambda>q t k. Inr (query_facts (a_facts a) q (Some t) k),
      pt_search = Some (\<lambda>t q kind k. res_search (a_resources a) t None (Some q) kind k),
      pt_hints = Some (\<lambda>t. Inr (render_soul_hints (a_resources a) (a_query_log a) now t None)),
      pt_llm = dp_llm D, pt_resource_kind = None, pt_resource_top_k = 5, pt_history_turns = 6, pt_rag_top_k = 5\<rparr>"

section \<open>Dispatching the CRM extraction\<close>

text \<open>\<open>isinstance(x, int)\<close>: a boolean is an integer.\<close>

definition as_int :: "json \<Rightarrow> int option" where
  "as_int j = (case j of JInt n \<Rightarrow> Some n | JBool b \<Rightarrow> Some (if b then 1 else 0) | _ \<Rightarrow> None)"

definition extractor_stride :: "pystr dict \<Rightarrow> int" where
  "extractor_stride env =
     (case int_of_str (dget_or env (lit ''WAPSELL_CRM_EXTRACTOR_STRIDE'') (lit ''3'')) of None \<Rightarrow> 3 | Some n \<Rightarrow> max 0 n)"

definition off_stride :: "int \<Rightarrow> resource \<Rightarrow> bool" where
  "off_stride stride contact \<longleftrightarrow>
     (case as_int (jget (re_data contact) ''turn_count'') of None \<Rightarrow> False | Some n \<Rightarrow> n > 0 \<and> n mod stride \<noteq> 0)"

definition schedule :: "pystr \<Rightarrow> pystr \<Rightarrow> pystr \<Rightarrow> world \<Rightarrow> world" where
  "schedule t b f w = w\<lparr>w_jobs := w_jobs w @ [(t, b, f)]\<rparr>"

definition maybe_dispatch :: "deps \<Rightarrow> pystr \<Rightarrow> pystr \<Rightarrow> pystr \<Rightarrow> world \<Rightarrow> world" where
  "maybe_dispatch D t b f w =
     (if dp_extractor D = None then w
      else (let stride = extractor_stride (dp_env D)
            in if stride > 1
               then (case find_by_external_id (a_resources (w_app w)) t contact_kind (contact_external_id f) of
                       None \<Rightarrow> w
                     | Some contact \<Rightarrow> if off_stride stride contact then w else schedule t b f w)
               else schedule t b f w))"

text \<open>\<open>_run_crm_extractor\<close>: every failure ends the run without a write.\<close>

definition run_crm_extractor :: "deps \<Rightarrow> time \<Rightarrow> pystr \<Rightarrow> pystr \<Rightarrow> pystr \<Rightarrow> world \<Rightarrow> world" where
  "run_crm_extractor D now t b f w =
     (case dp_extractor D of
        None \<Rightarrow> w
      | Some (ask, model) \<Rightarrow>
          (case find_by_external_id (a_resources (w_app w)) t contact_kind (contact_external_id f) of
             None \<Rightarrow> w
           | Some contact \<Rightarrow>
               (let recent = recall (a_memory (w_app w)) b (Some 40);
                    turns = map (\<lambda>i. \<lparr>ct_role = role_str (bi_role i), ct_text = bi_text i, ct_at = Some (isoformat (bi_at i))\<rparr>)
                              (filter (\<lambda>i. bi_text i \<noteq> []) recent)
                in if turns = [] then w
                   else (case extract_turns ask model turns of
                           Inl e \<Rightarrow> w
                         | Inr r \<Rightarrow>
                             if extraction_empty r then w
                             else (case apply_extraction (a_resources (w_app w)) (\<lambda>n. dp_uids D (w_ids w + n)) now t (re_id contact) r of
                                     Inl e \<Rightarrow> w
                                   | Inr d \<Rightarrow> w\<lparr>w_app := (w_app w)\<lparr>a_resources := d\<rparr>,
                                                 w_ids := w_ids w + length (ex_new_tasks r) + 1\<rparr>)))))"

text \<open>The event loop takes the oldest scheduled run.\<close>

definition run_next_job :: "deps \<Rightarrow> time \<Rightarrow> world \<Rightarrow> world" where
  "run_next_job D now w =
     (case w_jobs w of [] \<Rightarrow> w | (t, b, f) # js \<Rightarrow> run_crm_extractor D now t b f (w\<lparr>w_jobs := js\<rparr>))"

section \<open>The channel\<close>

definition live_remember :: "pystr \<Rightarrow> interaction \<Rightarrow> world \<Rightarrow> world \<times> unit res" where
  "live_remember b i w = (w\<lparr>w_app := (w_app w)\<lparr>a_memory := remember (a_memory (w_app w)) b i\<rparr>\<rparr>, Inr ())"

definition live_inbound ::
  "deps \<Rightarrow> time \<Rightarrow> pystr \<Rightarrow> pystr \<Rightarrow> pystr \<Rightarrow> pystr \<Rightarrow> pystr option \<Rightarrow> world \<Rightarrow> world \<times> unit res" where
  "live_inbound D now t f x i p w =
     (case record_inbound (a_resources (w_app w)) (dp_uids D (w_ids w)) (dp_uids D (w_ids w + 1)) now t f x i p None of
        Inl e \<Rightarrow> (w, Inl e)
      | Inr (d, _, _) \<Rightarrow> (w\<lparr>w_app := (w_app w)\<lparr>a_resources := d\<rparr>, w_ids := w_ids w + 2\<rparr>, Inr ()))"

definition live_outbound ::
  "deps \<Rightarrow> time \<Rightarrow> pystr \<Rightarrow> pystr \<Rightarrow> pystr \<Rightarrow> pystr \<Rightarrow> pystr dict \<Rightarrow> world \<Rightarrow> world \<times> unit res" where
  "live_outbound D now t f x i extra w =
     (let d = fst (record_outbound (a_resources (w_app w)) (dp_uids D (w_ids w)) now t f x i None
                     (Some (map (\<lambda>kv. (fst kv, JStr (snd kv))) extra)))
      in (w\<lparr>w_app := (w_app w)\<lparr>a_resources := d\<rparr>, w_ids := w_ids w + 1\<rparr>, Inr ()))"

definition live_pause :: "pystr \<Rightarrow> pystr \<Rightarrow> time \<Rightarrow> world \<Rightarrow> world \<times> unit res" where
  "live_pause t b u w = (w\<lparr>w_app := (w_app w)\<lparr>a_pauses := pause (a_pauses (w_app w)) t b u\<rparr>\<rparr>, Inr ())"

definition live_notify :: "deps \<Rightarrow> tenant \<Rightarrow> pystr \<Rightarrow> pystr \<Rightarrow> handoff_decision \<Rightarrow> world \<Rightarrow> world \<times> unit res" where
  "live_notify D t b x d w =
     (w\<lparr>w_posts := w_posts w @ (case fst (notify (dp_post D) t b x d) of None \<Rightarrow> [] | Some p \<Rightarrow> [p])\<rparr>, Inr ())"

definition live_send :: "deps \<Rightarrow> time \<Rightarrow> pystr \<Rightarrow> pystr \<Rightarrow> pystr \<Rightarrow> world \<Rightarrow> world \<times> pystr option res" where
  "live_send D now to x t w =
     (case mem_send_text (w_outbox w) (dp_uids D (w_ids w)) now to x (Some t) of (out, m) \<Rightarrow>
        (w\<lparr>w_outbox := out, w_ids := w_ids w + 1\<rparr>, Inr (om_vendor_message_id m)))"

definition live :: "deps \<Rightarrow> time \<Rightarrow> world channel" where
  "live D now =
     \<lparr>ch_remember = live_remember,
      ch_inbound = live_inbound D now,
      ch_is_paused = \<lambda>t b w. (w, Inr (is_paused (a_pauses (w_app w)) t b now)),
      ch_respond = \<lambda>t b x w. (w, respond (agent_ports D now (w_app w)) t b x None),
      ch_notify = live_notify D,
      ch_pause = live_pause,
      ch_send = live_send D now,
      ch_outbound = live_outbound D now,
      ch_dispatch = maybe_dispatch D\<rparr>"

lemma live_sel [simp]:
  "ch_remember (live D now) = live_remember" "ch_inbound (live D now) = live_inbound D now"
  "ch_is_paused (live D now) t b w = (w, Inr (is_paused (a_pauses (w_app w)) t b now))"
  "ch_respond (live D now) tt b x w = (w, respond (agent_ports D now (w_app w)) tt b x None)"
  "ch_notify (live D now) = live_notify D" "ch_pause (live D now) = live_pause"
  "ch_send (live D now) = live_send D now" "ch_outbound (live D now) = live_outbound D now"
  "ch_dispatch (live D now) = maybe_dispatch D"
  by (simp_all add: live_def)

section \<open>A message stays in its tenant and its thread\<close>

text \<open>Identifiers yet to be drawn are free; the stores are well formed.\<close>

definition world_ok :: "deps \<Rightarrow> world \<Rightarrow> bool" where
  "world_ok D w \<longleftrightarrow> store_ok re_id (a_resources (w_app w)) \<and> memory_ok (a_memory (w_app w)) \<and> inj (dp_uids D) \<and>
     (\<forall>n \<ge> w_ids w. dget (a_resources (w_app w)) (dp_uids D n) = None)"

definition sends_for :: "pystr \<Rightarrow> outbound_message list \<Rightarrow> outbound_message list \<Rightarrow> bool" where
  "sends_for tid os os' \<longleftrightarrow> take (length os) os' = os \<and> list_all (\<lambda>o1. om_tenant_id o1 = Some tid) (drop (length os) os')"

lemma sends_for_iff: "sends_for tid os os' \<longleftrightarrow> (\<exists>out. os' = os @ out \<and> list_all (\<lambda>o1. om_tenant_id o1 = Some tid) out)"
  by (auto simp: sends_for_def) (metis append_take_drop_id)

lemma sends_for_trans: "sends_for tid a b \<Longrightarrow> sends_for tid b c \<Longrightarrow> sends_for tid a c"
  by (auto simp: sends_for_iff)

text \<open>Only the memory, the pauses and the items of the state changed.\<close>

definition other_stores_same :: "app \<Rightarrow> app \<Rightarrow> bool" where
  "other_stores_same a a' \<longleftrightarrow>
     a' = a\<lparr>a_memory := a_memory a', a_pauses := a_pauses a', a_resources := a_resources a'\<rparr>"

lemma other_stores_trans: "other_stores_same a b \<Longrightarrow> other_stores_same b c \<Longrightarrow> other_stores_same a c"
  unfolding other_stores_same_def by (cases a; cases b; cases c) simp

lemma other_stores_upd [simp]: "other_stores_same a (a\<lparr>a_memory := m\<rparr>)" "other_stores_same a (a\<lparr>a_pauses := p\<rparr>)"
  "other_stores_same a (a\<lparr>a_resources := r\<rparr>)" "other_stores_same a a"
  by (simp_all add: other_stores_same_def)

definition tenant_step :: "pystr \<Rightarrow> pystr \<Rightarrow> world \<Rightarrow> world \<Rightarrow> bool" where
  "tenant_step tid bid w w' \<longleftrightarrow>
     other_stores_same (w_app w) (w_app w') \<and>
     (\<forall>b lmt. b \<noteq> bid \<longrightarrow> recall (a_memory (w_app w')) b lmt = recall (a_memory (w_app w)) b lmt) \<and>
     (\<forall>t' b. (t', b) \<noteq> (tid, bid) \<longrightarrow> pause_get (a_pauses (w_app w')) t' b = pause_get (a_pauses (w_app w)) t' b) \<and>
     (\<forall>t'. t' \<noteq> tid \<longrightarrow> items_of t' (a_resources (w_app w')) = items_of t' (a_resources (w_app w))) \<and>
     sends_for tid (w_outbox w) (w_outbox w')"

lemma tenant_step_refl [simp]: "tenant_step tid bid w w"
  by (simp add: tenant_step_def sends_for_def)

lemma tenant_step_trans: "tenant_step tid bid w1 w2 \<Longrightarrow> tenant_step tid bid w2 w3 \<Longrightarrow> tenant_step tid bid w1 w3"
  unfolding tenant_step_def using other_stores_trans sends_for_trans by metis

definition safe_step :: "deps \<Rightarrow> pystr \<Rightarrow> pystr \<Rightarrow> world \<Rightarrow> world \<Rightarrow> bool" where
  "safe_step D tid bid w w' \<longleftrightarrow> (world_ok D w \<longrightarrow> world_ok D w' \<and> tenant_step tid bid w w')"

lemma safe_refl: "safe_step D tid bid w w"
  by (simp add: safe_step_def)

lemma safe_trans: "safe_step D tid bid w1 w2 \<Longrightarrow> safe_step D tid bid w2 w3 \<Longrightarrow> safe_step D tid bid w1 w3"
  unfolding safe_step_def using tenant_step_trans by blast

lemma safe_remember: "safe_step D tid bid w (fst (live_remember bid i w))"
  using ring.put_isolated ring.put_inv
  by (auto simp: safe_step_def world_ok_def tenant_step_def live_remember_def sends_for_def)

lemma safe_pause: "safe_step D tid bid w (fst (live_pause tid bid u w))"
  by (auto simp: safe_step_def world_ok_def tenant_step_def live_pause_def sends_for_def pause_def pause_get_def)

lemma safe_send: "safe_step D tid bid w (fst (live_send D now f x tid w))"
  by (auto simp: safe_step_def world_ok_def tenant_step_def live_send_def sends_for_iff mem_send_text_def outbound_def Let_def)

lemma safe_notify: "safe_step D tid bid w (fst (live_notify D t b x d w))"
  by (auto simp: safe_step_def world_ok_def tenant_step_def live_notify_def sends_for_iff)

lemma safe_dispatch: "safe_step D tid bid w (maybe_dispatch D tid b f w)"
  by (auto simp: safe_step_def world_ok_def tenant_step_def maybe_dispatch_def schedule_def sends_for_iff Let_def split: option.split)

text \<open>A write of the item store that draws at most \<open>k\<close> identifiers.\<close>

definition draws :: "deps \<Rightarrow> nat \<Rightarrow> nat \<Rightarrow> resource_store \<Rightarrow> resource_store \<Rightarrow> bool" where
  "draws D n k d d' \<longleftrightarrow> (\<forall>i. dget d' i = None \<or> dget d i \<noteq> None \<or> i \<in> dp_uids D ` {n..<n + k})"

lemma safe_items:
  assumes "world_ok D w \<Longrightarrow> scoped tid (a_resources (w_app w)) d" and "world_ok D w \<Longrightarrow> draws D (w_ids w) k (a_resources (w_app w)) d"
    and "w' = w\<lparr>w_app := (w_app w)\<lparr>a_resources := d\<rparr>, w_ids := w_ids w + k\<rparr>"
  shows "safe_step D tid bid w w'"
  unfolding safe_step_def
proof (intro impI conjI)
  assume ok: "world_ok D w"
  note s = assms(1)[OF ok] and n = assms(2)[OF ok]
  have "dget d (dp_uids D j) = None" if "w_ids w + k \<le> j" for j
  proof (rule ccontr)
    assume "dget d (dp_uids D j) \<noteq> None"
    moreover have "dget (a_resources (w_app w)) (dp_uids D j) = None" using ok that by (simp add: world_ok_def)
    ultimately obtain j' where "dp_uids D j = dp_uids D j'" "j' < w_ids w + k" using n by (force simp: draws_def)
    then show False using ok that by (auto simp: world_ok_def dest: injD)
  qed
  then show "world_ok D w'" using ok s by (simp add: world_ok_def scoped_def assms(3))
  show "tenant_step tid bid w w'" using s by (simp add: tenant_step_def scoped_def sends_for_def assms(3))
qed

lemma world_ids:
  assumes "world_ok D w"
  shows "dget (a_resources (w_app w)) (dp_uids D (w_ids w + j)) = None"
  using assms by (simp add: world_ok_def)

lemma safe_inbound: "safe_step D tid bid w (fst (live_inbound D now tid f x i p w))"
proof (cases "record_inbound (a_resources (w_app w)) (dp_uids D (w_ids w)) (dp_uids D (w_ids w + 1)) now tid f x i p None")
  case (Inl e)
  then show ?thesis by (simp add: live_inbound_def safe_refl)
next
  case (Inr y)
  then obtain d c a where r: "record_inbound (a_resources (w_app w)) (dp_uids D (w_ids w)) (dp_uids D (w_ids w + 1)) now tid f x i p None = Inr (d, c, a)"
    by (cases y) auto
  show ?thesis
  proof (rule safe_items[where k = 2 and d = d])
    assume ok: "world_ok D w"
    have fresh: "dget (a_resources (w_app w)) (dp_uids D (w_ids w)) = None" "dget (a_resources (w_app w)) (dp_uids D (w_ids w + 1)) = None"
      using world_ids[OF ok, of 0] world_ids[OF ok, of 1] by simp_all
    have "dp_uids D (w_ids w) \<noteq> dp_uids D (w_ids w + 1)" using ok by (auto simp: world_ok_def dest: injD)
    note s = inbound_scoped[OF r _ fresh this]
    then show "scoped tid (a_resources (w_app w)) d" using ok by (simp add: world_ok_def)
    show "draws D (w_ids w) 2 (a_resources (w_app w)) d"
      unfolding draws_def
    proof
      fix i
      have "w_ids w \<in> {w_ids w..<w_ids w + 2}" "w_ids w + 1 \<in> {w_ids w..<w_ids w + 2}" by simp_all
      then show "dget d i = None \<or> dget (a_resources (w_app w)) i \<noteq> None \<or> i \<in> dp_uids D ` {w_ids w..<w_ids w + 2}"
        using s(2)[of i] ok by (auto simp: world_ok_def)
    qed
  qed (simp add: live_inbound_def r[simplified])
qed

lemma safe_outbound: "safe_step D tid bid w (fst (live_outbound D now tid f x mid e w))"
proof (rule safe_items[where k = 1])
  let ?d = "fst (record_outbound (a_resources (w_app w)) (dp_uids D (w_ids w)) now tid f x mid None (Some (map (\<lambda>kv. (fst kv, JStr (snd kv))) e)))"
  assume ok: "world_ok D w"
  show "scoped tid (a_resources (w_app w)) ?d" using outbound_scoped world_ids[OF ok, of 0] by simp
  show "draws D (w_ids w) 1 (a_resources (w_app w)) ?d"
    unfolding draws_def
  proof
    fix i
    show "dget ?d i = None \<or> dget (a_resources (w_app w)) i \<noteq> None \<or> i \<in> dp_uids D ` {w_ids w..<w_ids w + 1}"
      using outbound_keys[of "a_resources (w_app w)" "dp_uids D (w_ids w)" now tid f x mid None
          "Some (map (\<lambda>kv. (fst kv, JStr (snd kv))) e)" i] by auto
  qed
qed (simp add: live_outbound_def Let_def)

interpretation live_safe: respectful_channel "live D now" "safe_step D (t_id t) bid" t bid
  for D :: deps and now :: time and t :: tenant and bid :: pystr
proof (unfold_locales, goal_cases)
  case 1
  show ?case by (rule safe_refl)
next
  case (2 s1 s2 s3)
  then show ?case by (rule safe_trans)
qed (simp_all add: safe_refl safe_remember safe_inbound safe_notify safe_pause safe_send safe_outbound safe_dispatch)

lemma message_safe:
  "buyer_id_for (t_slug t) (im_from_number m) = bid \<Longrightarrow> safe_step D (t_id t) bid w (process_inbound (live D now) now t m w)"
  by (rule live_safe.process_rel)

section \<open>The exchange\<close>

text \<open>What the calls leave of the dialogue (the memory) and of the outbox.\<close>

lemma live_pause_frame [simp]:
  "a_memory (w_app (fst (live_pause t b u w))) = a_memory (w_app w)" "w_outbox (fst (live_pause t b u w)) = w_outbox w"
  "snd (live_pause t b u w) = Inr ()" "a_pauses (w_app (fst (live_pause t b u w))) = pause (a_pauses (w_app w)) t b u"
  by (simp_all add: live_pause_def)

lemma live_notify_frame [simp]:
  "w_app (fst (live_notify D t b x d w)) = w_app w" "w_outbox (fst (live_notify D t b x d w)) = w_outbox w"
  by (simp_all add: live_notify_def)

lemma live_inbound_frame [simp]:
  "a_memory (w_app (fst (live_inbound D now t f x i p w))) = a_memory (w_app w)"
  "a_pauses (w_app (fst (live_inbound D now t f x i p w))) = a_pauses (w_app w)"
  "w_outbox (fst (live_inbound D now t f x i p w)) = w_outbox w" "w_posts (fst (live_inbound D now t f x i p w)) = w_posts w"
  by (simp_all add: live_inbound_def split: sum.split prod.split)

lemma live_outbound_frame [simp]:
  "a_memory (w_app (fst (live_outbound D now t f x i e w))) = a_memory (w_app w)"
  "a_pauses (w_app (fst (live_outbound D now t f x i e w))) = a_pauses (w_app w)"
  "w_outbox (fst (live_outbound D now t f x i e w)) = w_outbox w"
  by (simp_all add: live_outbound_def Let_def)

lemma dispatch_frame [simp]:
  "w_app (maybe_dispatch D t b f w) = w_app w" "w_outbox (maybe_dispatch D t b f w) = w_outbox w"
  by (simp_all add: maybe_dispatch_def schedule_def Let_def split: option.split)

lemma live_remember_frame [simp]:
  "a_memory (w_app (fst (live_remember b i w))) = remember (a_memory (w_app w)) b i"
  "a_pauses (w_app (fst (live_remember b i w))) = a_pauses (w_app w)"
  "w_outbox (fst (live_remember b i w)) = w_outbox w" "w_posts (fst (live_remember b i w)) = w_posts w"
  by (simp_all add: live_remember_def)

lemma auto_pause_live:
  "a_memory (w_app (fst (auto_pause (live D now) now t b meta w))) = a_memory (w_app w)"
  "w_outbox (fst (auto_pause (live D now) now t b meta w)) = w_outbox w"
  by (auto simp: auto_pause_def live_pause_def split: option.split sum.split)

lemma compose_live:
  "a_memory (w_app (fst (compose_reply (live D now) now t b x w))) = a_memory (w_app w)"
  "w_outbox (fst (compose_reply (live D now) now t b x w)) = w_outbox w"
  by (simp_all add: compose_reply_def escalate_def Let_def auto_pause_live split: sum.split prod.split option.split)
    (metis auto_pause_live fst_conv live_notify_frame)+

lemma arrival_live:
  "a_memory (w_app (after_arrival (live D now) now t m w)) =
     remember (a_memory (w_app w)) (buyer_id_for (t_slug t) (im_from_number m)) (buyer_turn now t m)"
  "a_pauses (w_app (after_arrival (live D now) now t m w)) = a_pauses (w_app w)"
  "w_outbox (after_arrival (live D now) now t m w) = w_outbox w"
  "w_posts (after_arrival (live D now) now t m w) = w_posts w"
  by (simp_all add: after_arrival_def)

lemma found_paused_live:
  "found_paused (live D now) now t m w \<longleftrightarrow>
     is_paused (a_pauses (w_app w)) (t_id t) (buyer_id_for (t_slug t) (im_from_number m)) now"
  by (simp add: found_paused_def arrival_live)

lemma paused_live:
  assumes "is_paused (a_pauses (w_app w)) (t_id t) (buyer_id_for (t_slug t) (im_from_number m)) now"
  shows "process_inbound (live D now) now t m w = after_arrival (live D now) now t m w"
  using assms found_paused_live[of D now t m w]
  by (simp add: process_inbound_def found_paused_def after_arrival_def Let_def)

definition vendor_of :: "deps \<Rightarrow> nat \<Rightarrow> pystr" where
  "vendor_of D n = (lit ''mem-'') @ take 12 (dp_uids D n)"

lemma answer_live:
  "\<exists>meta n. dget meta (lit ''vendor_message_id'') = Some (vendor_of D n) \<and>
     a_memory (w_app (answer_message (live D now) now t b m w)) =
       remember (a_memory (w_app w)) b (agent_entry now (reply_text (respond (agent_ports D now (w_app w)) t b (im_text m) None)) meta) \<and>
     w_outbox (answer_message (live D now) now t b m w) = w_outbox w @
       [outbound now (im_from_number m) (reply_text (respond (agent_ports D now (w_app w)) t b (im_text m) None)) Text_Message
          (Some (t_id t)) (Some (vendor_of D n))] \<and>
     a_pauses (w_app (answer_message (live D now) now t b m w)) =
       a_pauses (w_app (fst (compose_reply (live D now) now t b (im_text m) w)))"
proof -
  obtain s1 reply meta1 where c: "compose_reply (live D now) now t b (im_text m) w = (s1, reply, meta1)"
    by (cases "compose_reply (live D now) now t b (im_text m) w")
  have r: "reply = reply_text (respond (agent_ports D now (w_app w)) t b (im_text m) None)"
    using composed_reply[of "live D now" now t b "im_text m" w] c by simp
  obtain s2 vid meta2 where d: "send_reply (live D now) t (im_from_number m) reply meta1 s1 = (s2, vid, meta2)"
    by (cases "send_reply (live D now) t (im_from_number m) reply meta1 s1")
  have s1: "a_memory (w_app s1) = a_memory (w_app w)" "w_outbox s1 = w_outbox w"
    using compose_live[of D now t b "im_text m" w] c by simp_all
  have out: "snd (live_send D now (im_from_number m) reply (t_id t) s1) = Inr (Some (vendor_of D (w_ids s1)))"
    by (simp add: live_send_def mem_send_text_def outbound_def vendor_of_def Let_def)
  have meta: "dget (reply_meta vid meta2) (lit ''vendor_message_id'') = Some (vendor_of D (w_ids s1))"
    using sent_meta[OF _ _ _ d] composed_keys[of "live D now" now t b "im_text m" w] c out by (simp add: delivery_noted_def)
  have s2: "w_app s2 = w_app s1" "w_outbox s2 = w_outbox s1 @ [outbound now (im_from_number m) reply Text_Message (Some (t_id t)) (Some (vendor_of D (w_ids s1)))]"
    using d by (auto simp: send_reply_def live_send_def mem_send_text_def outbound_def vendor_of_def Let_def)
  show ?thesis unfolding r[symmetric]
    by (intro exI[of _ "reply_meta vid meta2"] exI[of _ "w_ids s1"]) (simp add: answer_message_def c d Let_def s1 s2 meta)
qed

lemma not_paused_live:
  assumes "\<not> is_paused (a_pauses (w_app w)) (t_id t) (buyer_id_for (t_slug t) (im_from_number m)) now"
  shows "process_inbound (live D now) now t m w =
    answer_message (live D now) now t (buyer_id_for (t_slug t) (im_from_number m)) m (after_arrival (live D now) now t m w)"
  using process_not_paused(1)[of "live D now" now t m w] assms by (simp add: found_paused_live)

text \<open>An escalated message of a tenant with a positive window pauses the thread until its end.\<close>

lemma escalated_live:
  assumes "t_handoff_config t = Some hc" and "hd_escalate (evaluate x (Some hc))" and "hc_auto_pause_hours hc > 0"
    and "add_hours now (hc_auto_pause_hours hc) = Inr u"
  shows "respond (agent_ports D now a) t b x None = Inr \<lparr>at_reply = hc_message hc, at_model = handoff_model, at_facts_cited = [],
      at_history_used = 0, at_handoff = Some (evaluate x (Some hc)), at_resources_cited = []\<rparr>"
    and "a_pauses (w_app (fst (compose_reply (live D now) now t b x w))) = pause (a_pauses (w_app w)) (t_id t) b u"
proof -
  show r: "respond (agent_ports D now a) t b x None = Inr \<lparr>at_reply = hc_message hc, at_model = handoff_model, at_facts_cited = [],
      at_history_used = 0, at_handoff = Some (evaluate x (Some hc)), at_resources_cited = []\<rparr>" for a
    using respond_handoff[OF assms(1,2)] .
  show "a_pauses (w_app (fst (compose_reply (live D now) now t b x w))) = pause (a_pauses (w_app w)) (t_id t) b u"
    by (simp add: compose_reply_def r escalate_def assms Let_def auto_pause_def live_pause_def split: prod.split)
qed

end
