(* ===== verification/Calendar.thy ===== *)
theory Calendar
  imports Py_Data
begin

text \<open>
  Rendering a date loses nothing: \<open>civil_from_days\<close> is injective, and so is \<open>date_str\<close> on the days
  from the year 0 on. The analytics rest on it, they key their daily counts by the rendered date.
\<close>

section \<open>Years of an era\<close>

text \<open>
  An era is 400 years, 146097 days. \<open>scaled doe\<close> counts 365 for every year begun before the day
  \<open>doe\<close>, \<open>year_start y\<close> is the first day of the year \<open>y\<close>.
\<close>

definition scaled :: "int \<Rightarrow> int" where
  "scaled doe = doe - doe div 1460 + doe div 36524 - doe div 146096"

definition year_start :: "int \<Rightarrow> int" where
  "year_start y = 365 * y + y div 4 - y div 100"

lemma div_between: "k * c \<le> n \<Longrightarrow> n < k * c + k \<Longrightarrow> n div k = (c :: int)"
  by (rule int_div_pos_eq[of n k c "n - k * c"]) simp_all

lemma div_step:
  assumes "0 < (k :: int)"
  shows "(n + 1) div k = n div k + (if (n + 1) mod k = 0 then 1 else 0)"
proof -
  define c r where "c = n div k" and "r = n mod k"
  have n: "n = k * c + r" and r: "0 \<le> r" "r < k" using assms by (simp_all add: c_def r_def)
  show ?thesis
  proof (cases "r + 1 = k")
    case True
    then have "n + 1 = k * (c + 1)" using n by (simp add: algebra_simps)
    then show ?thesis using assms by (simp add: c_def[symmetric])
  next
    case False
    then have "(n + 1) div k = c" by (intro div_between) (use n r in \<open>simp_all add: algebra_simps\<close>)
    moreover have "(n + 1) mod k = r + 1"
      using False n r by (intro int_mod_pos_eq[of _ _ c]) linarith+
    ultimately show ?thesis using r by (simp add: c_def[symmetric])
  qed
qed

lemma scaled_mono_step:
  assumes "0 \<le> d" and "d + 1 < 146097"
  shows "scaled d \<le> scaled (d + 1)"
proof (cases "d + 1 = 146096")
  case True
  then have "d = 146095" by simp
  then show ?thesis by (simp add: scaled_def)
next
  case False
  then have "(d + 1) mod 146096 = d + 1" using assms by simp
  then show ?thesis using assms by (simp add: scaled_def div_step)
qed

lemma scaled_mono:
  assumes "d \<le> e" and "0 \<le> d" and "e < 146097"
  shows "scaled d \<le> scaled e"
  using assms
proof (induction e rule: int_ge_induct)
  case (step i)
  then show ?case using scaled_mono_step[of i] by linarith
qed simp

text \<open>A year below 400 in its century, its leap cycle and its position there.\<close>

lemma year_parts:
  assumes "0 \<le> y" and "y < (400 :: int)"
  obtains h q s where "y = 100 * h + 4 * q + s" and "0 \<le> h" and "h \<le> 3" and "0 \<le> q" and "q \<le> 24"
    and "0 \<le> s" and "s \<le> 3" and "year_start y = 36524 * h + 1461 * q + 365 * s"
proof -
  define h r q s where "h = y div 100" and "r = y mod 100" and "q = r div 4" and "s = r mod 4"
  have y: "y = 100 * h + r" and r: "r = 4 * q + s" by (simp_all add: h_def r_def q_def s_def)
  have b: "0 \<le> r" "r < 100" "0 \<le> s" "s < 4" by (simp_all add: r_def s_def)
  have h: "0 \<le> h" "h \<le> 3" using assms y b by linarith+
  have q: "0 \<le> q" "q \<le> 24" using b r by linarith+
  have "y div 4 = 25 * h + q" by (rule div_between) (use y r b in \<open>simp_all add: algebra_simps\<close>)
  then have "year_start y = 365 * y + (25 * h + q) - h" by (simp only: year_start_def h_def)
  then have "year_start y = 36524 * h + 1461 * q + 365 * s" unfolding y r by (simp add: algebra_simps)
  with h q b y r show ?thesis by (intro that[of h q s]) simp_all
qed

lemma scaled_year_start:
  assumes "0 \<le> y" and "y < 400"
  shows "scaled (year_start y) = 365 * y" and "0 < y \<Longrightarrow> scaled (year_start y - 1) < 365 * y"
    and "0 \<le> year_start y" and "year_start y < 146096"
proof -
  obtain h q s where y: "y = 100 * h + 4 * q + s" and b: "0 \<le> h" "h \<le> 3" "0 \<le> q" "q \<le> 24" "0 \<le> s" "s \<le> 3"
    and S: "year_start y = 36524 * h + 1461 * q + 365 * s" using year_parts[OF assms] .
  have d1: "year_start y div 1460 = 25 * h + q" by (rule div_between) (use S b in \<open>simp_all add: algebra_simps\<close>)
  have d2: "year_start y div 36524 = h" by (rule div_between) (use S b in \<open>simp_all add: algebra_simps\<close>)
  have d3: "year_start y div 146096 = 0" by (rule div_between) (use S b in \<open>simp_all add: algebra_simps\<close>)
  show "scaled (year_start y) = 365 * y" using d1 d2 d3 S y by (simp add: scaled_def)
  show "0 \<le> year_start y" "year_start y < 146096" using S b by linarith+
  show "scaled (year_start y - 1) < 365 * y" if "0 < y"
  proof -
    have pos: "0 < 24 * h + q + 365 * s" using that y b by linarith
    have e1: "(year_start y - 1) div 1460 = 25 * h + q" by (rule div_between) (use S b pos in \<open>simp_all add: algebra_simps\<close>)
    have e2: "(year_start y - 1) div 36524 \<le> h" using d2 zdiv_mono1[of "year_start y - 1" "year_start y" 36524] by simp
    have "0 \<le> year_start y - 1" using S b pos by linarith
    then have e3: "(year_start y - 1) div 146096 \<ge> 0" by simp
    show ?thesis using e1 e2 e3 S y by (simp add: scaled_def)
  qed
qed

lemma year_of_day:
  assumes d: "0 \<le> d" "d < 146097"
  defines "y \<equiv> scaled d div 365"
  shows "0 \<le> y" and "y < 400" and "year_start y \<le> d" and "d \<le> year_start y + 365"
proof -
  have s0: "scaled 0 = 0" by (simp add: scaled_def)
  have "0 \<le> scaled d" using scaled_mono[of 0 d] d s0 by simp
  then show y0: "0 \<le> y" by (simp add: y_def)
  have "scaled d \<le> scaled 146096" using scaled_mono[of d 146096] d by simp
  also have "scaled 146096 = 145999" by (simp add: scaled_def)
  finally show y1: "y < 400" unfolding y_def by linarith
  have in_y: "365 * y \<le> scaled d" "scaled d < 365 * y + 365" unfolding y_def by linarith+
  show "year_start y \<le> d"
  proof (rule ccontr)
    assume a: "\<not> year_start y \<le> d"
    have "year_start 0 = 0" by (simp add: year_start_def)
    then have "0 < y" using a d y0 by (cases "y = 0") auto
    then have "scaled (year_start y - 1) < 365 * y" using scaled_year_start(2) y0 y1 by blast
    moreover have "scaled d \<le> scaled (year_start y - 1)"
      using a d scaled_year_start(4)[OF y0 y1] by (intro scaled_mono) linarith+
    ultimately show False using in_y by linarith
  qed
  show "d \<le> year_start y + 365"
  proof (cases "y = 399")
    case True
    then show ?thesis using d by (simp add: year_start_def)
  next
    case False
    then have y2: "0 \<le> y + 1" "y + 1 < 400" using y0 y1 by linarith+
    have "d < year_start (y + 1)"
    proof (rule ccontr)
      assume "\<not> d < year_start (y + 1)"
      then have "scaled (year_start (y + 1)) \<le> scaled d" using d scaled_year_start(3)[OF y2] by (intro scaled_mono) linarith+
      then show False using in_y scaled_year_start(1)[OF y2] by (simp add: algebra_simps)
    qed
    moreover have "year_start (y + 1) \<le> year_start y + 366"
    proof -
      have "y div 100 \<le> (y + 1) div 100" by (rule zdiv_mono1) simp_all
      moreover have "(y + 1) div 4 \<le> y div 4 + 1" using div_step[of 4 y] by simp
      ultimately show ?thesis unfolding year_start_def by (simp add: algebra_simps)
    qed
    ultimately show ?thesis by linarith
  qed
qed

section \<open>The calendar date determines the day\<close>

definition month_of :: "int \<Rightarrow> int" where
  "month_of mp = (if mp < 10 then mp + 3 else mp - 9)"

lemma civil_form:
  "civil_from_days z =
     (let era = (z + 719468) div 146097; doe = (z + 719468) mod 146097; y = scaled doe div 365;
          doy = doe - year_start y; mp = (5 * doy + 2) div 153
      in (y + era * 400 + (if month_of mp \<le> 2 then 1 else 0), month_of mp, doy - (153 * mp + 2) div 5 + 1))"
  unfolding civil_from_days_def scaled_def year_start_def month_of_def Let_def by (rule refl)

lemma civil_parts:
  obtains era y doy mp where "z = era * 146097 + year_start y + doy - 719468"
    and "era = (z + 719468) div 146097" and "0 \<le> y" and "y < 400" and "0 \<le> doy" and "doy \<le> 365" and "mp = (5 * doy + 2) div 153"
    and "civil_from_days z = (y + era * 400 + (if month_of mp \<le> 2 then 1 else 0), month_of mp, doy - (153 * mp + 2) div 5 + 1)"
proof -
  define era doe where "era = (z + 719468) div 146097" and "doe = (z + 719468) mod 146097"
  have z: "z = era * 146097 + doe - 719468" unfolding era_def doe_def by (simp add: algebra_simps)
  have doe: "0 \<le> doe" "doe < 146097" by (simp_all add: doe_def)
  define y where "y = scaled doe div 365"
  note b = year_of_day[OF doe, folded y_def]
  define doy where "doy = doe - year_start y"
  have c: "civil_from_days z = (y + era * 400 + (if month_of ((5 * doy + 2) div 153) \<le> 2 then 1 else 0),
      month_of ((5 * doy + 2) div 153), doy - (153 * ((5 * doy + 2) div 153) + 2) div 5 + 1)"
    unfolding civil_form Let_def doy_def y_def era_def doe_def by (rule refl)
  have zd: "z = era * 146097 + year_start y + doy - 719468" and dd: "0 \<le> doy" "doy \<le> 365"
    using z b by (simp_all add: doy_def)
  show ?thesis by (rule that[OF zd era_def b(1,2) dd refl c])
qed

lemma month_of_inj:
  assumes "month_of mp = month_of mp'" and "0 \<le> mp" and "mp < 12" and "0 \<le> mp'" and "mp' < 12"
  shows "mp = mp'"
  using assms by (auto simp: month_of_def split: if_splits)

lemma month_range: "0 \<le> doy \<Longrightarrow> doy \<le> 365 \<Longrightarrow> 0 \<le> (5 * doy + 2) div 153 \<and> (5 * doy + 2) div 153 < (12 :: int)"
  by linarith

lemma civil_inj:
  assumes "civil_from_days z = civil_from_days z'"
  shows "z = z'"
proof -
  obtain era y doy mp where z: "z = era * 146097 + year_start y + doy - 719468" and y: "0 \<le> y" "y < 400"
    and d: "0 \<le> doy" "doy \<le> 365" and mp: "mp = (5 * doy + 2) div 153"
    and c: "civil_from_days z = (y + era * 400 + (if month_of mp \<le> 2 then 1 else 0), month_of mp, doy - (153 * mp + 2) div 5 + 1)"
    by (rule civil_parts)
  obtain era' y' doy' mp' where z': "z' = era' * 146097 + year_start y' + doy' - 719468" and y': "0 \<le> y'" "y' < 400"
    and d': "0 \<le> doy'" "doy' \<le> 365" and mp': "mp' = (5 * doy' + 2) div 153"
    and c': "civil_from_days z' = (y' + era' * 400 + (if month_of mp' \<le> 2 then 1 else 0), month_of mp', doy' - (153 * mp' + 2) div 5 + 1)"
    by (rule civil_parts)
  have eqs: "month_of mp = month_of mp'" "doy - (153 * mp + 2) div 5 + 1 = doy' - (153 * mp' + 2) div 5 + 1"
    "y + era * 400 + (if month_of mp \<le> 2 then 1 else 0) = y' + era' * 400 + (if month_of mp' \<le> 2 then 1 else 0)"
    using assms unfolding c c' prod.inject by blast+
  have m: "mp = mp'"
    using month_of_inj[OF eqs(1)] month_range[OF d] month_range[OF d'] unfolding mp mp' by blast
  have "doy = doy'" "y + era * 400 = y' + era' * 400" using eqs(2,3) unfolding m by simp_all
  moreover have "(y + era * 400) div 400 = era" by (rule div_between) (use y in \<open>simp_all add: algebra_simps\<close>)
  moreover have "(y' + era' * 400) div 400 = era'" by (rule div_between) (use y' in \<open>simp_all add: algebra_simps\<close>)
  ultimately have "doy = doy' \<and> era = era' \<and> y = y'" by simp
  then show ?thesis using z z' by simp
qed

text \<open>From the year 0 on, year, month and day are natural numbers.\<close>

definition year_zero :: int where
  "year_zero = - 719468"

lemma civil_nonneg:
  assumes "year_zero \<le> z" and "civil_from_days z = (y, m, d)"
  shows "0 \<le> y" and "0 \<le> m" and "0 \<le> d"
proof -
  obtain era y0 doy mp where era: "era = (z + 719468) div 146097" and y0: "0 \<le> y0"
    and doy: "0 \<le> doy" "doy \<le> 365" and mp: "mp = (5 * doy + 2) div 153"
    and c: "civil_from_days z = (y0 + era * 400 + (if month_of mp \<le> 2 then 1 else 0), month_of mp, doy - (153 * mp + 2) div 5 + 1)"
    by (rule civil_parts)
  have eqs: "y = y0 + era * 400 + (if month_of mp \<le> 2 then 1 else 0)" "m = month_of mp" "d = doy - (153 * mp + 2) div 5 + 1"
    using assms(2) unfolding c prod.inject by blast+
  have "0 \<le> era" using assms(1) unfolding era year_zero_def by simp
  then show "0 \<le> y" using eqs(1) y0 by simp
  show "0 \<le> m" using eqs(2) month_range[OF doy] by (simp add: month_of_def mp[symmetric])
  have "(153 * mp + 2) div 5 \<le> (5 * doy + 4) div 5" by (rule zdiv_mono1) (simp_all add: mp)
  also have "(5 * doy + 4) div 5 = doy" by simp
  finally show "0 \<le> d" using eqs(3) by simp
qed

lemma digits_value_pad: "digits_value (replicate k 48 @ ds) = digits_value ds"
proof (induction ds rule: rev_induct)
  case Nil
  show ?case by (induction k) (simp_all add: digits_value_def)
next
  case (snoc d ds)
  then show ?case by (simp add: digits_value_snoc flip: append_assoc)
qed

lemma zero_pad_value [simp]: "digits_value (zero_pad w n) = n"
  by (simp add: zero_pad_def digits_value_pad)

lemma zero_pad_digits: "c \<in> set (zero_pad w n) \<Longrightarrow> is_digit c"
  using nat_digits_range by (auto simp: zero_pad_def is_digit_def split: if_splits)

lemma split_at_dash:
  assumes "zero_pad w m @ lit ''-'' @ xs = zero_pad w' n @ lit ''-'' @ ys"
  shows "m = n \<and> xs = ys"
proof -
  have no: "c \<noteq> 45" if "c \<in> set (zero_pad v k)" for c v k using zero_pad_digits[OF that] by (auto simp: is_digit_def)
  have dash: "lit ''-'' = [45]" by (simp add: lit_def of_char_def)
  have tw: "takeWhile (\<lambda>c. c \<noteq> 45) (zero_pad v k @ lit ''-'' @ zs) = zero_pad v k" for v k zs
    using no by (simp add: dash takeWhile_append2)
  have "zero_pad w m = zero_pad w' n" using arg_cong[OF assms, of "takeWhile (\<lambda>c. c \<noteq> 45)"] unfolding tw .
  then have "m = n" by (metis zero_pad_value)
  with assms \<open>zero_pad w m = zero_pad w' n\<close> show ?thesis by simp
qed

lemma date_str_inj:
  assumes "year_zero \<le> s div days 1" and "year_zero \<le> t div days 1"
  shows "date_str s = date_str t \<longleftrightarrow> s div days 1 = t div days 1"
proof
  assume eq: "date_str s = date_str t"
  obtain y m d where c: "civil_from_days (s div days 1) = (y, m, d)" by (cases "civil_from_days (s div days 1)")
  obtain y' m' d' where c': "civil_from_days (t div days 1) = (y', m', d')" by (cases "civil_from_days (t div days 1)")
  note e1 = split_at_dash[OF eq[unfolded date_str_def c c' prod.case]]
  note e2 = split_at_dash[OF e1[THEN conjunct2]]
  have "nat d = nat d'" using e2[THEN conjunct2] zero_pad_value by metis
  then have "civil_from_days (s div days 1) = civil_from_days (t div days 1)"
    using e1 e2 civil_nonneg[OF assms(1) c] civil_nonneg[OF assms(2) c'] by (simp add: c c' eq_nat_nat_iff)
  then show "s div days 1 = t div days 1" by (rule civil_inj)
qed (simp add: date_str_def)

end
