(* ===== verification/Api_Analytics.thy ===== *)
theory Api_Analytics
  imports Api_Inbox Calendar
begin

text \<open>
  The HTTP API (\<open>services/api/main.py\<close>), third part: \<open>GET /tenants/{id}/analytics\<close>. The loops over
  threads and turns are folds of one accumulator, as in the code. Response times and the handoff
  rate are rationals where Python computes a float: a time difference is a whole number of
  microseconds, the quotient of two counts is exact here.
\<close>

record tally =
  ta_daily_buyer :: "nat dict"
  ta_daily_agent :: "nat dict"
  ta_buyer :: nat
  ta_agent :: nat
  ta_handoff :: nat
  ta_human :: nat
  ta_keywords :: "nat dict"
  ta_seconds :: "rat list"
  ta_unique :: "pystr set"

definition no_tally :: tally where
  "no_tally = \<lparr>ta_daily_buyer = [], ta_daily_agent = [], ta_buyer = 0, ta_agent = 0, ta_handoff = 0, ta_human = 0,
     ta_keywords = [], ta_seconds = [], ta_unique = {}\<rparr>"

text \<open>\<open>d[k] = d.get(k, 0) + 1\<close>.\<close>

definition count_key :: "nat dict \<Rightarrow> pystr \<Rightarrow> nat dict" where
  "count_key d k = dset d k (dget_or d k 0 + 1)"

definition total_seconds :: "int \<Rightarrow> rat" where
  "total_seconds us = of_int us / of_int second"

definition count_buyer :: "pystr \<Rightarrow> tally \<Rightarrow> tally" where
  "count_buyer day c = c\<lparr>ta_buyer := ta_buyer c + 1, ta_daily_buyer := count_key (ta_daily_buyer c) day\<rparr>"

definition count_handoff :: "interaction \<Rightarrow> tally \<Rightarrow> tally" where
  "count_handoff i c =
     (if dget (bi_metadata i) (lit ''handoff'') = Some (lit ''true'')
      then (let c = c\<lparr>ta_handoff := ta_handoff c + 1\<rparr>
            in case nonempty (dget (bi_metadata i) (lit ''handoff_keyword'')) of
                 None \<Rightarrow> c
               | Some kw \<Rightarrow> c\<lparr>ta_keywords := count_key (ta_keywords c) kw\<rparr>)
      else c)"

definition count_human :: "interaction \<Rightarrow> tally \<Rightarrow> tally" where
  "count_human i c =
     (if dget (bi_metadata i) (lit ''human'') = Some (lit ''true'') then c\<lparr>ta_human := ta_human c + 1\<rparr> else c)"

definition count_agent :: "pystr \<Rightarrow> interaction \<Rightarrow> tally \<Rightarrow> tally" where
  "count_agent day i c =
     count_human i (count_handoff i (c\<lparr>ta_agent := ta_agent c + 1, ta_daily_agent := count_key (ta_daily_agent c) day\<rparr>))"

text \<open>One turn of a thread; the second component is \<open>last_buyer_at\<close>.\<close>

definition count_turn :: "time \<Rightarrow> pystr \<Rightarrow> tally \<times> time option \<Rightarrow> interaction \<Rightarrow> tally \<times> time option" where
  "count_turn since bid s i =
     (case s of (c, last_buyer_at) \<Rightarrow>
        if bi_at i < since then (c, last_buyer_at)
        else (let c = c\<lparr>ta_unique := insert bid (ta_unique c)\<rparr>;
                  day = date_str (bi_at i)
              in if bi_role i = Buyer then (count_buyer day c, Some (bi_at i))
                 else (let c = count_agent day i c
                       in case last_buyer_at of
                            None \<Rightarrow> (c, None)
                          | Some b \<Rightarrow> (c\<lparr>ta_seconds := ta_seconds c @ [total_seconds (bi_at i - b)]\<rparr>, None))))"

definition count_thread :: "time \<Rightarrow> memory \<Rightarrow> tally \<Rightarrow> thread_summary \<Rightarrow> tally" where
  "count_thread since m c s =
     fst (foldl (count_turn since (ts_buyer_id s)) (c, None) (recall m (ts_buyer_id s) None))"

definition count_threads :: "time \<Rightarrow> memory \<Rightarrow> thread_summary list \<Rightarrow> tally" where
  "count_threads since m ts = foldl (count_thread since m) no_tally ts"

definition median :: "rat list \<Rightarrow> rat option" where
  "median values =
     (if values = [] then None
      else (let sorted_v = sort values; mid = length sorted_v div 2
            in if length sorted_v mod 2 = 1 then Some (sorted_v ! mid)
               else Some ((sorted_v ! (mid - 1) + sorted_v ! mid) / 2)))"

record daily_bucket =
  db_date :: pystr
  db_buyer :: nat
  db_agent :: nat

record analytics =
  an_window_days :: int
  an_window_start :: pystr
  an_window_end :: pystr
  an_total :: nat
  an_buyer :: nat
  an_agent :: nat
  an_unique :: nat
  an_handoff :: nat
  an_handoff_rate :: rat
  an_human :: nat
  an_median :: "rat option"
  an_daily :: "daily_bucket list"
  an_keywords :: "(pystr \<times> nat) list"

definition max_days :: int where
  "max_days = 365"

definition daily_series :: "tally \<Rightarrow> time \<Rightarrow> int \<Rightarrow> daily_bucket list" where
  "daily_series c since n =
     map (\<lambda>i. let d = date_str (since + days (int i))
              in \<lparr>db_date = d, db_buyer = dget_or (ta_daily_buyer c) d 0, db_agent = dget_or (ta_daily_agent c) d 0\<rparr>)
       [0..<nat n]"

definition analytics_of :: "tenant \<Rightarrow> memory \<Rightarrow> time \<Rightarrow> int \<Rightarrow> analytics" where
  "analytics_of t m now n =
     (let since = now - days n;
          c = count_threads since m (list_threads m (Some (thread_prefix t)) 100)
      in \<lparr>an_window_days = n, an_window_start = isoformat since, an_window_end = isoformat now,
          an_total = ta_buyer c + ta_agent c, an_buyer = ta_buyer c, an_agent = ta_agent c,
          an_unique = card (ta_unique c), an_handoff = ta_handoff c,
          an_handoff_rate = (if ta_agent c > 0 then of_nat (ta_handoff c) / of_nat (ta_agent c) else 0),
          an_human = ta_human c, an_median = median (ta_seconds c), an_daily = daily_series c since n,
          an_keywords = slice_to (sort_desc snd (ta_keywords c)) 5\<rparr>)"

definition get_analytics :: "pystr \<Rightarrow> int \<Rightarrow> request \<Rightarrow> app \<Rightarrow> analytics handled" where
  "get_analytics tid n q a =
     then_do (assert_tenant_access q a tid) (\<lambda>a _.
     then_do (load_tenant tid a) (\<lambda>a t.
       if n \<le> 0 \<or> n > max_days then (a, Inl (HTTPException 422 (lit ''days must be between 1 and 365'')))
       else (a, Inr (analytics_of t (a_memory a) (rq_now q) n))))"

section \<open>What is counted\<close>

text \<open>The turns of a thread inside the window, and a buyer turn followed at once by an agent turn.\<close>

definition in_window :: "time \<Rightarrow> memory \<Rightarrow> thread_summary \<Rightarrow> interaction list" where
  "in_window since m s = filter (\<lambda>i. \<not> bi_at i < since) (recall m (ts_buyer_id s) None)"

definition answers :: "interaction list \<Rightarrow> rat list" where
  "answers js = map (\<lambda>(x, y). total_seconds (bi_at y - bi_at x))
     (filter (\<lambda>(x, y). bi_role x = Buyer \<and> bi_role y = Agent) (zip js (tl js)))"

definition handed_off :: "interaction \<Rightarrow> bool" where
  "handed_off i \<longleftrightarrow> bi_role i = Agent \<and> dget (bi_metadata i) (lit ''handoff'') = Some (lit ''true'')"

definition by_human :: "interaction \<Rightarrow> bool" where
  "by_human i \<longleftrightarrow> bi_role i = Agent \<and> dget (bi_metadata i) (lit ''human'') = Some (lit ''true'')"

definition count_of :: "('a \<Rightarrow> bool) \<Rightarrow> 'a list \<Rightarrow> nat" where
  "count_of P xs = length (filter P xs)"

lemma count_of_simps [simp]: "count_of P [] = 0" "count_of P (x # xs) = (if P x then 1 else 0) + count_of P xs"
  "count_of P (xs @ ys) = count_of P xs + count_of P ys"
  by (simp_all add: count_of_def)

lemma dget_or_count_key [simp]: "dget_or (count_key d k) k' 0 = dget_or d k' 0 + (if k = k' then 1 else 0)"
  by (simp add: count_key_def dget_or_def dget_dset)

text \<open>The last turn of the window seen so far decides what \<open>last_buyer_at\<close> holds.\<close>

definition pending :: "interaction list \<Rightarrow> time option" where
  "pending js = (if js \<noteq> [] \<and> bi_role (last js) = Buyer then Some (bi_at (last js)) else None)"

lemma zip_tl_snoc: "zip (a # xs @ [j]) (xs @ [j]) = zip (a # xs) xs @ [(last (a # xs), j)]"
  by (induction xs arbitrary: a) simp_all

lemma answers_snoc:
  "answers (js @ [j]) = answers js @ (if bi_role j = Agent then (case pending js of None \<Rightarrow> [] | Some b \<Rightarrow> [total_seconds (bi_at j - b)]) else [])"
proof (cases js)
  case Nil
  then show ?thesis by (simp add: answers_def pending_def)
next
  case (Cons a xs)
  have "zip (js @ [j]) (tl (js @ [j])) = zip js (tl js) @ [(last js, j)]"
    using zip_tl_snoc[of a xs j] Cons by simp
  then show ?thesis using Cons by (simp add: answers_def pending_def)
qed

text \<open>What a tally says of the turns counted so far.\<close>

definition counts :: "tally \<Rightarrow> interaction list \<Rightarrow> rat list \<Rightarrow> pystr set \<Rightarrow> bool" where
  "counts c js rs U \<longleftrightarrow>
     ta_buyer c = count_of (\<lambda>i. bi_role i = Buyer) js \<and> ta_agent c = count_of (\<lambda>i. bi_role i = Agent) js \<and>
     ta_handoff c = count_of handed_off js \<and> ta_human c = count_of by_human js \<and>
     (\<forall>d. dget_or (ta_daily_buyer c) d 0 = count_of (\<lambda>i. bi_role i = Buyer \<and> date_str (bi_at i) = d) js) \<and>
     (\<forall>d. dget_or (ta_daily_agent c) d 0 = count_of (\<lambda>i. bi_role i = Agent \<and> date_str (bi_at i) = d) js) \<and>
     (\<forall>k. dget_or (ta_keywords c) k 0 = count_of (\<lambda>i. handed_off i \<and> nonempty (dget (bi_metadata i) (lit ''handoff_keyword'')) = Some k) js) \<and>
     dict_ok (ta_keywords c) \<and> ta_seconds c = rs \<and> ta_unique c = U"

lemma role_cases: "bi_role i \<noteq> Buyer \<longleftrightarrow> bi_role i = Agent"
  by (cases "bi_role i") simp_all

lemma counts_buyer:
  assumes "counts c js rs U" and "bi_role i = Buyer"
  shows "counts (count_buyer (date_str (bi_at i)) (c\<lparr>ta_unique := V\<rparr>)) (js @ [i]) rs V"
  using assms by (simp add: counts_def count_buyer_def handed_off_def by_human_def)

lemma counts_agent:
  assumes "counts c js rs U" and "bi_role i = Agent"
  shows "counts (count_agent (date_str (bi_at i)) i (c\<lparr>ta_unique := V\<rparr>)) (js @ [i]) rs V"
  using assms
  by (auto simp: counts_def count_agent_def count_human_def count_handoff_def handed_off_def by_human_def Let_def
      count_key_def dict_ok_dset dget_or_def split: option.splits)

lemma counts_answered: "counts c js rs U \<Longrightarrow> counts (c\<lparr>ta_seconds := ta_seconds c @ xs\<rparr>) js (rs @ xs) U"
  by (simp add: counts_def)

text \<open>One thread: its turns in the window, from a tally with no buyer turn pending.\<close>

lemma count_turn_outside: "bi_at i < since \<Longrightarrow> count_turn since bid s i = s"
  by (simp add: count_turn_def split: prod.split)

lemma count_turn_buyer:
  "\<not> bi_at i < since \<Longrightarrow> bi_role i = Buyer \<Longrightarrow> count_turn since bid (c, p) i =
     (count_buyer (date_str (bi_at i)) (c\<lparr>ta_unique := insert bid (ta_unique c)\<rparr>), Some (bi_at i))"
  by (simp add: count_turn_def Let_def)

lemma count_turn_agent:
  "\<not> bi_at i < since \<Longrightarrow> bi_role i = Agent \<Longrightarrow> count_turn since bid (c, p) i =
     (let c = count_agent (date_str (bi_at i)) i (c\<lparr>ta_unique := insert bid (ta_unique c)\<rparr>)
      in case p of None \<Rightarrow> (c, None) | Some b \<Rightarrow> (c\<lparr>ta_seconds := ta_seconds c @ [total_seconds (bi_at i - b)]\<rparr>, None))"
  by (simp add: count_turn_def Let_def)

lemma fold_in_window: "foldl (count_turn since bid) s js = foldl (count_turn since bid) s (filter (\<lambda>i. \<not> bi_at i < since) js)"
  by (induction js arbitrary: s) (simp_all add: count_turn_outside)

lemma fold_counts:
  assumes "counts c js0 rs U" and "\<forall>i \<in> set js. \<not> bi_at i < since"
  shows "counts (fst (foldl (count_turn since bid) (c, None) js)) (js0 @ js) (rs @ answers js) (if js = [] then U else insert bid U)
    \<and> snd (foldl (count_turn since bid) (c, None) js) = pending js"
  using assms(2)
proof (induction js rule: rev_induct)
  case Nil
  with assms(1) show ?case by (simp add: answers_def pending_def)
next
  case (snoc i js)
  obtain c1 p where f: "foldl (count_turn since bid) (c, None) js = (c1, p)" by (cases "foldl (count_turn since bid) (c, None) js")
  with snoc have c1: "counts c1 (js0 @ js) (rs @ answers js) (if js = [] then U else insert bid U)" and p: "p = pending js" by simp_all
  have U: "insert bid (ta_unique c1) = insert bid U" using c1 by (auto simp: counts_def)
  show ?case
  proof (cases "bi_role i")
    case Buyer
    then show ?thesis using snoc.prems counts_buyer[OF c1 Buyer, of "insert bid U"]
      by (simp add: f count_turn_buyer U answers_snoc pending_def)
  next
    case Agent
    note step = counts_agent[OF c1 Agent, of "insert bid U"]
    have last: "pending (js @ [i]) = None" using Agent by (simp add: pending_def)
    show ?thesis using snoc.prems Agent step counts_answered[OF step]
      by (cases p) (simp_all add: f count_turn_agent Let_def U answers_snoc last flip: p)
  qed
qed

definition window_turns :: "time \<Rightarrow> memory \<Rightarrow> thread_summary list \<Rightarrow> interaction list" where
  "window_turns since m ts = concat (map (in_window since m) ts)"

definition active_threads :: "time \<Rightarrow> memory \<Rightarrow> thread_summary list \<Rightarrow> thread_summary list" where
  "active_threads since m ts = filter (\<lambda>s. in_window since m s \<noteq> []) ts"

lemma counts_none: "counts no_tally [] [] {}"
  by (simp add: counts_def no_tally_def dget_or_def dget_def dict_ok_def)

lemma count_thread_counts:
  assumes "counts c js rs U"
  shows "counts (count_thread since m c s) (js @ in_window since m s) (rs @ answers (in_window since m s))
    (if in_window since m s = [] then U else insert (ts_buyer_id s) U)"
  using fold_counts[OF assms, of "in_window since m s" since "ts_buyer_id s"]
  by (simp add: count_thread_def in_window_def flip: fold_in_window)

lemma count_threads_counts:
  "counts (count_threads since m ts) (window_turns since m ts) (concat (map (answers \<circ> in_window since m) ts))
     (ts_buyer_id ` set (active_threads since m ts))"
proof (induction ts rule: rev_induct)
  case Nil
  show ?case by (simp add: count_threads_def window_turns_def active_threads_def counts_none)
next
  case (snoc s ts)
  from count_thread_counts[OF snoc, of since m s] show ?case
    by (simp add: count_threads_def window_turns_def active_threads_def split: if_splits)
qed

section \<open>The figures of a window\<close>

lemma distinct_map_filter: "distinct (map fst d) \<Longrightarrow> (\<And>p x. f p = Some x \<Longrightarrow> g x = fst p) \<Longrightarrow> distinct (map g (List.map_filter f d))"
proof (induction d)
  case (Cons p d)
  have "g ` set (List.map_filter f d) \<subseteq> fst ` set d" using Cons.prems(2) by (force simp: set_map_filter)
  then show ?case using Cons by (auto simp: List.map_filter_def split: option.splits)
qed (simp add: List.map_filter_def)

lemma list_threads_distinct:
  assumes "dict_ok (mem_store m)"
  shows "distinct (map ts_buyer_id (list_threads m prefix lmt))"
proof -
  have rev_sort: "distinct (map f (sort_desc g xs)) = distinct (map f xs)" for f :: "thread_summary \<Rightarrow> pystr" and g :: "thread_summary \<Rightarrow> time" and xs
    by (simp add: sort_desc_def rev_map[symmetric] distinct_map)
  have take: "distinct (map f xs) \<Longrightarrow> distinct (map f (slice_to xs n))" for f :: "thread_summary \<Rightarrow> pystr" and xs n
    by (simp add: slice_to_def take_map[symmetric])
  show ?thesis using assms unfolding list_threads_def Let_def dict_ok_def
    by (intro take) (simp add: rev_sort, rule distinct_map_filter, auto split: if_splits)
qed

lemma distinct_map_filter_self: "distinct (map f xs) \<Longrightarrow> distinct (map f (filter P xs))"
  by (induction xs) auto

lemma unique_count:
  assumes "dict_ok (mem_store m)"
  shows "card (ts_buyer_id ` set (active_threads since m (list_threads m p n))) = length (active_threads since m (list_threads m p n))"
proof -
  define ts where "ts = active_threads since m (list_threads m p n)"
  have "distinct (map ts_buyer_id ts)"
    using list_threads_distinct[OF assms, of p n] by (simp add: ts_def active_threads_def distinct_map_filter_self)
  then have "card (ts_buyer_id ` set ts) = length ts" by (metis distinct_card length_map set_map)
  then show ?thesis by (simp add: ts_def)
qed

text \<open>Half of the values lie on each side of the median.\<close>

lemma sorted_low: "sorted xs \<Longrightarrow> i < length xs \<Longrightarrow> i + 1 \<le> count_of (\<lambda>x. x \<le> xs ! i) (xs :: rat list)"
proof -
  assume s: "sorted xs" and i: "i < length xs"
  have "\<forall>x \<in> set (take (i + 1) xs). x \<le> xs ! i" using s i by (auto simp: in_set_conv_nth sorted_nth_mono)
  then have "count_of (\<lambda>x. x \<le> xs ! i) (take (i + 1) xs) = i + 1" using i by (simp add: count_of_def)
  moreover have "count_of P xs = count_of P (take (i + 1) xs) + count_of P (drop (i + 1) xs)" for P
    by (metis append_take_drop_id count_of_simps(3))
  ultimately show ?thesis by simp
qed

lemma sorted_high: "sorted xs \<Longrightarrow> i < length xs \<Longrightarrow> length xs - i \<le> count_of (\<lambda>x. xs ! i \<le> x) (xs :: rat list)"
proof -
  assume s: "sorted xs" and i: "i < length xs"
  have "\<forall>x \<in> set (drop i xs). xs ! i \<le> x" using s i by (auto simp: in_set_conv_nth sorted_nth_mono)
  then have "count_of (\<lambda>x. xs ! i \<le> x) (drop i xs) = length xs - i" by (simp add: count_of_def)
  moreover have "count_of P xs = count_of P (take i xs) + count_of P (drop i xs)" for P
    by (metis append_take_drop_id count_of_simps(3))
  ultimately show ?thesis by simp
qed

lemma count_of_sort: "count_of P (sort xs) = count_of P xs"
  by (simp add: count_of_def filter_sort)

lemma count_of_mono: "(\<And>x. P x \<Longrightarrow> Q x) \<Longrightarrow> count_of P xs \<le> count_of Q xs"
  by (induction xs) auto

lemma median_halves:
  assumes "median values = Some m"
  shows "length values \<le> 2 * count_of (\<lambda>x. x \<le> m) values" and "length values \<le> 2 * count_of (\<lambda>x. m \<le> x) values"
proof -
  define xs where "xs = sort values"
  have s: "sorted xs" and n: "length xs = length values" and c: "count_of P xs = count_of P values" for P
    by (simp_all add: xs_def count_of_sort)
  define h where "h = length xs div 2"
  have ne: "0 < length xs" using assms n by (auto simp: median_def)
  show "length values \<le> 2 * count_of (\<lambda>x. x \<le> m) values" and "length values \<le> 2 * count_of (\<lambda>x. m \<le> x) values"
  proof (atomize (full), cases "odd (length xs)")
    case True
    then have m: "m = xs ! h" using assms by (simp add: median_def Let_def xs_def h_def odd_iff_mod_2_eq_one split: if_splits)
    have "h < length xs" using ne by (simp add: h_def)
    from sorted_low[OF s this] sorted_high[OF s this] True
    show "length values \<le> 2 * count_of (\<lambda>x. x \<le> m) values \<and> length values \<le> 2 * count_of (\<lambda>x. m \<le> x) values"
      unfolding m c n[symmetric] by (simp add: h_def) presburger
  next
    case False
    then have m: "m = (xs ! (h - 1) + xs ! h) / 2" using assms by (simp add: median_def Let_def xs_def h_def odd_iff_mod_2_eq_one split: if_splits)
    have "length xs = 2 * h" using False by (simp add: h_def)
    then have h: "0 < h" "h < length xs" "length xs = 2 * h" using ne by linarith+
    have "xs ! (h - 1) \<le> xs ! h" using s h by (intro sorted_nth_mono) simp_all
    then have b: "xs ! (h - 1) \<le> m" "m \<le> xs ! h" by (simp_all add: m)
    have "h - 1 + 1 \<le> count_of (\<lambda>x. x \<le> xs ! (h - 1)) xs" using sorted_low[OF s, of "h - 1"] h by simp
    also have "\<dots> \<le> count_of (\<lambda>x. x \<le> m) xs" using b by (intro count_of_mono) simp
    finally have low: "h \<le> count_of (\<lambda>x. x \<le> m) xs" using h by simp
    have "length xs - h \<le> count_of (\<lambda>x. xs ! h \<le> x) xs" using sorted_high[OF s, of h] h by simp
    also have "\<dots> \<le> count_of (\<lambda>x. m \<le> x) xs" using b by (intro count_of_mono) simp
    finally show "length values \<le> 2 * count_of (\<lambda>x. x \<le> m) values \<and> length values \<le> 2 * count_of (\<lambda>x. m \<le> x) values"
      using low h unfolding c n[symmetric] by simp
  qed
qed

text \<open>The daily series: one bucket per day, the last one for the day before \<open>now\<close>.\<close>

definition day_of :: "time \<Rightarrow> int" where
  "day_of t = t div days 1"

lemma day_shift: "day_of (t - days k) = day_of t - k" "day_of (t + days k) = day_of t + k"
proof -
  have "days 1 \<noteq> 0" by (simp add: days_def second_def)
  then have shift: "(t + j * days 1) div days 1 = t div days 1 + j" for j by simp
  have "t - days k = t + (- k) * days 1" "t + days k = t + k * days 1" by (simp_all add: days_def)
  then show "day_of (t - days k) = day_of t - k" "day_of (t + days k) = day_of t + k"
    using shift[of "- k"] shift[of k] by (simp_all add: day_of_def)
qed

lemma count_of_days:
  "count_of (\<lambda>i. P i \<and> d0 \<le> f i \<and> f i < d0 + int (Suc n)) xs =
     count_of (\<lambda>i. P i \<and> d0 \<le> f i \<and> f i < d0 + int n) xs + count_of (\<lambda>i. P i \<and> f i = d0 + int n) xs"
  by (induction xs) auto

lemma sum_of_days:
  "(\<Sum>k \<leftarrow> [0..<n]. count_of (\<lambda>i. P i \<and> f i = d0 + int k) xs) = count_of (\<lambda>i. P i \<and> d0 \<le> f i \<and> f i < d0 + int n) xs"
proof (induction n)
  case 0
  have "count_of (\<lambda>i. P i \<and> d0 \<le> f i \<and> f i < d0) xs = 0" by (simp add: count_of_def)
  then show ?case by simp
next
  case (Suc n)
  then show ?case by (simp only: count_of_days upt_Suc_append sum_list_append map_append) simp
qed

lemma count_of_cong: "(\<And>x. x \<in> set xs \<Longrightarrow> P x = Q x) \<Longrightarrow> count_of P xs = count_of Q xs"
  unfolding count_of_def by (rule arg_cong[of _ _ length], rule filter_cong) simp_all

lemma window_since: "i \<in> set (window_turns since m ts) \<Longrightarrow> since \<le> bi_at i"
  by (auto simp: window_turns_def in_window_def)

lemma days_total:
  assumes n: "0 \<le> n" and y: "year_zero \<le> day_of (now - days n)" and w: "\<And>i. i \<in> set turns \<Longrightarrow> now - days n \<le> bi_at i"
  shows "(\<Sum>k \<leftarrow> [0..<nat n]. count_of (\<lambda>i. P i \<and> date_str (bi_at i) = date_str (now - days n + days (int k))) turns)
    = count_of (\<lambda>i. P i \<and> day_of (bi_at i) < day_of now) turns"
proof -
  define d0 where "d0 = day_of (now - days n)"
  have pos: "0 < days 1" by (simp add: days_def second_def)
  have day: "d0 \<le> day_of (bi_at i)" if "i \<in> set turns" for i
    using w[OF that] pos by (simp add: d0_def day_of_def zdiv_mono1)
  have "date_str (bi_at i) = date_str (now - days n + days (int k)) \<longleftrightarrow> day_of (bi_at i) = d0 + int k" if "i \<in> set turns" for i k
    using date_str_inj[of "bi_at i" "now - days n + days (int k)"] day[OF that] y day_shift(2)[of "now - days n" "int k"]
    by (simp add: d0_def day_of_def)
  then have "(\<Sum>k \<leftarrow> [0..<nat n]. count_of (\<lambda>i. P i \<and> date_str (bi_at i) = date_str (now - days n + days (int k))) turns)
      = (\<Sum>k \<leftarrow> [0..<nat n]. count_of (\<lambda>i. P i \<and> day_of (bi_at i) = d0 + int k) turns)"
    by (intro arg_cong[of _ _ sum_list] map_cong refl count_of_cong) simp
  also have "\<dots> = count_of (\<lambda>i. P i \<and> d0 \<le> day_of (bi_at i) \<and> day_of (bi_at i) < d0 + int (nat n)) turns"
    by (rule sum_of_days)
  also have "d0 + int (nat n) = day_of now" using n by (simp add: d0_def day_shift)
  finally show ?thesis using day by (simp add: count_of_cong[of turns "\<lambda>i. P i \<and> d0 \<le> day_of (bi_at i) \<and> day_of (bi_at i) < day_of now"] cong: conj_cong)
qed

lemma buyer_or_agent: "count_of (\<lambda>i. bi_role i = Buyer) js + count_of (\<lambda>i. bi_role i = Agent) js = length js"
  by (induction js) (auto simp: role_cases)

lemma analytics_totals:
  fixes m now n t
  defines "since \<equiv> now - days n"
  defines "ts \<equiv> list_threads m (Some (thread_prefix t)) 100"
  defines "js \<equiv> window_turns since m ts"
  shows "an_buyer (analytics_of t m now n) = count_of (\<lambda>i. bi_role i = Buyer) js"
    and "an_agent (analytics_of t m now n) = count_of (\<lambda>i. bi_role i = Agent) js"
    and "an_total (analytics_of t m now n) = length js"
    and "an_handoff (analytics_of t m now n) = count_of handed_off js"
    and "an_human (analytics_of t m now n) = count_of by_human js"
    and "an_median (analytics_of t m now n) = median (concat (map (answers \<circ> in_window since m) ts))"
    and "an_daily (analytics_of t m now n) =
      map (\<lambda>k. let d = date_str (since + days (int k)) in
        \<lparr>db_date = d, db_buyer = count_of (\<lambda>i. bi_role i = Buyer \<and> date_str (bi_at i) = d) js,
         db_agent = count_of (\<lambda>i. bi_role i = Agent \<and> date_str (bi_at i) = d) js\<rparr>) [0..<nat n]"
    and "(k, c) \<in> set (an_keywords (analytics_of t m now n)) \<Longrightarrow>
      c = count_of (\<lambda>i. handed_off i \<and> nonempty (dget (bi_metadata i) (lit ''handoff_keyword'')) = Some k) js"
    and "length (an_keywords (analytics_of t m now n)) \<le> 5"
    and "dict_ok (mem_store m) \<Longrightarrow> an_unique (analytics_of t m now n) = length (active_threads since m ts)"
proof -
  note c = count_threads_counts[of since m ts, folded js_def, unfolded counts_def]
  show "an_buyer (analytics_of t m now n) = count_of (\<lambda>i. bi_role i = Buyer) js"
    and "an_agent (analytics_of t m now n) = count_of (\<lambda>i. bi_role i = Agent) js"
    and "an_handoff (analytics_of t m now n) = count_of handed_off js"
    and "an_human (analytics_of t m now n) = count_of by_human js"
    and "an_median (analytics_of t m now n) = median (concat (map (answers \<circ> in_window since m) ts))"
    using c by (simp_all add: analytics_of_def Let_def since_def ts_def)
  show "an_total (analytics_of t m now n) = length js"
    using c buyer_or_agent[of js] by (simp add: analytics_of_def Let_def since_def ts_def)
  show "an_daily (analytics_of t m now n) =
      map (\<lambda>k. let d = date_str (since + days (int k)) in
        \<lparr>db_date = d, db_buyer = count_of (\<lambda>i. bi_role i = Buyer \<and> date_str (bi_at i) = d) js,
         db_agent = count_of (\<lambda>i. bi_role i = Agent \<and> date_str (bi_at i) = d) js\<rparr>) [0..<nat n]"
    using c by (simp add: analytics_of_def Let_def since_def ts_def daily_series_def)
  show "length (an_keywords (analytics_of t m now n)) \<le> 5"
    by (simp add: analytics_of_def Let_def slice_to_def)
  show "an_unique (analytics_of t m now n) = length (active_threads since m ts)" if "dict_ok (mem_store m)"
    using c unique_count[OF that] by (simp add: analytics_of_def Let_def since_def ts_def)
  assume "(k, c) \<in> set (an_keywords (analytics_of t m now n))"
  then have "(k, c) \<in> set (ta_keywords (count_threads since m ts))"
    using set_slice_to_subset by (fastforce simp: analytics_of_def Let_def since_def ts_def)
  moreover have "dict_ok (ta_keywords (count_threads since m ts))" using c by blast
  ultimately have "dget (ta_keywords (count_threads since m ts)) k = Some c" by (simp add: dget_mem_iff)
  then have "dget_or (ta_keywords (count_threads since m ts)) k 0 = c" by (simp add: dget_or_def)
  then show "c = count_of (\<lambda>i. handed_off i \<and> nonempty (dget (bi_metadata i) (lit ''handoff_keyword'')) = Some k) js"
    using c by simp
qed

end
