(* ===== verification/Api_Data.thy ===== *)
theory Api_Data
  imports Api_Core Resource_Sync
begin

text \<open>
  The HTTP API (\<open>services/api/main.py\<close>), fourth part: the message templates and the data sources of
  a tenant. The HTTP client, the HTML parser and the hash of the synchroniser are arguments.
\<close>

section \<open>Templates\<close>

definition category_str :: "template_category \<Rightarrow> pystr" where
  "category_str c = (case c of UTILITY \<Rightarrow> (lit ''UTILITY'') | MARKETING \<Rightarrow> (lit ''MARKETING'') | AUTHENTICATION \<Rightarrow> (lit ''AUTHENTICATION''))"

definition template_status_str :: "template_status \<Rightarrow> pystr" where
  "template_status_str s =
     (case s of DRAFT \<Rightarrow> (lit ''DRAFT'') | SUBMITTED \<Rightarrow> (lit ''SUBMITTED'') | APPROVED \<Rightarrow> (lit ''APPROVED'') | REJECTED \<Rightarrow> (lit ''REJECTED''))"

definition time_opt :: "time option \<Rightarrow> json" where
  "time_opt t = json_opt (map_option isoformat t)"

definition template_out :: "message_template \<Rightarrow> json" where
  "template_out m =
     JObj [((lit ''id''), JStr (mt_id m)), ((lit ''tenant_id''), JStr (mt_tenant_id m)), ((lit ''name''), JStr (mt_name m)),
           ((lit ''language''), JStr (mt_language m)), ((lit ''category''), JStr (category_str (mt_category m))), ((lit ''body''), JStr (mt_body m)),
           ((lit ''status''), JStr (template_status_str (mt_status m))), ((lit ''vendor_template_id''), json_opt (mt_vendor_template_id m)),
           ((lit ''rejection_reason''), json_opt (mt_rejection_reason m)), ((lit ''created_at''), JStr (isoformat (mt_created_at m))),
           ((lit ''submitted_at''), time_opt (mt_submitted_at m)), ((lit ''approved_at''), time_opt (mt_approved_at m))]"

definition list_templates :: "pystr \<Rightarrow> request \<Rightarrow> app \<Rightarrow> json handled" where
  "list_templates tid q a =
     then_do (assert_tenant_access q a tid) (\<lambda>a _.
     then_do (load_tenant tid a) (\<lambda>a _. (a, Inr (JList (map template_out (template_list_for (a_templates a) tid))))))"

record template_create =
  tp_name :: pystr
  tp_body :: pystr
  tp_language :: pystr
  tp_category :: template_category

definition create_template :: "pystr \<Rightarrow> template_create \<Rightarrow> request \<Rightarrow> app \<Rightarrow> json handled" where
  "create_template tid r q a =
     then_do (assert_tenant_access q a tid) (\<lambda>a _.
     then_do (load_tenant tid a) (\<lambda>a _.
       case template_add (a_templates a)
              \<lparr>mt_id = rq_uids q 0, mt_tenant_id = tid, mt_name = tp_name r, mt_language = tp_language r,
               mt_category = tp_category r, mt_body = tp_body r, mt_status = DRAFT, mt_vendor_template_id = None,
               mt_rejection_reason = None, mt_created_at = rq_now q, mt_submitted_at = None, mt_approved_at = None\<rparr> of
         Inl (ValueError m) \<Rightarrow> (a, Inl (HTTPException 409 (exn_text (ValueError m))))
       | Inl e \<Rightarrow> (a, Inl e)
       | Inr (d, saved) \<Rightarrow> (a\<lparr>a_templates := d\<rparr>, Inr (template_out saved))))"

record template_patch =
  tq_name :: "pystr option"
  tq_body :: "pystr option"
  tq_language :: "pystr option"
  tq_category :: "template_category option"
  tq_status :: "template_status option"
  tq_vendor_template_id :: "pystr option"
  tq_rejection_reason :: "pystr option"

text \<open>\<open>template.model_copy(update=patch)\<close>; a field the request leaves out keeps its value.\<close>

definition keep :: "'a option \<Rightarrow> 'a \<Rightarrow> 'a" where
  "keep new old = (case new of None \<Rightarrow> old | Some x \<Rightarrow> x)"

definition patch_template :: "time \<Rightarrow> template_patch \<Rightarrow> message_template \<Rightarrow> message_template" where
  "patch_template now r m =
     m\<lparr>mt_name := keep (tq_name r) (mt_name m), mt_body := keep (tq_body r) (mt_body m),
       mt_language := keep (tq_language r) (mt_language m), mt_category := keep (tq_category r) (mt_category m),
       mt_status := keep (tq_status r) (mt_status m),
       mt_submitted_at := (if tq_status r = Some SUBMITTED \<and> mt_submitted_at m = None then Some now else mt_submitted_at m),
       mt_approved_at := (if tq_status r = Some APPROVED \<and> mt_approved_at m = None then Some now else mt_approved_at m),
       mt_vendor_template_id := (if tq_vendor_template_id r = None then mt_vendor_template_id m else tq_vendor_template_id r),
       mt_rejection_reason := (if tq_rejection_reason r = None then mt_rejection_reason m else tq_rejection_reason r)\<rparr>"

definition load_template :: "pystr \<Rightarrow> pystr \<Rightarrow> app \<Rightarrow> message_template handled" where
  "load_template tid i a =
     (case template_get (a_templates a) i of
        None \<Rightarrow> (a, Inl (HTTPException 404 (lit ''template not found'')))
      | Some m \<Rightarrow> if mt_tenant_id m \<noteq> tid then (a, Inl (HTTPException 404 (lit ''template not found''))) else (a, Inr m))"

definition update_template :: "pystr \<Rightarrow> pystr \<Rightarrow> template_patch \<Rightarrow> request \<Rightarrow> app \<Rightarrow> json handled" where
  "update_template tid i r q a =
     then_do (assert_tenant_access q a tid) (\<lambda>a _.
     then_do (load_template tid i a) (\<lambda>a m.
       case template_update (a_templates a) (patch_template (rq_now q) r m) of
         Inl e \<Rightarrow> (a, Inl e)
       | Inr (d, saved) \<Rightarrow> (a\<lparr>a_templates := d\<rparr>, Inr (template_out saved))))"

definition delete_template :: "pystr \<Rightarrow> pystr \<Rightarrow> request \<Rightarrow> app \<Rightarrow> unit handled" where
  "delete_template tid i q a =
     then_do (assert_tenant_access q a tid) (\<lambda>a _.
     then_do (load_template tid i a) (\<lambda>a _. (a\<lparr>a_templates := fst (template_delete (a_templates a) i)\<rparr>, Inr ())))"

section \<open>Data sources\<close>

definition source_out :: "data_source \<Rightarrow> json" where
  "source_out s =
     JObj [((lit ''id''), JStr (ds_id s)), ((lit ''tenant_id''), JStr (ds_tenant_id s)), ((lit ''kind''), JStr (kind_str (ds_kind s))),
           ((lit ''name''), JStr (ds_name s)), ((lit ''config''), JObj (ds_config s)), ((lit ''last_synced_at''), time_opt (ds_last_synced_at s)),
           ((lit ''last_sync_ok''), (case ds_last_sync_ok s of None \<Rightarrow> JNull | Some b \<Rightarrow> JBool b)),
           ((lit ''last_sync_count''), (case ds_last_sync_count s of None \<Rightarrow> JNull | Some n \<Rightarrow> JInt n)),
           ((lit ''last_sync_error''), json_opt (ds_last_sync_error s)), ((lit ''status''), JStr (ds_status s)),
           ((lit ''created_at''), JStr (isoformat (ds_created_at s)))]"

record source_create =
  sk_kind :: source_kind
  sk_name :: pystr
  sk_config :: "json dict"

definition create_data_source :: "pystr \<Rightarrow> source_create \<Rightarrow> request \<Rightarrow> app \<Rightarrow> json handled" where
  "create_data_source tid r q a =
     then_do (assert_tenant_access q a tid) (\<lambda>a _.
     then_do (load_tenant tid a) (\<lambda>a _.
       (let s = \<lparr>ds_id = rq_uids q 0, ds_tenant_id = tid, ds_kind = sk_kind r, ds_name = sk_name r, ds_config = sk_config r,
                 ds_last_synced_at = None, ds_last_sync_ok = None, ds_last_sync_count = None, ds_last_sync_error = None,
                 ds_status = (lit ''active''), ds_created_at = rq_now q\<rparr>
        in (a\<lparr>a_sources := src_add (a_sources a) s\<rparr>, Inr (source_out s)))))"

definition list_data_sources :: "pystr \<Rightarrow> request \<Rightarrow> app \<Rightarrow> json handled" where
  "list_data_sources tid q a =
     then_do (assert_tenant_access q a tid) (\<lambda>a _.
     then_do (load_tenant tid a) (\<lambda>a _. (a, Inr (JList (map source_out (src_list_for (a_sources a) tid))))))"

definition load_source :: "pystr \<Rightarrow> pystr \<Rightarrow> app \<Rightarrow> data_source handled" where
  "load_source tid i a =
     (case src_get (a_sources a) i of
        None \<Rightarrow> (a, Inl (HTTPException 404 (lit ''source not found'')))
      | Some s \<Rightarrow> if ds_tenant_id s \<noteq> tid then (a, Inl (HTTPException 404 (lit ''source not found''))) else (a, Inr s))"

definition delete_data_source :: "pystr \<Rightarrow> pystr \<Rightarrow> request \<Rightarrow> app \<Rightarrow> unit handled" where
  "delete_data_source tid i q a =
     then_do (assert_tenant_access q a tid) (\<lambda>a _.
     then_do (load_source tid i a) (\<lambda>a _. (a\<lparr>a_sources := src_delete (a_sources a) i\<rparr>, Inr ())))"

definition report_out :: "sync_report \<Rightarrow> json" where
  "report_out r =
     JObj [((lit ''source_id''), JStr (sr_source_id r)), ((lit ''ok''), JBool (sr_ok r)), ((lit ''item_count''), JInt (sr_item_count r)),
           ((lit ''error''), json_opt (sr_error r))]"

definition sync_data_source ::
  "http_get \<Rightarrow> 'n soup \<Rightarrow> (pystr \<Rightarrow> pystr) \<Rightarrow> pystr \<Rightarrow> pystr \<Rightarrow> request \<Rightarrow> app \<Rightarrow> json handled" where
  "sync_data_source http sp sha tid i q a =
     then_do (assert_tenant_access q a tid) (\<lambda>a _.
     then_do (load_source tid i a) (\<lambda>a _.
       case sync http sp sha (rq_uids q) (rq_now q) (a_resources a) (a_sources a) i of
         (d, ss, r) \<Rightarrow>
           (let a = a\<lparr>a_resources := d, a_sources := ss\<rparr>
            in case r of
                 Inl (KeyError m) \<Rightarrow> (a, Inl (HTTPException 404 (lit ''source not found'')))
               | Inl e \<Rightarrow> (a, Inl e)
               | Inr report \<Rightarrow> (a, Inr (report_out report)))))"

end
