(* ===== verification/Api_Crm.thy ===== *)
theory Api_Crm
  imports Api_Data Learning Crm_Extractor
begin

text \<open>
  The HTTP API (\<open>services/api/main.py\<close>), fifth part: the items of a tenant and their search, the
  learning insights, and the CRM: contacts, activities and tasks. A title that is a JSON list,
  which only a manual insert can create, is an error of \<open>patch_crm_task\<close> here; the code stores a
  slice of the list as the summary and then fails to render the response.
\<close>

section \<open>Items\<close>

definition resource_out :: "resource \<Rightarrow> json" where
  "resource_out r =
     JObj [((lit ''id''), JStr (re_id r)), ((lit ''tenant_id''), JStr (re_tenant_id r)), ((lit ''source_id''), json_opt (re_source_id r)),
           ((lit ''kind''), JStr (re_kind r)), ((lit ''external_id''), json_opt (re_external_id r)), ((lit ''data''), JObj (re_data r)),
           ((lit ''summary''), JStr (re_summary r)), ((lit ''status''), JStr (re_status r)),
           ((lit ''created_at''), JStr (isoformat (re_created_at r))), ((lit ''updated_at''), JStr (isoformat (re_updated_at r)))]"

record resource_create =
  rc_kind :: pystr
  rc_external_id :: "pystr option"
  rc_data :: "json dict"
  rc_summary :: pystr
  rc_source_id :: "pystr option"

text \<open>\<open>data.get("title") or data.get("name") or ""\<close>.\<close>

definition title_or_name :: "json dict \<Rightarrow> json" where
  "title_or_name d =
     (if truthy (jget d ''title'') then jget d ''title'' else if truthy (jget d ''name'') then jget d ''name'' else JStr [])"

definition manual_resource :: "pystr \<Rightarrow> resource_create \<Rightarrow> request \<Rightarrow> resource" where
  "manual_resource tid r q =
     \<lparr>re_id = rq_uids q 0, re_tenant_id = tid, re_source_id = rc_source_id r, re_kind = rc_kind r,
      re_external_id = rc_external_id r, re_data = rc_data r,
      re_summary = (if rc_summary r \<noteq> [] then rc_summary r else take 120 (py_str (title_or_name (rc_data r)))),
      re_status = (lit ''active''), re_created_at = rq_now q, re_updated_at = rq_now q\<rparr>"

definition create_resource :: "pystr \<Rightarrow> resource_create \<Rightarrow> request \<Rightarrow> app \<Rightarrow> json handled" where
  "create_resource tid r q a =
     then_do (assert_tenant_access q a tid) (\<lambda>a _.
     then_do (load_tenant tid a) (\<lambda>a _.
       (let x = manual_resource tid r q
        in (a\<lparr>a_resources := upsert (a_resources a) x\<rparr>, Inr (resource_out x)))))"

definition list_resources :: "pystr \<Rightarrow> pystr option \<Rightarrow> int \<Rightarrow> request \<Rightarrow> app \<Rightarrow> json handled" where
  "list_resources tid kind lmt q a =
     then_do (assert_tenant_access q a tid) (\<lambda>a _.
     then_do (load_tenant tid a) (\<lambda>a _. (a, Inr (JList (map resource_out (res_list_for (a_resources a) tid kind lmt))))))"

record search_request =
  sq_filters :: "json dict"
  sq_query :: "pystr option"
  sq_kind :: "pystr option"
  sq_limit :: int
  sq_buyer_id :: "pystr option"

definition search_resources :: "pystr \<Rightarrow> search_request \<Rightarrow> request \<Rightarrow> app \<Rightarrow> json handled" where
  "search_resources tid r q a =
     then_do (assert_tenant_access q a tid) (\<lambda>a _.
     then_do (load_tenant tid a) (\<lambda>a _.
       case res_search (a_resources a) tid (Some (sq_filters r)) (sq_query r) (sq_kind r) (sq_limit r) of
         Inl e \<Rightarrow> (a, Inl e)
       | Inr rs \<Rightarrow>
           (a\<lparr>a_query_log := fst (log_query (a_query_log a)
                \<lparr>ql_id = None, ql_tenant_id = tid, ql_buyer_id = sq_buyer_id r, ql_query_text = sq_query r,
                 ql_filters = sq_filters r, ql_result_count = int (length rs), ql_created_at = rq_now q\<rparr>)\<rparr>,
            Inr (JList (map resource_out rs)))))"

text \<open>An item the caller names by its identifier: absent, foreign and of another kind are the same 404.\<close>

definition load_item :: "(resource \<Rightarrow> bool) \<Rightarrow> pystr \<Rightarrow> pystr \<Rightarrow> pystr \<Rightarrow> app \<Rightarrow> resource handled" where
  "load_item ok missing tid i a =
     (case res_get (a_resources a) i of
        None \<Rightarrow> (a, Inl (HTTPException 404 missing))
      | Some r \<Rightarrow> if re_tenant_id r \<noteq> tid \<or> \<not> ok r then (a, Inl (HTTPException 404 missing)) else (a, Inr r))"

definition delete_resource :: "pystr \<Rightarrow> pystr \<Rightarrow> request \<Rightarrow> app \<Rightarrow> unit handled" where
  "delete_resource tid i q a =
     then_do (assert_tenant_access q a tid) (\<lambda>a _.
     then_do (load_item (\<lambda>_. True) (lit ''resource not found'') tid i a) (\<lambda>a _.
       (a\<lparr>a_resources := res_delete (a_resources a) i\<rparr>, Inr ())))"

section \<open>Learning insights\<close>

definition get_learning_insights ::
  "pystr \<Rightarrow> pystr option \<Rightarrow> int \<Rightarrow> int \<Rightarrow> int \<Rightarrow> request \<Rightarrow> app \<Rightarrow> (insights \<times> pystr) handled" where
  "get_learning_insights tid kind sample_size n top_n q a =
     then_do (assert_tenant_access q a tid) (\<lambda>a _.
     then_do (load_tenant tid a) (\<lambda>a _.
       (a, Inr (learn (a_resources a) (a_query_log a) (rq_now q) tid kind sample_size n top_n,
                render_soul_hints (a_resources a) (a_query_log a) (rq_now q) tid kind))))"

section \<open>Contacts and activities\<close>

definition contact_out :: "resource \<Rightarrow> json" where
  "contact_out r =
     JObj [((lit ''id''), JStr (re_id r)), ((lit ''tenant_id''), JStr (re_tenant_id r)), ((lit ''external_id''), json_opt (re_external_id r)),
           ((lit ''summary''), JStr (re_summary r)), ((lit ''data''), JObj (re_data r)),
           ((lit ''created_at''), JStr (isoformat (re_created_at r))), ((lit ''updated_at''), JStr (isoformat (re_updated_at r)))]"

definition activity_out :: "resource \<Rightarrow> json" where
  "activity_out r =
     JObj [((lit ''id''), JStr (re_id r)), ((lit ''external_id''), json_opt (re_external_id r)), ((lit ''summary''), JStr (re_summary r)),
           ((lit ''data''), JObj (re_data r)), ((lit ''created_at''), JStr (isoformat (re_created_at r)))]"

definition list_crm_contacts :: "pystr \<Rightarrow> int \<Rightarrow> request \<Rightarrow> app \<Rightarrow> json handled" where
  "list_crm_contacts tid lmt q a =
     then_do (assert_tenant_access q a tid) (\<lambda>a _.
     then_do (load_tenant tid a) (\<lambda>a _.
       (a, Inr (JList (map contact_out (res_list_for (a_resources a) tid (Some (lit ''contact'')) lmt))))))"

definition is_contact :: "resource \<Rightarrow> bool" where
  "is_contact r \<longleftrightarrow> re_kind r = (lit ''contact'')"

definition get_crm_contact :: "pystr \<Rightarrow> pystr \<Rightarrow> request \<Rightarrow> app \<Rightarrow> json handled" where
  "get_crm_contact tid i q a =
     then_do (assert_tenant_access q a tid) (\<lambda>a _.
     then_do (load_item is_contact (lit ''contact not found'') tid i a) (\<lambda>a c. (a, Inr (contact_out c))))"

text \<open>\<open>data.get(k) == s\<close>.\<close>

definition data_is :: "string \<Rightarrow> pystr \<Rightarrow> resource \<Rightarrow> bool" where
  "data_is k s r \<longleftrightarrow> jget (re_data r) k = JStr s"

definition list_crm_activities :: "pystr \<Rightarrow> pystr \<Rightarrow> int \<Rightarrow> request \<Rightarrow> app \<Rightarrow> json handled" where
  "list_crm_activities tid i lmt q a =
     then_do (assert_tenant_access q a tid) (\<lambda>a _.
     then_do (load_item is_contact (lit ''contact not found'') tid i a) (\<lambda>a _.
       (a, Inr (JList (map activity_out
          (slice_to (filter (data_is ''contact_id'' i) (res_list_for (a_resources a) tid (Some (lit ''activity'')) 10000)) lmt))))))"

definition get_crm_contact_by_phone :: "pystr \<Rightarrow> pystr \<Rightarrow> request \<Rightarrow> app \<Rightarrow> json handled" where
  "get_crm_contact_by_phone tid from_number q a =
     then_do (assert_tenant_access q a tid) (\<lambda>a _.
       case find_by_external_id (a_resources a) tid contact_kind (contact_external_id from_number) of
         None \<Rightarrow> (a, Inl (HTTPException 404 (lit ''contact not found'')))
       | Some c \<Rightarrow> (a, Inr (contact_out c)))"

section \<open>Tasks\<close>

definition task_out :: "resource \<Rightarrow> json" where
  "task_out r =
     JObj [((lit ''id''), JStr (re_id r)), ((lit ''external_id''), json_opt (re_external_id r)), ((lit ''summary''), JStr (re_summary r)),
           ((lit ''data''), JObj (re_data r)), ((lit ''created_at''), JStr (isoformat (re_created_at r))),
           ((lit ''updated_at''), JStr (isoformat (re_updated_at r)))]"

definition list_crm_tasks_for_contact :: "pystr \<Rightarrow> pystr \<Rightarrow> int \<Rightarrow> request \<Rightarrow> app \<Rightarrow> json handled" where
  "list_crm_tasks_for_contact tid i lmt q a =
     then_do (assert_tenant_access q a tid) (\<lambda>a _.
     then_do (load_item is_contact (lit ''contact not found'') tid i a) (\<lambda>a _.
       (let matching = filter (data_is ''contact_id'' i) (res_list_for (a_resources a) tid (Some (lit ''task'')) 10000);
            sorted_tasks = sort_key (\<lambda>t. if data_is ''status'' (lit ''open'') t then 0 else (1 :: nat)) matching
        in (a, Inr (JList (map task_out (slice_to sorted_tasks lmt)))))))"

definition list_crm_tasks_for_tenant :: "pystr \<Rightarrow> pystr option \<Rightarrow> int \<Rightarrow> request \<Rightarrow> app \<Rightarrow> json handled" where
  "list_crm_tasks_for_tenant tid status lmt q a =
     then_do (assert_tenant_access q a tid) (\<lambda>a _.
     then_do (load_tenant tid a) (\<lambda>a _.
       (let tasks = res_list_for (a_resources a) tid (Some (lit ''task'')) 10000;
            tasks = (case nonempty status of None \<Rightarrow> tasks | Some s \<Rightarrow> filter (data_is ''status'' s) tasks)
        in (a, Inr (JList (map task_out (slice_to tasks lmt)))))))"

definition is_task :: "resource \<Rightarrow> bool" where
  "is_task r \<longleftrightarrow> re_kind r = (lit ''task'')"

definition load_task_resource :: "pystr \<Rightarrow> pystr \<Rightarrow> app \<Rightarrow> resource handled" where
  "load_task_resource tid i a = load_item is_task (lit ''task not found'') tid i a"

record task_patch =
  pt_title :: "pystr option"
  pt_status :: "pystr option"
  pt_due_at :: "pystr option"
  pt_priority :: "pystr option"
  pt_confirmed :: "bool option"

definition set_opt :: "string \<Rightarrow> pystr option \<Rightarrow> json dict \<Rightarrow> json dict" where
  "set_opt k v d = (case v of None \<Rightarrow> d | Some s \<Rightarrow> dset d (lit k) (JStr s))"

text \<open>The edited data of a task; the first invalid field ends the request.\<close>

definition patch_task_data :: "task_patch \<Rightarrow> json dict \<Rightarrow> json dict res" where
  "patch_task_data r data =
     (let data = set_opt ''title'' (map_option (\<lambda>s. take 200 (strip s)) (pt_title r)) data
      in if \<exists>s. pt_status r = Some s \<and> s \<notin> {(lit ''open''), (lit ''done''), (lit ''dismissed'')} then Inl (HTTPException 400 (lit ''invalid status''))
         else (let data = set_opt ''status'' (pt_status r) data;
                   data = (if pt_due_at r = Some [] then dpop data (lit ''due_at'') else set_opt ''due_at'' (pt_due_at r) data)
               in if \<exists>s. pt_priority r = Some s \<and> s \<notin> {(lit ''low''), (lit ''med''), (lit ''high'')} then Inl (HTTPException 400 (lit ''invalid priority''))
                  else (let data = set_opt ''priority'' (pt_priority r) data
                        in Inr (case pt_confirmed r of None \<Rightarrow> data | Some b \<Rightarrow> dset data (lit ''confirmed'') (JBool b)))))"

definition patched_summary :: "json dict \<Rightarrow> pystr \<Rightarrow> pystr res" where
  "patched_summary data old =
     (case dget_or data (lit ''title'') (JStr old) of
        JStr s \<Rightarrow> Inr (take 200 s)
      | j \<Rightarrow> Inl (TypeError (([39]) @ type_name j @ ([39] @ lit '' object is not subscriptable''))))"

definition patch_crm_task :: "pystr \<Rightarrow> pystr \<Rightarrow> task_patch \<Rightarrow> request \<Rightarrow> app \<Rightarrow> json handled" where
  "patch_crm_task tid i r q a =
     then_do (assert_tenant_access q a tid) (\<lambda>a _.
     then_do (load_task_resource tid i a) (\<lambda>a x.
     then_do (a, patch_task_data r (re_data x)) (\<lambda>a data.
     then_do (a, patched_summary data (re_summary x)) (\<lambda>a s.
       (let y = x\<lparr>re_data := data, re_summary := s, re_updated_at := rq_now q\<rparr>
        in (a\<lparr>a_resources := upsert (a_resources a) y\<rparr>, Inr (task_out y)))))))"

definition delete_crm_task :: "pystr \<Rightarrow> pystr \<Rightarrow> request \<Rightarrow> app \<Rightarrow> unit handled" where
  "delete_crm_task tid i q a =
     then_do (assert_tenant_access q a tid) (\<lambda>a _.
     then_do (load_task_resource tid i a) (\<lambda>a _.
       (a\<lparr>a_resources := res_delete (a_resources a) i\<rparr>, Inr ())))"

end
