(* ===== verification/Api_Account.thy ===== *)
theory Api_Account
  imports Api_Core Skills Webhook
begin

text \<open>
  The HTTP API (\<open>services/api/main.py\<close>), sixth part: log-in, log-out and registration, the skills and
  goal routes, billing with the Mercado Pago notification, and the health probes. bcrypt, the HTTP
  clients, the HMAC and the JSON parser are arguments. A response that sets the session cookie
  carries it beside the body.
\<close>

section \<open>Sessions\<close>

definition role_name :: "user_role \<Rightarrow> pystr" where
  "role_name r = (case r of ADMIN \<Rightarrow> (lit ''ADMIN'') | TENANT \<Rightarrow> (lit ''TENANT''))"

definition user_out :: "user \<Rightarrow> json" where
  "user_out u =
     JObj [((lit ''id''), JStr (u_id u)), ((lit ''email''), JStr (u_email u)), ((lit ''role''), JStr (role_name (u_role u))),
           ((lit ''tenant_id''), json_opt (u_tenant_id u)), ((lit ''created_at''), JStr (isoformat (u_created_at u)))]"

record cookie =
  ck_value :: pystr
  ck_httponly :: bool
  ck_secure :: bool
  ck_samesite :: pystr
  ck_expires :: pystr
  ck_path :: pystr

definition set_session_cookie :: "request \<Rightarrow> pystr \<Rightarrow> pystr \<Rightarrow> cookie" where
  "set_session_cookie q token expires_iso =
     \<lparr>ck_value = token, ck_httponly = True, ck_secure = auth_cookie_secure q, ck_samesite = auth_cookie_samesite q,
      ck_expires = expires_iso, ck_path = (lit ''/'')\<rparr>"

definition auth_login :: "bcrypt \<Rightarrow> pystr \<Rightarrow> pystr \<Rightarrow> request \<Rightarrow> app \<Rightarrow> (json \<times> cookie) handled" where
  "auth_login bc email password q a =
     (case login bc session_duration (a_users a) (a_sessions a) (rq_uids q 0) (rq_now q) email password of
        Inl (AuthError m) \<Rightarrow> (a, Inl (HTTPException 401 m))
      | Inl e \<Rightarrow> (a, Inl e)
      | Inr (ss, u, s) \<Rightarrow>
          (a\<lparr>a_sessions := ss\<rparr>, Inr (user_out u, set_session_cookie q (s_token s) (isoformat (s_expires_at s)))))"

definition auth_logout :: "request \<Rightarrow> app \<Rightarrow> unit handled" where
  "auth_logout q a =
     (case nonempty (rq_cookie q) of
        None \<Rightarrow> (a, Inr ())
      | Some tok \<Rightarrow> (a\<lparr>a_sessions := fst (logout (a_sessions a) tok)\<rparr>, Inr ()))"

definition auth_me :: "request \<Rightarrow> app \<Rightarrow> json handled" where
  "auth_me q a =
     (case authenticate (a_users a) (a_sessions a) (rq_now q) (rq_cookie q) of
        (ss, r) \<Rightarrow>
          (a\<lparr>a_sessions := ss\<rparr>,
           case r of
             Inl (AuthError m) \<Rightarrow> Inl (HTTPException 401 m)
           | Inl e \<Rightarrow> Inl e
           | Inr u \<Rightarrow> Inr (user_out u)))"

record register_request =
  rr_email :: pystr
  rr_password :: pystr
  rr_role :: user_role
  rr_tenant_id :: "pystr option"

definition auth_register :: "bcrypt \<Rightarrow> register_request \<Rightarrow> request \<Rightarrow> app \<Rightarrow> json handled" where
  "auth_register bc r q a =
     then_do (assert_admin q a) (\<lambda>a _.
       case register bc (a_users a) (rq_uids q 0) (rq_now q) (rr_email r) (rr_password r) (rr_role r) (rr_tenant_id r) of
         Inl (AuthError m) \<Rightarrow> (a, Inl (HTTPException (if contains (lit ''already exists'') m then 409 else 422) m))
       | Inl e \<Rightarrow> (a, Inl e)
       | Inr (us, u) \<Rightarrow> (a\<lparr>a_users := us\<rparr>, Inr (user_out u)))"

section \<open>Skills and goals\<close>

definition skill_host_of :: "app \<Rightarrow> skill_host" where
  "skill_host_of a = \<lparr>sk_facts = a_facts a, sk_resources = a_resources a, sk_query_log = a_query_log a\<rparr>"

definition with_host :: "skill_host \<Rightarrow> app \<Rightarrow> app" where
  "with_host h a = a\<lparr>a_facts := sk_facts h, a_resources := sk_resources h, a_query_log := sk_query_log h\<rparr>"

definition list_skills :: json where
  "list_skills = JObj [((lit ''skills''), JList (map JStr (skill_names builtin_skills)))]"

text \<open>No guard: the route takes no session.\<close>

definition invoke_skill :: "pystr \<Rightarrow> json dict \<Rightarrow> json dict \<Rightarrow> request \<Rightarrow> app \<Rightarrow> json dict handled" where
  "invoke_skill name ctx params q a =
     (case client_invoke_skill builtin_skills (skill_host_of a) (rq_now q) name ctx params of
        (h, r) \<Rightarrow> (with_host h a, r))"

record goal_request =
  gq_tenant_id :: pystr
  gq_goal_type :: pystr
  gq_message :: pystr
  gq_params :: "json dict"

text \<open>The type and the verdict; \<open>GoalType(...)\<close> raises \<open>ValueError\<close> on an unknown name.\<close>

definition evaluate_goal :: "goal_request \<Rightarrow> request \<Rightarrow> app \<Rightarrow> (pystr \<times> goal_result) handled" where
  "evaluate_goal r q a =
     (case goal_type_of (gq_goal_type r) of
        None \<Rightarrow> (a, Inl (ValueError (str_repr (gq_goal_type r) @ (lit '' is not a valid GoalType''))))
      | Some g \<Rightarrow>
          (let goal = \<lparr>go_id = rq_uids q 0, go_tenant_id = gq_tenant_id r, go_type = g, go_status = PENDING_GOAL,
                       go_params = dmerge (gq_params r) [((lit ''message''), JStr (gq_message r))], go_created_at = rq_now q\<rparr>
           in case invoke builtin_skills (skill_host_of a) (rq_now q) (lit ''lead-qualifier'') [] [((lit ''message''), JStr (gq_message r))] of
                (h, Inl e) \<Rightarrow> (with_host h a, Inl e)
              | (h, Inr s) \<Rightarrow>
                  (let ctx = (if so_success s then so_data s else [((lit ''intent_score''), JInt 0), ((lit ''tag''), JStr (lit ''cold''))])
                   in (with_host h a, and_then (judge goal ctx) (\<lambda>v. Inr (goal_type_str g, v))))))"

section \<open>Billing\<close>

definition subscription_out :: "subscription \<Rightarrow> json" where
  "subscription_out s =
     JObj [((lit ''id''), JStr (su_id s)), ((lit ''tenant_id''), JStr (su_tenant_id s)), ((lit ''plan_code''), JStr (su_plan_code s)),
           ((lit ''status''), JStr (status_str (su_status s))), ((lit ''mp_preapproval_id''), json_opt (su_mp_preapproval_id s)),
           ((lit ''mp_init_point''), json_opt (su_mp_init_point s)), ((lit ''payer_email''), json_opt (su_payer_email s)),
           ((lit ''started_at''), json_opt (map_option isoformat (su_started_at s))),
           ((lit ''current_period_end''), json_opt (map_option isoformat (su_current_period_end s))),
           ((lit ''created_at''), JStr (isoformat (su_created_at s))), ((lit ''updated_at''), JStr (isoformat (su_updated_at s)))]"

definition require_billing :: "billing option \<Rightarrow> billing res" where
  "require_billing b =
     (case b of None \<Rightarrow> Inl (HTTPException 503 (lit ''billing not configured (MP_ACCESS_TOKEN missing)'')) | Some s \<Rightarrow> Inr s)"

definition get_billing_overview :: "billing option \<Rightarrow> pystr \<Rightarrow> request \<Rightarrow> app \<Rightarrow> json handled" where
  "get_billing_overview b tid q a =
     then_do (assert_tenant_access q a tid) (\<lambda>a _.
     then_do (load_tenant tid a) (\<lambda>a _.
     then_do (a, require_billing b) (\<lambda>a _.
       (a, Inr (JObj
          [((lit ''current''), case current_for_tenant (a_subs a) tid of None \<Rightarrow> JNull | Some s \<Rightarrow> subscription_out s),
           ((lit ''history''), JList (map subscription_out (sub_list_for (a_subs a) tid))), ((lit ''plans''), JList list_plans)])))))"

text \<open>\<open>rq_now\<close> is both instants the service reads.\<close>

definition post_subscribe :: "billing option \<Rightarrow> pystr \<Rightarrow> pystr \<Rightarrow> pystr \<Rightarrow> request \<Rightarrow> app \<Rightarrow> json handled" where
  "post_subscribe b tid plan_code payer_email q a =
     then_do (assert_tenant_access q a tid) (\<lambda>a _.
     then_do (load_tenant tid a) (\<lambda>a _.
     then_do (a, require_billing b) (\<lambda>a B.
       case get_plan plan_code of
         Inl e \<Rightarrow> (a, Inl (HTTPException 400 (exn_text e)))
       | Inr _ \<Rightarrow>
           (case subscribe_plan B (a_subs a) (rq_uids q 0) (rq_now q) (rq_now q) tid plan_code payer_email of
              (d, r) \<Rightarrow>
                (a\<lparr>a_subs := d\<rparr>,
                 case r of
                   Inl (BillingConflictError m) \<Rightarrow> Inl (HTTPException 409 m)
                 | Inl (MercadoPagoError m) \<Rightarrow> Inl (HTTPException 502 (take 300 m))
                 | Inl e \<Rightarrow> Inl e
                 | Inr (s, init_point) \<Rightarrow>
                     Inr (JObj [((lit ''subscription''), subscription_out s), ((lit ''init_point''), JStr init_point)]))))))"

definition cancel_subscription :: "billing option \<Rightarrow> pystr \<Rightarrow> pystr \<Rightarrow> request \<Rightarrow> app \<Rightarrow> json handled" where
  "cancel_subscription b tid i q a =
     then_do (assert_tenant_access q a tid) (\<lambda>a _.
     then_do (a, require_billing b) (\<lambda>a _.
       case cancel (a_subs a) (rq_now q) tid i of
         Inl (KeyError m) \<Rightarrow> (a, Inl (HTTPException 404 (exn_text (KeyError m))))
       | Inl e \<Rightarrow> (a, Inl e)
       | Inr (d, s) \<Rightarrow> (a\<lparr>a_subs := d\<rparr>, Inr (subscription_out s))))"

text \<open>
  The Mercado Pago notification. \<open>parse\<close> decodes and parses the body, \<open>None\<close> for a malformed one.
\<close>

definition status_only :: "pystr \<Rightarrow> json" where
  "status_only s = JObj [((lit ''status''), JStr s)]"

definition ignored :: "pystr \<Rightarrow> json" where
  "ignored reason = JObj [((lit ''status''), JStr (lit ''ignored'')), ((lit ''reason''), JStr reason)]"

definition notification_topic :: "json dict \<Rightarrow> pystr" where
  "notification_topic p =
     py_str (json_or (json_or (jget p ''type'') (jget p ''topic'')) (JStr []))"

definition notification_data_id :: "json dict \<Rightarrow> pystr" where
  "notification_data_id p =
     (case json_or (jget p ''data'') (JObj []) of JObj d \<Rightarrow> py_str (dget_or d (lit ''id'') (JStr [])) | _ \<Rightarrow> [])"

definition mp_webhook ::
  "billing option \<Rightarrow> (pystr \<Rightarrow> pystr \<Rightarrow> pystr) \<Rightarrow> (nat list \<Rightarrow> json option) \<Rightarrow> nat list \<Rightarrow> pystr \<Rightarrow> pystr
     \<Rightarrow> request \<Rightarrow> app \<Rightarrow> json handled" where
  "mp_webhook b hmac parse body signature request_id q a =
     (case (if body = [] then Some (JObj []) else parse body) of
        None \<Rightarrow> (a, Inr (status_only (lit ''ignored'')))
      | Some (JObj p) \<Rightarrow>
          (let topic = notification_topic p; data_id = notification_data_id p
           in case verify_mp_signature hmac (strip (getenv q ''MP_WEBHOOK_SECRET'' [])) signature request_id data_id of
                Inl e \<Rightarrow> (a, Inl e)
              | Inr False \<Rightarrow> (a, Inl (HTTPException 401 (lit ''invalid signature'')))
              | Inr True \<Rightarrow>
                  if topic \<notin> {(lit ''preapproval''), (lit ''subscription_preapproval'')} then (a, Inr (ignored ((lit ''topic='') @ topic)))
                  else if data_id = [] then (a, Inr (ignored (lit ''no data.id'')))
                  else (case b of
                          None \<Rightarrow> (a, Inr (ignored (lit ''billing not configured'')))
                        | Some B \<Rightarrow>
                            (case reconcile B (a_subs a) (rq_now q) data_id of
                               (d, r) \<Rightarrow>
                                 (a\<lparr>a_subs := d\<rparr>, Inr (status_only (case r of Inl _ \<Rightarrow> (lit ''error'') | Inr _ \<Rightarrow> (lit ''ok'')))))))
      | Some j \<Rightarrow> (a, Inl (AttributeError (([39]) @ type_name j @ ([39] @ lit '' object has no attribute '' @ [39] @ lit ''get'' @ [39])))))"

section \<open>Health\<close>

text \<open>
  \<open>client.get(url, params=..., headers=...)\<close>: the HTTP status of the answer, or the text of the exception.
\<close>

type_synonym http_probe_get = "pystr \<Rightarrow> pystr dict \<Rightarrow> pystr dict \<Rightarrow> pystr + nat"

definition http_probe :: "pystr + nat \<Rightarrow> json dict" where
  "http_probe r =
     (case r of
        Inl e \<Rightarrow> [((lit ''status''), JStr (lit ''error'')), ((lit ''detail''), JStr (take 200 e))]
      | Inr n \<Rightarrow> if n \<noteq> 200 then [((lit ''status''), JStr (lit ''error'')), ((lit ''detail''), JStr ((lit ''http '') @ nat_digits n))]
                 else [((lit ''status''), JStr (lit ''ok''))])"

definition skipped :: "pystr \<Rightarrow> json dict" where
  "skipped why = [((lit ''status''), JStr (lit ''skipped'')), ((lit ''detail''), JStr why)]"

definition check_postgres :: "pystr res option \<Rightarrow> json dict" where
  "check_postgres conn =
     (case conn of
        None \<Rightarrow> skipped (lit ''WAPSELL_POSTGRES_URL not set'')
      | Some (Inl e) \<Rightarrow> [((lit ''status''), JStr (lit ''error'')), ((lit ''detail''), JStr (take 200 (exn_text e)))]
      | Some (Inr _) \<Rightarrow> [((lit ''status''), JStr (lit ''ok''))])"

definition check_openrouter :: "http_probe_get \<Rightarrow> request \<Rightarrow> json dict" where
  "check_openrouter get q =
     (let key = strip (getenv q ''OPENROUTER_API_KEY'' [])
      in if key = [] then skipped (lit ''OPENROUTER_API_KEY not set'')
         else http_probe (get (lit ''https://openrouter.ai/api/v1/models'') [] [((lit ''Authorization''), (lit ''Bearer '') @ key)]))"

definition check_meta :: "http_probe_get \<Rightarrow> request \<Rightarrow> json dict" where
  "check_meta get q =
     (let phone_id = strip (getenv q ''META_PHONE_NUMBER_ID'' []); token = strip (getenv q ''META_ACCESS_TOKEN'' [])
      in if phone_id = [] \<or> token = [] then skipped (lit ''META_ACCESS_TOKEN/PHONE_NUMBER_ID missing'')
         else http_probe (get ((lit ''https://graph.facebook.com/'') @ getenv q ''META_GRAPH_VERSION'' (lit ''v20.0'') @ (lit ''/'') @ phone_id)
                [((lit ''fields''), (lit ''display_phone_number,verified_name''))] [((lit ''Authorization''), (lit ''Bearer '') @ token)]))"

definition failing :: "json dict \<Rightarrow> bool" where
  "failing c \<longleftrightarrow> dget c (lit ''status'') = Some (JStr (lit ''error''))"

definition health_deep :: "pystr res option \<Rightarrow> http_probe_get \<Rightarrow> request \<Rightarrow> nat \<times> json" where
  "health_deep conn get q =
     (let checks = [((lit ''postgres''), check_postgres conn), ((lit ''openrouter''), check_openrouter get q), ((lit ''meta''), check_meta get q)];
          degraded = (\<exists>c \<in> set checks. failing (snd c))
      in (if degraded then 503 else 200,
          JObj [((lit ''status''), JStr (if degraded then (lit ''degraded'') else (lit ''ok''))), ((lit ''service''), JStr (lit ''wapsell-api'')),
                ((lit ''checks''), JObj (map (\<lambda>c. (fst c, JObj (snd c))) checks))]))"

end
