(* ===== verification/Api.thy ===== *)
theory Api
  imports Api_Analytics Api_Data Api_Crm Api_Account Scope
begin

text \<open>
  The routes below \<open>/tenants/{tenant_id}\<close> (\<open>services/api/main.py\<close>) as one dispatcher, and what holds
  of every one of them: the access guard comes first, before any other effect.
\<close>

section \<open>The dispatcher\<close>

datatype tenant_call =
    Get_Tenant | Update_Tenant tenant_update
  | Get_Soul | Put_Soul soul_config | Get_Handoff | Put_Handoff handoff_config
  | Ingest_Facts catalog_ingest | List_Facts
  | List_Conversations | Get_Thread pystr | Send_Human pystr pystr "int option" | Pause_Bot pystr int | Resume_Bot pystr
  | Get_Analytics int
  | List_Templates | Create_Template template_create | Update_Template pystr template_patch | Delete_Template pystr
  | List_Sources | Create_Source source_create | Delete_Source pystr | Sync_Source pystr
  | List_Resources "pystr option" int | Create_Resource resource_create | Search_Resources search_request | Delete_Resource pystr
  | Get_Learning "pystr option" int int int
  | List_Contacts int | Get_Contact pystr | List_Activities pystr int | Contact_By_Phone pystr
  | Contact_Tasks pystr int | List_Tasks "pystr option" int | Patch_Task pystr task_patch | Delete_Task pystr
  | Billing_Overview | Subscribe_Plan pystr pystr | Cancel_Subscription pystr

datatype body = Json json | Figures analytics | Learned insights pystr | No_Content

text \<open>What the routes call outside the process.\<close>

record 'n outside =
  os_send :: send_port
  os_http :: http_get
  os_soup :: "'n soup"
  os_sha :: "pystr \<Rightarrow> pystr"
  os_billing :: "billing option"

definition respond_with :: "('r \<Rightarrow> body) \<Rightarrow> 'r handled \<Rightarrow> body handled" where
  "respond_with f r = then_do r (\<lambda>a x. (a, Inr (f x)))"

fun serve :: "'n outside \<Rightarrow> pystr \<Rightarrow> tenant_call \<Rightarrow> request \<Rightarrow> app \<Rightarrow> body handled" where
  "serve W t Get_Tenant q a = respond_with Json (get_tenant t q a)"
| "serve W t (Update_Tenant r) q a = respond_with Json (update_tenant t r q a)"
| "serve W t Get_Soul q a = respond_with Json (get_tenant_soul t q a)"
| "serve W t (Put_Soul c) q a = respond_with Json (update_tenant_soul t c q a)"
| "serve W t Get_Handoff q a = respond_with Json (get_tenant_handoff t q a)"
| "serve W t (Put_Handoff c) q a = respond_with Json (update_tenant_handoff t c q a)"
| "serve W t (Ingest_Facts r) q a = respond_with Json (ingest_catalog_facts t r q a)"
| "serve W t List_Facts q a = respond_with Json (list_catalog_facts t q a)"
| "serve W t List_Conversations q a = respond_with Json (list_conversations t q a)"
| "serve W t (Get_Thread b) q a = respond_with Json (get_conversation_thread t b q a)"
| "serve W t (Send_Human b x h) q a = respond_with Json (send_human_message (os_send W) t b x h q a)"
| "serve W t (Pause_Bot b h) q a = respond_with Json (pause_bot t b h q a)"
| "serve W t (Resume_Bot b) q a = respond_with Json (resume_bot t b q a)"
| "serve W t (Get_Analytics n) q a = respond_with Figures (get_analytics t n q a)"
| "serve W t List_Templates q a = respond_with Json (list_templates t q a)"
| "serve W t (Create_Template r) q a = respond_with Json (create_template t r q a)"
| "serve W t (Update_Template i r) q a = respond_with Json (update_template t i r q a)"
| "serve W t (Delete_Template i) q a = respond_with (\<lambda>_. No_Content) (delete_template t i q a)"
| "serve W t List_Sources q a = respond_with Json (list_data_sources t q a)"
| "serve W t (Create_Source r) q a = respond_with Json (create_data_source t r q a)"
| "serve W t (Delete_Source i) q a = respond_with (\<lambda>_. No_Content) (delete_data_source t i q a)"
| "serve W t (Sync_Source i) q a = respond_with Json (sync_data_source (os_http W) (os_soup W) (os_sha W) t i q a)"
| "serve W t (List_Resources k n) q a = respond_with Json (list_resources t k n q a)"
| "serve W t (Create_Resource r) q a = respond_with Json (create_resource t r q a)"
| "serve W t (Search_Resources r) q a = respond_with Json (search_resources t r q a)"
| "serve W t (Delete_Resource i) q a = respond_with (\<lambda>_. No_Content) (delete_resource t i q a)"
| "serve W t (Get_Learning k n d m) q a = respond_with (\<lambda>r. Learned (fst r) (snd r)) (get_learning_insights t k n d m q a)"
| "serve W t (List_Contacts n) q a = respond_with Json (list_crm_contacts t n q a)"
| "serve W t (Get_Contact i) q a = respond_with Json (get_crm_contact t i q a)"
| "serve W t (List_Activities i n) q a = respond_with Json (list_crm_activities t i n q a)"
| "serve W t (Contact_By_Phone f) q a = respond_with Json (get_crm_contact_by_phone t f q a)"
| "serve W t (Contact_Tasks i n) q a = respond_with Json (list_crm_tasks_for_contact t i n q a)"
| "serve W t (List_Tasks s n) q a = respond_with Json (list_crm_tasks_for_tenant t s n q a)"
| "serve W t (Patch_Task i p) q a = respond_with Json (patch_crm_task t i p q a)"
| "serve W t (Delete_Task i) q a = respond_with (\<lambda>_. No_Content) (delete_crm_task t i q a)"
| "serve W t Billing_Overview q a = respond_with Json (get_billing_overview (os_billing W) t q a)"
| "serve W t (Subscribe_Plan p e) q a = respond_with Json (post_subscribe (os_billing W) t p e q a)"
| "serve W t (Cancel_Subscription i) q a = respond_with Json (cancel_subscription (os_billing W) t i q a)"

section \<open>The guard comes first\<close>

lemma then_do_assoc: "then_do (then_do r f) g = then_do r (\<lambda>a x. then_do (f a x) g)"
  by (simp add: then_do_def split: prod.split sum.split)

lemma guarded_respond: "(\<And>q a. h q a = then_do (assert_tenant_access q a t) (k q)) \<Longrightarrow> guarded t (\<lambda>q a. respond_with f (h q a))"
  by (rule guardedI) (simp add: respond_with_def then_do_assoc)

lemma serve_guarded: "guarded t (serve W t c)"
proof -
  have "\<exists>k. \<forall>q a. serve W t c q a = then_do (assert_tenant_access q a t) (k q)"
    by (cases c; simp add: respond_with_def then_do_assoc
        get_tenant_def update_tenant_def get_tenant_soul_def update_tenant_soul_def get_tenant_handoff_def
        update_tenant_handoff_def ingest_catalog_facts_def list_catalog_facts_def list_conversations_def
        get_conversation_thread_def send_human_message_def pause_bot_def resume_bot_def get_analytics_def
        list_templates_def create_template_def update_template_def delete_template_def list_data_sources_def
        create_data_source_def delete_data_source_def sync_data_source_def list_resources_def create_resource_def
        search_resources_def delete_resource_def get_learning_insights_def list_crm_contacts_def get_crm_contact_def
        list_crm_activities_def get_crm_contact_by_phone_def list_crm_tasks_for_contact_def
        list_crm_tasks_for_tenant_def patch_crm_task_def delete_crm_task_def get_billing_overview_def
        post_subscribe_def cancel_subscription_def; intro exI allI; rule refl)
  then show ?thesis by (simp add: guarded_def)
qed

end
