(* ===== verification/Api_Views.thy ===== *)
theory Api_Views
  imports Api
begin

text \<open>
  Isolation of the tenant routes of the API: a request of one tenant leaves the view of every other
  tenant, and its answer depends on the view of its own tenant only. The view of a tenant is its
  record and its entries of every store.
\<close>

section \<open>What a tenant sees\<close>

definition owned :: "('a \<Rightarrow> pystr) \<Rightarrow> pystr \<Rightarrow> 'a dict \<Rightarrow> 'a list" where
  "owned f t d = filter (\<lambda>x. f x = t) (dvalues d)"

definition threads_of :: "tenant \<Rightarrow> memory \<Rightarrow> interaction list dict" where
  "threads_of t m = filter (\<lambda>p. startswith (fst p) (thread_prefix t)) (mem_store m)"

definition pauses_of :: "pystr \<Rightarrow> pause_store \<Rightarrow> pause_store" where
  "pauses_of t d = filter (\<lambda>p. fst (fst p) = t) d"

text \<open>
  The entries of the query log are numbered across tenants, so a tenant's view of them is without their
  numbers.
\<close>

definition entries_of :: "pystr \<Rightarrow> query_log \<Rightarrow> query_log_entry list" where
  "entries_of t l = filter (\<lambda>e. ql_tenant_id e = t) (qg_entries l)"

definition queries_of :: "pystr \<Rightarrow> query_log \<Rightarrow> query_log_entry list" where
  "queries_of t l = map (\<lambda>e. e\<lparr>ql_id := None\<rparr>) (entries_of t l)"

definition same_view :: "pystr \<Rightarrow> app \<Rightarrow> app \<Rightarrow> bool" where
  "same_view t a b \<longleftrightarrow>
     dget (a_tenants b) t = dget (a_tenants a) t \<and> all_for (a_facts b) t = all_for (a_facts a) t \<and>
     owned mt_tenant_id t (a_templates b) = owned mt_tenant_id t (a_templates a) \<and>
     owned ds_tenant_id t (a_sources b) = owned ds_tenant_id t (a_sources a) \<and>
     owned su_tenant_id t (a_subs b) = owned su_tenant_id t (a_subs a) \<and>
     items_of t (a_resources b) = items_of t (a_resources a) \<and>
     queries_of t (a_query_log b) = queries_of t (a_query_log a) \<and>
     pauses_of t (a_pauses b) = pauses_of t (a_pauses a) \<and>
     mem_max_items (a_memory b) = mem_max_items (a_memory a) \<and>
     (\<forall>x. dget (a_tenants a) t = Some x \<longrightarrow> threads_of x (a_memory b) = threads_of x (a_memory a))"

lemma same_view_refl [simp]: "same_view t a a"
  by (simp add: same_view_def)

lemma same_view_trans: "same_view t a b \<Longrightarrow> same_view t b c \<Longrightarrow> same_view t a c"
  by (simp add: same_view_def)

text \<open>
  The state the routes keep: every store keyed by the identifiers of its entries, and slugs that are
  distinct and without a colon.
\<close>

definition slugs_ok :: "tenant_store \<Rightarrow> bool" where
  "slugs_ok d \<longleftrightarrow> (\<forall>x \<in> set (dvalues d). 58 \<notin> set (t_slug x)) \<and>
     (\<forall>x \<in> set (dvalues d). \<forall>y \<in> set (dvalues d). t_slug x = t_slug y \<longrightarrow> t_id x = t_id y)"

definition app_ok :: "app \<Rightarrow> bool" where
  "app_ok a \<longleftrightarrow> store_ok t_id (a_tenants a) \<and> store_ok mt_id (a_templates a) \<and> store_ok ds_id (a_sources a) \<and>
     store_ok su_id (a_subs a) \<and> store_ok re_id (a_resources a) \<and> dict_ok (a_pauses a) \<and> memory_ok (a_memory a) \<and>
     log_ok (a_query_log a) \<and> slugs_ok (a_tenants a)"

definition ids_free :: "request \<Rightarrow> app \<Rightarrow> bool" where
  "ids_free q a \<longleftrightarrow> (\<forall>n. dget (a_templates a) (rq_uids q n) = None \<and> dget (a_sources a) (rq_uids q n) = None \<and>
     dget (a_subs a) (rq_uids q n) = None \<and> dget (a_resources a) (rq_uids q n) = None)"

definition others_same :: "pystr \<Rightarrow> app \<Rightarrow> app \<Rightarrow> bool" where
  "others_same t a b \<longleftrightarrow> (\<forall>t'. t' \<noteq> t \<longrightarrow> same_view t' a b \<and> entries_of t' (a_query_log b) = entries_of t' (a_query_log a))"

text \<open>What a request of tenant \<open>t\<close> may do to the state.\<close>

definition session_dead :: "app \<Rightarrow> time \<Rightarrow> pystr \<Rightarrow> bool" where
  "session_dead a n tok \<longleftrightarrow> (case session_get (a_sessions a) tok of None \<Rightarrow> True
     | Some s \<Rightarrow> s_expires_at s \<le> n \<or> user_get (a_users a) (s_user_id s) = None)"

definition confined :: "time \<Rightarrow> pystr \<Rightarrow> app \<Rightarrow> app \<Rightarrow> bool" where
  "confined n t a b \<longleftrightarrow> app_ok b \<and> others_same t a b \<and> a_users b = a_users a \<and>
     (\<forall>tok. session_get (a_sessions b) tok \<noteq> session_get (a_sessions a) tok \<longrightarrow>
        session_get (a_sessions b) tok = None \<and> session_dead a n tok)"

lemma confined_refl [simp]: "app_ok a \<Longrightarrow> confined n t a a"
  by (simp add: confined_def others_same_def)

lemma confined_trans: "confined n t a b \<Longrightarrow> confined n t b c \<Longrightarrow> confined n t a c"
  unfolding confined_def others_same_def session_dead_def using same_view_trans by (smt (verit) option.case_eq_if)

section \<open>Walking through a handler\<close>

lemma guard_sessions:
  obtains ss where "fst (assert_tenant_access q a t) = a\<lparr>a_sessions := ss\<rparr>"
    and "\<And>tok. session_get ss tok \<noteq> session_get (a_sessions a) tok \<Longrightarrow> session_get ss tok = None \<and> session_dead a (rq_now q) tok"
proof
  let ?c = "rq_cookie q"
  let ?ss = "if ?c = None \<or> ?c = Some [] then a_sessions a else fst (authenticate (a_users a) (a_sessions a) (rq_now q) ?c)"
  show "fst (assert_tenant_access q a t) = a\<lparr>a_sessions := ?ss\<rparr>"
    by (auto simp: assert_tenant_access_def assert_authenticated_def optional_current_user_def then_do_def
        split: prod.splits option.splits sum.splits)
  fix tok assume d: "session_get ?ss tok \<noteq> session_get (a_sessions a) tok"
  then have "?c = Some tok" "tok \<noteq> []" "\<And>u. snd (authenticate (a_users a) (a_sessions a) (rq_now q) ?c) \<noteq> Inr u" "session_get ?ss tok = None"
    by (auto simp: authenticate_sessions session_get_def split: if_splits option.splits)
  then show "session_get ?ss tok = None \<and> session_dead a (rq_now q) tok"
    using authenticate_iff[of "a_users a" "a_sessions a" "rq_now q" "Some tok"]
    by (fastforce simp: session_dead_def split: option.split)
qed

lemma guard_walk:
  assumes "app_ok a" and "ids_free q a" and "\<And>a1 u. app_ok a1 \<Longrightarrow> ids_free q a1 \<Longrightarrow> confined (rq_now q) t a1 (fst (f a1 u))"
  shows "confined (rq_now q) t a (fst (then_do (assert_tenant_access q a t) f))"
proof -
  obtain ss where ss: "fst (assert_tenant_access q a t) = a\<lparr>a_sessions := ss\<rparr>"
    "\<And>tok. session_get ss tok \<noteq> session_get (a_sessions a) tok \<Longrightarrow> session_get ss tok = None \<and> session_dead a (rq_now q) tok"
    using guard_sessions[of q a t] by blast
  then obtain a1 r where g: "assert_tenant_access q a t = (a1, r)" and a1: "a1 = a\<lparr>a_sessions := ss\<rparr>"
    by (metis prod.collapse)
  have ok: "app_ok a1" "ids_free q a1" using assms(1,2) by (simp_all add: a1 app_ok_def ids_free_def)
  then have s: "confined (rq_now q) t a a1" using ss(2) by (simp add: a1 confined_def others_same_def same_view_def)
  have "confined (rq_now q) t a1 (fst (f a1 u))" for u using ok by (rule assms(3))
  then have "confined (rq_now q) t a (fst (f a1 u))" for u using confined_trans[OF s] by blast
  with g s show ?thesis by (cases r) simp_all
qed

lemma pure_walk:
  "app_ok a \<Longrightarrow> (\<And>x. r = Inr x \<Longrightarrow> confined n t a (fst (f a x))) \<Longrightarrow> confined n t a (fst (then_do (a, r) f))"
  by (cases r) simp_all

lemma return_walk: "confined n t a b \<Longrightarrow> confined n t a (fst (b, r))"
  by simp

lemma if_walk:
  "(P \<Longrightarrow> confined n t a (fst x)) \<Longrightarrow> (\<not> P \<Longrightarrow> confined n t a (fst y)) \<Longrightarrow> confined n t a (fst (if P then x else y))"
  by simp

lemma respond_walk: "confined n t a (fst r) \<Longrightarrow> confined n t a (fst (respond_with f r))"
  by (cases r; cases "snd r") (auto simp: respond_with_def then_do_def)

text \<open>The look-ups leave the state, and what they return belongs to the tenant.\<close>

definition tenant_at :: "app \<Rightarrow> pystr \<Rightarrow> tenant \<Rightarrow> bool" where
  "tenant_at a t x \<longleftrightarrow> dget (a_tenants a) t = Some x \<and> x \<in> set (dvalues (a_tenants a)) \<and> t_id x = t"

lemma load_tenant_cases:
  assumes "app_ok a"
  shows "(\<exists>e. load_tenant t a = (a, Inl e)) \<or> (\<exists>x. load_tenant t a = (a, Inr x) \<and> tenant_at a t x)"
proof (cases "dget (a_tenants a) t")
  case None
  then show ?thesis by (simp add: load_tenant_def manager_get_def mem_tenants_def mem_get_def split: exn.splits)
next
  case (Some x)
  with assms have "x \<in> set (dvalues (a_tenants a))" "t_id x = t"
    using store_lookup[of t_id "a_tenants a" t x] by (simp_all add: app_ok_def)
  with Some show ?thesis by (simp add: load_tenant_def manager_get_def mem_tenants_def mem_get_def tenant_at_def)
qed

lemma load_tenant_walk:
  assumes "app_ok a" and "\<And>x. tenant_at a t x \<Longrightarrow> confined n t a (fst (f a x))"
  shows "confined n t a (fst (then_do (load_tenant t a) f))"
  using load_tenant_cases[OF assms(1), of t] assms by auto

lemma tenant_for_conv_walk:
  assumes "app_ok a" and "\<And>x. tenant_at a t x \<Longrightarrow> startswith b (thread_prefix x) \<Longrightarrow> confined n t a (fst (f a x))"
  shows "confined n t a (fst (then_do (tenant_for_conv t b a) f))"
  unfolding tenant_for_conv_def then_do_assoc
  by (rule load_tenant_walk[OF assms(1)]) (auto intro: assms simp: assms(1))

lemma load_item_walk:
  assumes "app_ok a" and "\<And>x. dget (a_resources a) i = Some x \<Longrightarrow> re_tenant_id x = t \<Longrightarrow> re_id x = i \<Longrightarrow> confined n t a (fst (f a x))"
  shows "confined n t a (fst (then_do (load_item ok m t i a) f))"
  using assms store_lookup[of re_id "a_resources a" i] by (auto simp: load_item_def res_get_def app_ok_def split: option.split)

lemma load_source_walk:
  assumes "app_ok a" and "\<And>x. dget (a_sources a) i = Some x \<Longrightarrow> ds_tenant_id x = t \<Longrightarrow> ds_id x = i \<Longrightarrow> confined n t a (fst (f a x))"
  shows "confined n t a (fst (then_do (load_source t i a) f))"
  using assms store_lookup[of ds_id "a_sources a" i] by (auto simp: load_source_def src_get_def app_ok_def split: option.split)

lemma load_template_walk:
  assumes "app_ok a" and "\<And>x. dget (a_templates a) i = Some x \<Longrightarrow> mt_tenant_id x = t \<Longrightarrow> mt_id x = i \<Longrightarrow> confined n t a (fst (f a x))"
  shows "confined n t a (fst (then_do (load_template t i a) f))"
  using assms store_lookup[of mt_id "a_templates a" i] by (auto simp: load_template_def template_get_def app_ok_def split: option.split)

lemmas walk = guard_walk load_tenant_walk tenant_for_conv_walk load_item_walk load_source_walk load_template_walk pure_walk
  respond_walk return_walk if_walk

section \<open>Writes of one tenant\<close>

lemma tenant_write:
  assumes "app_ok a" and "tenant_at a t x" and "t_id y = t" and "t_slug y = t_slug x"
  shows "confined n t a (a\<lparr>a_tenants := dset (a_tenants a) t y\<rparr>)"
proof -
  let ?d = "dset (a_tenants a) t y"
  have ok: "store_ok t_id (a_tenants a)" "slugs_ok (a_tenants a)" using assms(1) by (simp_all add: app_ok_def)
  have d: "store_ok t_id ?d" using ok(1) assms(3) by (metis store_ok_dset)
  have old: "\<exists>w \<in> set (dvalues (a_tenants a)). t_slug w = t_slug v \<and> t_id w = t_id v" if "v \<in> set (dvalues ?d)" for v
  proof (cases "t_id v = t")
    case True
    then have "v = y" using store_lookup[OF d, of t v] that by simp
    with assms show ?thesis by (auto simp: tenant_at_def)
  next
    case False
    then have "dget (a_tenants a) (t_id v) = Some v" using store_lookup[OF d, of "t_id v" v] that by simp
    with store_lookup[OF ok(1)] show ?thesis by blast
  qed
  have "slugs_ok ?d" unfolding slugs_ok_def
  proof (intro conjI ballI impI)
    fix v assume "v \<in> set (dvalues ?d)"
    then show "58 \<notin> set (t_slug v)" using old ok(2) unfolding slugs_ok_def by metis
  next
    fix v w assume "v \<in> set (dvalues ?d)" "w \<in> set (dvalues ?d)" "t_slug v = t_slug w"
    then show "t_id v = t_id w" using old[of v] old[of w] ok(2) unfolding slugs_ok_def by metis
  qed
  with d assms(1) show ?thesis by (simp add: confined_def app_ok_def others_same_def same_view_def)
qed

lemma save_walk:
  assumes "app_ok a" and "tenant_at a t x" and "t_id y = t" and "t_slug y = t_slug x"
    and "\<And>a1. a1 = a\<lparr>a_tenants := dset (a_tenants a) t y\<rparr> \<Longrightarrow> app_ok a1 \<Longrightarrow> confined n t a1 (fst (f a1 y))"
  shows "confined n t a (fst (then_do (save_tenant y a) f))"
proof -
  let ?b = "a\<lparr>a_tenants := dset (a_tenants a) t y\<rparr>"
  have b: "confined n t a ?b" by (rule tenant_write[OF assms(1-4)])
  then have "confined n t ?b (fst (f ?b y))" by (intro assms(5)) (simp_all add: confined_def)
  with b have "confined n t a (fst (f ?b y))" by (rule confined_trans)
  then show ?thesis using assms(2,3) by (simp add: save_tenant_def mem_update_def tenant_at_def)
qed

lemma facts_write:
  assumes "app_ok a" and "\<And>f. f \<in> set fs \<Longrightarrow> f_tenant_id f = t"
  shows "confined n t a (a\<lparr>a_facts := foldl add_fact (a_facts a) fs\<rparr>)"
proof -
  have "foldl add_fact d fs = d @ fs" for d by (induction fs arbitrary: d) (simp_all add: add_fact_def)
  then show ?thesis using assms
    by (auto simp: confined_def app_ok_def others_same_def same_view_def all_for_def filter_empty_conv)
qed

lemma owned_write:
  assumes "\<And>x. dget d i = Some x \<Longrightarrow> f x = t" and "f v = t" and "t' \<noteq> t"
  shows "owned f t' (dset d i v) = owned f t' d"
  unfolding owned_def using assms by (intro filter_dset_other) auto

lemma owned_remove:
  assumes "store_ok ident d" and "\<And>x. dget d i = Some x \<Longrightarrow> f x = t" and "t' \<noteq> t"
  shows "owned f t' (dpop d i) = owned f t' d"
  unfolding owned_def using assms by (intro filter_dpop_other) (auto simp: store_ok_def)

text \<open>One store changes, to one that is well formed and in which the others' entries are as before.\<close>

definition touches :: "('a \<Rightarrow> pystr) \<Rightarrow> ('a \<Rightarrow> pystr) \<Rightarrow> pystr \<Rightarrow> 'a dict \<Rightarrow> 'a dict \<Rightarrow> bool" where
  "touches ident own t d d' \<longleftrightarrow> (store_ok ident d \<longrightarrow> store_ok ident d' \<and> (\<forall>t'. t' \<noteq> t \<longrightarrow> owned own t' d' = owned own t' d))"

lemma touches_refl [simp]: "touches ident own t d d"
  by (simp add: touches_def)

lemma touches_trans: "touches ident own t a b \<Longrightarrow> touches ident own t b c \<Longrightarrow> touches ident own t a c"
  by (simp add: touches_def)

lemma touches_put:
  "i = ident v \<Longrightarrow> own v = t \<Longrightarrow> (\<And>x. dget d i = Some x \<Longrightarrow> own x = t) \<Longrightarrow> touches ident own t d (dset d i v)"
  by (auto simp: touches_def store_ok_dset intro: owned_write)

lemma touches_pop: "(\<And>x. dget d i = Some x \<Longrightarrow> own x = t) \<Longrightarrow> touches ident own t d (dpop d i)"
  by (auto simp: touches_def store_ok_dpop intro: owned_remove)

lemma templates_write: "app_ok a \<Longrightarrow> touches mt_id mt_tenant_id t (a_templates a) d \<Longrightarrow> confined n t a (a\<lparr>a_templates := d\<rparr>)"
  by (simp add: confined_def app_ok_def touches_def others_same_def same_view_def)

lemma sources_write: "app_ok a \<Longrightarrow> touches ds_id ds_tenant_id t (a_sources a) d \<Longrightarrow> confined n t a (a\<lparr>a_sources := d\<rparr>)"
  by (simp add: confined_def app_ok_def touches_def others_same_def same_view_def)

lemma subs_write: "app_ok a \<Longrightarrow> touches su_id su_tenant_id t (a_subs a) d \<Longrightarrow> confined n t a (a\<lparr>a_subs := d\<rparr>)"
  by (simp add: confined_def app_ok_def touches_def others_same_def same_view_def)

lemma items_write: "app_ok a \<Longrightarrow> scoped t (a_resources a) d \<Longrightarrow> confined n t a (a\<lparr>a_resources := d\<rparr>)"
  by (simp add: confined_def app_ok_def others_same_def same_view_def scoped_def)

lemma entries_log: "ql_tenant_id e \<noteq> t \<Longrightarrow> entries_of t (fst (log_query l e)) = entries_of t l"
  by (simp add: entries_of_def log_query_def Let_def)

lemma queries_write:
  "app_ok a \<Longrightarrow> ql_tenant_id e = t \<Longrightarrow> confined n t a (a\<lparr>a_query_log := fst (log_query (a_query_log a) e)\<rparr>)"
  using log_query_ok by (auto simp: confined_def app_ok_def others_same_def same_view_def queries_of_def entries_log)

lemma filter_key_dset: "\<not> P k \<Longrightarrow> filter (\<lambda>p. P (fst p)) (dset d k v) = filter (\<lambda>p. P (fst p)) d"
  by (induction d) (auto simp: dset_def)

lemma filter_key_dpop: "\<not> P k \<Longrightarrow> filter (\<lambda>p. P (fst p)) (dpop d k) = filter (\<lambda>p. P (fst p)) d"
  by (induction d) (auto simp: dpop_def)

lemma pauses_write:
  assumes "app_ok a"
  shows "confined n t a (a\<lparr>a_pauses := pause (a_pauses a) t b u\<rparr>)" "confined n t a (a\<lparr>a_pauses := resume (a_pauses a) t b\<rparr>)"
proof -
  have "t' \<noteq> t \<Longrightarrow> pauses_of t' (dset d (t, b) x) = pauses_of t' d" for t' d x
    unfolding pauses_of_def by (rule filter_key_dset[where P = "\<lambda>k. fst k = t'"]) simp
  moreover have "t' \<noteq> t \<Longrightarrow> pauses_of t' (dpop d (t, b)) = pauses_of t' d" for t' d
    unfolding pauses_of_def by (rule filter_key_dpop[where P = "\<lambda>k. fst k = t'"]) simp
  ultimately show "confined n t a (a\<lparr>a_pauses := pause (a_pauses a) t b u\<rparr>)" "confined n t a (a\<lparr>a_pauses := resume (a_pauses a) t b\<rparr>)"
    using assms by (simp_all add: confined_def app_ok_def others_same_def same_view_def pause_def resume_def dict_ok_dset dict_ok_dpop)
qed

text \<open>A thread belongs to one tenant: the slug before the first colon decides.\<close>

lemma prefix_slug:
  assumes "startswith b (s @ (lit '':''))" and "58 \<notin> set s"
  shows "takeWhile (\<lambda>c. c \<noteq> 58) b = s"
proof -
  obtain r where "b = s @ 58 # r" using assms(1) by (auto simp: startswith_iff lit_def)
  then show ?thesis using assms(2) by (induction s arbitrary: b) auto
qed

lemma thread_owner:
  assumes "app_ok a" and "tenant_at a t x" and "tenant_at a t' y" and "startswith b (thread_prefix x)" and "startswith b (thread_prefix y)"
  shows "t = t'"
proof -
  have ok: "slugs_ok (a_tenants a)" using assms(1) by (simp add: app_ok_def)
  have "58 \<notin> set (t_slug x)" "58 \<notin> set (t_slug y)" using ok assms(2,3) unfolding slugs_ok_def tenant_at_def by blast+
  then have "t_slug x = t_slug y" using prefix_slug assms(4,5) by (metis thread_prefix_def)
  then show ?thesis using ok assms(2,3) unfolding slugs_ok_def tenant_at_def by blast
qed

lemma memory_write:
  assumes "app_ok a" and "tenant_at a t x" and "startswith b (thread_prefix x)"
  shows "confined n t a (a\<lparr>a_memory := remember (a_memory a) b i\<rparr>)"
proof -
  have "threads_of y (remember (a_memory a) b i) = threads_of y (a_memory a)"
    if "t' \<noteq> t" and y: "dget (a_tenants a) t' = Some y" for t' y
  proof -
    have "tenant_at a t' y" using assms(1) y store_lookup[of t_id "a_tenants a" t' y] by (simp add: tenant_at_def app_ok_def)
    then have "\<not> startswith b (thread_prefix y)" using thread_owner[OF assms(1,2) _ assms(3)] that(1) by blast
    then show ?thesis
      unfolding threads_of_def by (simp add: remember_def Let_def filter_key_dset[where P = "\<lambda>k. startswith k (thread_prefix y)"])
  qed
  moreover have "mem_max_items (remember (a_memory a) b i) = mem_max_items (a_memory a)"
    by (simp add: remember_def Let_def)
  moreover have "memory_ok (remember (a_memory a) b i)" using assms(1) by (intro ring.put_inv) (simp add: app_ok_def)
  ultimately show ?thesis using assms(1) by (simp add: confined_def app_ok_def others_same_def same_view_def)
qed

text \<open>The operations of the services that write several times.\<close>

definition writable :: "pystr \<Rightarrow> (nat \<Rightarrow> pystr) \<Rightarrow> resource_store \<Rightarrow> bool" where
  "writable t uids d \<longleftrightarrow> store_ok re_id d \<and> (\<forall>n. may_write t d (uids n))"

lemma upsert_writable:
  assumes "writable t uids d" and "re_tenant_id r = t" and "may_write t d (re_id r)"
  shows "scoped t d (upsert d r) \<and> writable t uids (upsert d r)"
proof -
  have ok: "store_ok re_id d" using assms(1) by (simp add: writable_def)
  have s: "scoped t d (upsert d r)" using scoped_upsert[OF ok, of r] assms(2,3) by simp
  moreover have "may_write t (upsert d r) (uids n)" for n
    using assms resources.put_get2[OF ok, of r "uids n"]
    by (auto simp: writable_def may_write_def res_get_def split: if_splits option.splits)
  ultimately show ?thesis using ok by (simp add: writable_def scoped_def)
qed

lemma sync_batch_scoped:
  assumes "writable t uids d" and "ds_tenant_id s = t"
  shows "scoped t d (store_raws sha s k now uids d raws) \<and> writable t uids (store_raws sha s k now uids d raws)"
proof (induction raws rule: rev_induct)
  case Nil
  then show ?case using assms by simp
next
  case (snoc raw raws)
  let ?d = "store_raws sha s k now uids d raws"
  have "scoped t ?d (upsert ?d r) \<and> writable t uids (upsert ?d r)" if "r = sync_resource sha s k now (uids (length raws)) raw" for r
    using snoc assms(2) that by (intro upsert_writable) (simp_all add: writable_def)
  then show ?case using snoc scoped_trans by (auto simp: store_raws_snoc)
qed

lemma subscribe_touches:
  assumes "dget d uid = None" and "subscribe_plan B d uid now later t p e = (d', r)"
  shows "touches su_id su_tenant_id t d d'"
proof -
  let ?s = "new_subscription uid now t"
  have put: "touches su_id su_tenant_id t (sub_add d (?s c e)) (dset (sub_add d (?s c e)) uid x)"
    if "su_id x = uid" "su_tenant_id x = t" for x c
    using that by (intro touches_put) (auto simp: sub_add_def new_subscription_def split: if_splits)
  have add: "touches su_id su_tenant_id t d (sub_add d (?s c e))" for c
    unfolding sub_add_def using assms(1) by (intro touches_put) (auto simp: new_subscription_def)
  show ?thesis
    using assms(2) add touches_trans[OF add put]
    by (auto simp: subscribe_plan_def sub_update_def Let_def sub_add_def[symmetric] new_subscription_def split: sum.splits option.splits if_splits)
qed

section \<open>Every route is confined (rq_now q) to its tenant\<close>

lemma reads_confined:
  assumes "app_ok a" and "ids_free q a"
  shows "confined (rq_now q) t a (fst (get_tenant t q a))" "confined (rq_now q) t a (fst (get_tenant_soul t q a))"
    "confined (rq_now q) t a (fst (get_tenant_handoff t q a))" "confined (rq_now q) t a (fst (list_catalog_facts t q a))"
    "confined (rq_now q) t a (fst (list_conversations t q a))" "confined (rq_now q) t a (fst (get_conversation_thread t b q a))"
    "confined (rq_now q) t a (fst (get_analytics t n q a))" "confined (rq_now q) t a (fst (list_templates t q a))"
    "confined (rq_now q) t a (fst (list_data_sources t q a))" "confined (rq_now q) t a (fst (list_resources t k n q a))"
    "confined (rq_now q) t a (fst (get_learning_insights t k n m l q a))" "confined (rq_now q) t a (fst (list_crm_contacts t n q a))"
    "confined (rq_now q) t a (fst (get_crm_contact t i q a))" "confined (rq_now q) t a (fst (list_crm_activities t i n q a))"
    "confined (rq_now q) t a (fst (get_crm_contact_by_phone t f q a))" "confined (rq_now q) t a (fst (list_crm_tasks_for_contact t i n q a))"
    "confined (rq_now q) t a (fst (list_crm_tasks_for_tenant t k n q a))" "confined (rq_now q) t a (fst (get_billing_overview B t q a))"
  unfolding get_tenant_def get_tenant_soul_def get_tenant_handoff_def list_catalog_facts_def list_conversations_def
    get_conversation_thread_def get_analytics_def list_templates_def list_data_sources_def list_resources_def
    get_learning_insights_def list_crm_contacts_def get_crm_contact_def list_crm_activities_def
    get_crm_contact_by_phone_def list_crm_tasks_for_contact_def list_crm_tasks_for_tenant_def get_billing_overview_def
  by (intro walk assms; auto simp: Let_def split: option.split)+

lemma tenant_routes_confined:
  assumes "app_ok a" and "ids_free q a"
  shows "confined (rq_now q) t a (fst (update_tenant t u q a))" "confined (rq_now q) t a (fst (update_tenant_soul t c q a))"
    "confined (rq_now q) t a (fst (update_tenant_handoff t h q a))" "confined (rq_now q) t a (fst (ingest_catalog_facts t r q a))"
  subgoal unfolding update_tenant_def Let_def
    by (intro walk save_walk assms; assumption?) (auto simp: tenant_at_def split: option.split)
  subgoal unfolding update_tenant_soul_def by (intro walk save_walk assms; assumption?) (auto simp: tenant_at_def)
  subgoal unfolding update_tenant_handoff_def by (intro walk save_walk assms; assumption?) (auto simp: tenant_at_def)
  subgoal unfolding ingest_catalog_facts_def Let_def by (intro walk facts_write assms) auto
  done

lemma inbox_routes_confined:
  assumes "app_ok a" and "ids_free q a"
  shows "confined (rq_now q) t a (fst (pause_bot t b h q a))" "confined (rq_now q) t a (fst (resume_bot t b q a))"
  unfolding pause_bot_def resume_bot_def
  by (intro walk assms; simp add: tenant_at_def pauses_write split: sum.split)+

lemma send_human_confined:
  assumes "app_ok a" and "ids_free q a"
  shows "confined (rq_now q) t a (fst (send_human_message snd_port t b x h q a))"
  unfolding send_human_message_def Let_def
proof (intro walk assms; assumption?)
  fix a1 y assume a1: "app_ok a1" and y: "tenant_at a1 t y" "startswith b (thread_prefix y)"
  obtain vid err where d: "deliver snd_port (split_from_number b) (strip x) (t_id y) = (vid, err)" by fastforce
  obtain a2 m where p: "pause_after h (t_id y) b (rq_now q) (a1, human_metadata vid err) = (a2, m)" by fastforce
  then have "confined (rq_now q) t a1 a2" and "a_tenants a2 = a_tenants a1"
    using a1 y(1) pauses_write(1)[OF a1, of _ t b]
    by (auto simp: pause_after_def tenant_at_def split: option.splits if_splits sum.splits)
  then have "confined (rq_now q) t a1 (a2\<lparr>a_memory := remember (a_memory a2) b i\<rparr>)" for i
    using y by (intro confined_trans[OF _ memory_write]) (auto simp: confined_def tenant_at_def)
  then show "confined (rq_now q) t a1 (fst (case deliver snd_port (split_from_number b) (strip x) (t_id y) of
      (vendor_message_id, delivery_error) \<Rightarrow>
        case pause_after h (t_id y) b (rq_now q) (a1, human_metadata vendor_message_id delivery_error) of
          (a, metadata) \<Rightarrow>
            (a\<lparr>a_memory := remember (a_memory a) b \<lparr>bi_text = strip x, bi_role = Agent, bi_at = rq_now q, bi_metadata = metadata\<rparr>\<rparr>,
             Inr (turn_out (lit ''agent'') (strip x) (rq_now q) metadata))))"
    by (simp add: d p)
qed simp

lemma patch_template_sel [simp]:
  "mt_id (patch_template now u m) = mt_id m" "mt_tenant_id (patch_template now u m) = mt_tenant_id m"
  by (simp_all add: patch_template_def)

lemma templates_confined:
  assumes "app_ok a" and "ids_free q a"
  shows "confined (rq_now q) t a (fst (create_template t r q a))" "confined (rq_now q) t a (fst (update_template t i u q a))"
    "confined (rq_now q) t a (fst (delete_template t i q a))"
  subgoal unfolding create_template_def
    by (intro walk assms; assumption?) (auto simp: template_add_def ids_free_def intro!: templates_write touches_put)
  subgoal unfolding update_template_def
    by (intro walk assms; assumption?) (auto simp: template_update_def intro!: templates_write touches_put)
  subgoal unfolding delete_template_def
    by (intro walk assms templates_write; assumption?) (auto simp: template_delete_def intro!: touches_pop)
  done

lemma sources_confined:
  assumes "app_ok a" and "ids_free q a"
  shows "confined (rq_now q) t a (fst (create_data_source t s q a))" "confined (rq_now q) t a (fst (delete_data_source t i q a))"
  subgoal unfolding create_data_source_def Let_def
    by (intro walk assms sources_write; assumption?) (auto simp: src_add_def ids_free_def intro!: touches_put)
  subgoal unfolding delete_data_source_def
    by (intro walk assms sources_write; assumption?) (auto simp: src_delete_def intro!: touches_pop)
  done

lemma item_upsert_confined:
  "app_ok a \<Longrightarrow> re_tenant_id r = t \<Longrightarrow> may_write t (a_resources a) (re_id r) \<Longrightarrow> confined n t a (a\<lparr>a_resources := upsert (a_resources a) r\<rparr>)"
  using scoped_upsert[of "a_resources a" r] by (intro items_write) (auto simp: app_ok_def)

lemma item_delete_confined:
  "app_ok a \<Longrightarrow> may_write t (a_resources a) i \<Longrightarrow> confined n t a (a\<lparr>a_resources := res_delete (a_resources a) i\<rparr>)"
  by (intro items_write scoped_delete) (auto simp: app_ok_def)

lemma items_confined:
  assumes "app_ok a" and "ids_free q a"
  shows "confined (rq_now q) t a (fst (create_resource t v q a))" "confined (rq_now q) t a (fst (search_resources t w q a))"
    "confined (rq_now q) t a (fst (delete_resource t i q a))" "confined (rq_now q) t a (fst (patch_crm_task t i p q a))"
    "confined (rq_now q) t a (fst (delete_crm_task t i q a))"
  subgoal unfolding create_resource_def Let_def
    by (intro walk assms item_upsert_confined; assumption?) (auto simp: manual_resource_def may_write_def ids_free_def)
  subgoal unfolding search_resources_def
    by (intro walk assms; assumption?) (auto intro: queries_write split: sum.split)
  subgoal unfolding delete_resource_def
    by (intro walk assms item_delete_confined; assumption?) (auto simp: may_write_def)
  subgoal unfolding patch_crm_task_def load_task_resource_def Let_def
    by (intro walk assms item_upsert_confined; assumption?) (auto simp: may_write_def)
  subgoal unfolding delete_crm_task_def load_task_resource_def
    by (intro walk assms item_delete_confined; assumption?) (auto simp: may_write_def)
  done

lemma sync_confined:
  assumes "app_ok a" and "ids_free q a"
  shows "confined (rq_now q) t a (fst (sync_data_source http sp sha t i q a))"
  unfolding sync_data_source_def
proof (intro walk assms; assumption?)
  fix a x assume a: "app_ok a" "ids_free q a" and x: "dget (a_sources a) i = Some x" "ds_tenant_id x = t" "ds_id x = i"
  obtain d ss r where s: "sync http sp sha (rq_uids q) (rq_now q) (a_resources a) (a_sources a) i = (d, ss, r)"
    by (cases "sync http sp sha (rq_uids q) (rq_now q) (a_resources a) (a_sources a) i") auto
  have "scoped t (a_resources a) (store_raws sha x k now (rq_uids q) (a_resources a) raws)" for k now raws
    using a x sync_batch_scoped[of t "rq_uids q" "a_resources a" x] by (simp add: app_ok_def ids_free_def may_write_def writable_def)
  then have "scoped t (a_resources a) d"
    using s x by (auto simp: sync_def src_get_def src_update_def Let_def split: sum.splits exn.splits if_splits)
  then have d: "confined (rq_now q) t a (a\<lparr>a_resources := d\<rparr>)" by (rule items_write[OF a(1)])
  have "touches ds_id ds_tenant_id t (a_sources a) ss"
    using s x by (auto simp: sync_def src_get_def src_update_def Let_def split: sum.splits exn.splits if_splits intro!: touches_put)
  then have "confined (rq_now q) t (a\<lparr>a_resources := d\<rparr>) (a\<lparr>a_resources := d, a_sources := ss\<rparr>)"
    using d sources_write[of "a\<lparr>a_resources := d\<rparr>" t ss "rq_now q"] by (simp add: confined_def)
  with d have "confined (rq_now q) t a (a\<lparr>a_resources := d, a_sources := ss\<rparr>)" by (rule confined_trans)
  then show "confined (rq_now q) t a (fst (case sync http sp sha (rq_uids q) (rq_now q) (a_resources a) (a_sources a) i of
      (d, ss, r) \<Rightarrow> let a = a\<lparr>a_resources := d, a_sources := ss\<rparr> in case r of
         Inl (KeyError m) \<Rightarrow> (a, Inl (HTTPException 404 (lit ''source not found''))) | Inl e \<Rightarrow> (a, Inl e)
       | Inr report \<Rightarrow> (a, Inr (report_out report))))"
    by (simp add: s Let_def split: sum.split exn.split)
qed

lemma billing_confined:
  assumes "app_ok a" and "ids_free q a"
  shows "confined (rq_now q) t a (fst (post_subscribe B t p e q a))" "confined (rq_now q) t a (fst (cancel_subscription B t i q a))"
proof -
  show "confined (rq_now q) t a (fst (post_subscribe B t p e q a))"
    unfolding post_subscribe_def
  proof (intro walk assms; assumption?)
    fix a P assume a: "app_ok a" "ids_free q a"
    obtain d r where s: "subscribe_plan P (a_subs a) (rq_uids q 0) (rq_now q) (rq_now q) t p e = (d, r)" by fastforce
    then have "confined (rq_now q) t a (a\<lparr>a_subs := d\<rparr>)"
      using a by (intro subs_write subscribe_touches) (auto simp: ids_free_def)
    with a(1) s show "confined (rq_now q) t a (fst (case get_plan p of Inl e \<Rightarrow> (a, Inl (HTTPException 400 (exn_text e)))
        | Inr _ \<Rightarrow> (case subscribe_plan P (a_subs a) (rq_uids q 0) (rq_now q) (rq_now q) t p e of
              (d, r) \<Rightarrow> (a\<lparr>a_subs := d\<rparr>,
                 case r of Inl (BillingConflictError m) \<Rightarrow> Inl (HTTPException 409 m)
                 | Inl (MercadoPagoError m) \<Rightarrow> Inl (HTTPException 502 (take 300 m)) | Inl e \<Rightarrow> Inl e
                 | Inr (s, init_point) \<Rightarrow> Inr (JObj [((lit ''subscription''), subscription_out s), ((lit ''init_point''), JStr init_point)])))))"
      by (simp split: sum.split)
  qed
  show "confined (rq_now q) t a (fst (cancel_subscription B t i q a))"
    unfolding cancel_subscription_def
  proof (intro walk assms; assumption?)
    fix a assume a: "app_ok a"
    have i: "su_id s = i" if "dget (a_subs a) i = Some s" for s
      using that a store_lookup[of su_id "a_subs a" i s] by (simp add: app_ok_def)
    have "touches su_id su_tenant_id t (a_subs a) d" if "cancel (a_subs a) (rq_now q) t i = Inr (d, s)" for d s
      using that by (auto simp: cancel_def sub_get_def sub_update_def i split: option.splits if_splits intro!: touches_put)
    with a show "confined (rq_now q) t a (fst (case cancel (a_subs a) (rq_now q) t i of
        Inl (KeyError m) \<Rightarrow> (a, Inl (HTTPException 404 (exn_text (KeyError m)))) | Inl e \<Rightarrow> (a, Inl e)
      | Inr (d, s) \<Rightarrow> (a\<lparr>a_subs := d\<rparr>, Inr (subscription_out s))))"
      by (auto intro: subs_write split: sum.split exn.split)
  qed
qed

theorem serve_confined: "app_ok a \<Longrightarrow> ids_free q a \<Longrightarrow> confined (rq_now q) t a (fst (serve W t c q a))"
  by (cases c; simp add: respond_walk reads_confined tenant_routes_confined inbox_routes_confined send_human_confined
      templates_confined sources_confined items_confined sync_confined billing_confined)

end
