(* ===== verification/Api_Isolation.thy ===== *)
theory Api_Isolation
  imports Api_Views
begin

text \<open>
  The answer of a tenant route depends on the view of its tenant and on the caller only; with
  \<open>Api_Views\<close>, requests of other tenants are invisible to it. The two lemmas are the output
  consistency and the local respect of a noninterference argument.
\<close>

section \<open>What the stores answer is a function of the view\<close>

lemma find_filter: "(\<And>x. P x \<Longrightarrow> Q x) \<Longrightarrow> find P xs = find P (filter Q xs)"
  by (induction xs) auto

lemma find_by_view:
  "items_of t d = items_of t d' \<Longrightarrow> find_by_external_id d t k x = find_by_external_id d' t k x"
  unfolding find_by_external_id_def items_of_def
  by (metis (mono_tags, lifting) find_filter[where Q = "\<lambda>r. re_tenant_id r = t"])

lemma list_by_view: "items_of t d = items_of t d' \<Longrightarrow> res_list_for d t k n = res_list_for d' t k n"
proof -
  have "filter (\<lambda>r. re_tenant_id r = t \<and> re_status r = (lit ''active'') \<and> (k = None \<or> k = Some (re_kind r))) (dvalues d) =
      filter (\<lambda>r. re_status r = (lit ''active'') \<and> (k = None \<or> k = Some (re_kind r))) (items_of t d)" for d
    by (simp add: items_of_def conj_commute conj_left_commute)
  then show "items_of t d = items_of t d' \<Longrightarrow> ?thesis" by (simp add: res_list_for_def)
qed

lemma search_by_view: "items_of t d = items_of t d' \<Longrightarrow> res_search d t f x k n = res_search d' t f x k n"
  using list_by_view[of t d d' k 10000] by (simp add: res_search_def)

lemma recent_by_view:
  assumes "log_ok q"
  shows "map (\<lambda>e. e\<lparr>ql_id := None\<rparr>) (list_recent q t n) = slice_to (rev (sort_key ql_created_at (queries_of t q))) n"
proof -
  have "sorted_wrt (\<lambda>x y. (case ql_id x of None \<Rightarrow> 0 | Some i \<Rightarrow> i) < (case ql_id y of None \<Rightarrow> 0 | Some i \<Rightarrow> i)) (qg_entries q)"
    using assms by (simp add: log_ok_def sorted_wrt_iff_nth_less)
  note serial = sort_desc_serial[OF sorted_wrt_filter[OF this], of ql_created_at "\<lambda>e. ql_tenant_id e = t"]
  have "map (\<lambda>e. e\<lparr>ql_id := None\<rparr>) (slice_to xs n) = slice_to (map (\<lambda>e. e\<lparr>ql_id := None\<rparr>) xs) n" for xs :: "query_log_entry list"
    by (simp add: slice_to_def take_map)
  then show ?thesis by (simp add: list_recent_def serial queries_of_def entries_of_def sort_key_map rev_map)
qed

lemma top_keys_by_view:
  assumes "log_ok q" and "log_ok q'" and "queries_of t q = queries_of t q'"
  shows "top_filter_keys q t now w n = top_filter_keys q' t now w n"
proof -
  have "map (\<lambda>e. e\<lparr>ql_id := None\<rparr>) (list_recent q t m) = map (\<lambda>e. e\<lparr>ql_id := None\<rparr>) (list_recent q' t m)" for m
    using recent_by_view assms by simp
  note recent = this
  have "fold (\<lambda>e. f (ql_filters e)) (filter (\<lambda>e. \<not> ql_created_at e < m) es) =
    fold (\<lambda>e. f (ql_filters e)) (filter (\<lambda>e. \<not> ql_created_at e < m) (map (\<lambda>e. e\<lparr>ql_id := None\<rparr>) es))" for f :: "json dict \<Rightarrow> 'b \<Rightarrow> 'b" and m es
    by (simp add: filter_map fold_map comp_def)
  note erase = this
  show ?thesis
    unfolding top_filter_keys_def Let_def erase[of _ _ "list_recent q t 500"] erase[of _ _ "list_recent q' t 500"] recent ..
qed

lemma learn_by_view:
  assumes "items_of t d = items_of t d'" and "queries_of t q = queries_of t q'" and "log_ok q" and "log_ok q'"
  shows "learn d q now t k n w m = learn d' q' now t k n w m"
    and "render_soul_hints d q now t k = render_soul_hints d' q' now t k"
proof -
  have "learn d q now t k n w m = learn d' q' now t k n w m" for n w m
    using list_by_view[OF assms(1)] top_keys_by_view[OF assms(3,4,2)] by (simp add: learn_def discover_schema_def)
  then show "learn d q now t k n w m = learn d' q' now t k n w m" "render_soul_hints d q now t k = render_soul_hints d' q' now t k"
    by (simp_all add: render_soul_hints_def)
qed

lemma entry_by_view:
  assumes "store_ok ident d" and "store_ok ident d'" and "owned own t d = owned own t d'"
  shows "dget d i = Some x \<and> own x = t \<longleftrightarrow> dget d' i = Some x \<and> own x = t"
proof -
  have "x \<in> set (owned own t d) \<longleftrightarrow> x \<in> set (owned own t d')" using assms(3) by simp
  then show ?thesis using store_lookup[OF assms(1), of i x] store_lookup[OF assms(2), of i x] by (auto simp: owned_def)
qed

lemma threads_by_view:
  assumes "threads_of x m = threads_of x m'"
  shows "list_threads m (Some (thread_prefix x)) n = list_threads m' (Some (thread_prefix x)) n"
    and "startswith b (thread_prefix x) \<Longrightarrow> recall m b l = recall m' b l"
proof -
  have skip: "List.map_filter (\<lambda>(b, c). if \<not> P b then None else f b c) s =
      List.map_filter (\<lambda>(b, c). f b c) (filter (\<lambda>p. P (fst p)) s)" for P and f :: "pystr \<Rightarrow> interaction list \<Rightarrow> 'c option" and s
    by (induction s) (auto simp: List.map_filter_simps split: option.split if_splits)
  show "list_threads m (Some (thread_prefix x)) n = list_threads m' (Some (thread_prefix x)) n"
    using assms by (simp add: list_threads_def skip threads_of_def)
  have get: "dget (filter (\<lambda>p. P (fst p)) s) b = dget s b" if "P b" for P and s :: "interaction list dict"
    using that by (induction s) (auto simp: dget_def)
  assume b: "startswith b (thread_prefix x)"
  have "recall m b l = limited l (dget_or (threads_of x m) b [])" for m
    using get[of "\<lambda>k. startswith k (thread_prefix x)" "mem_store m", OF b] by (simp add: recall_def dget_or_def threads_of_def)
  then show "recall m b l = recall m' b l" using assms by simp
qed

lemma thread_of_prefix:
  assumes "s \<in> set (list_threads m (Some p) n)"
  shows "startswith (ts_buyer_id s) p"
proof -
  have "set (list_threads m (Some p) n) \<subseteq> set (List.map_filter
        (\<lambda>(buyer_id, bucket). if \<not> startswith buyer_id p then None else if bucket = [] then None
           else Some \<lparr>ts_buyer_id = buyer_id, ts_message_count = length bucket,
                      ts_last_at = bi_at (last bucket), ts_last_text = preview (bi_text (last bucket))\<rparr>) (mem_store m))"
    (is "_ \<subseteq> set ?ts")
    using set_slice_to_subset[of "sort_desc ts_last_at ?ts" n] by (simp add: list_threads_def)
  then show ?thesis using assms by (force simp: List.map_filter_def split: if_splits prod.splits)
qed

lemma analytics_by_view:
  assumes "threads_of x m = threads_of x m'"
  shows "analytics_of x m now n = analytics_of x m' now n"
proof -
  let ?ts = "list_threads m (Some (thread_prefix x)) 100"
  have same: "?ts = list_threads m' (Some (thread_prefix x)) 100" by (rule threads_by_view(1)[OF assms])
  have "count_thread since m c s = count_thread since m' c s" if "s \<in> set ?ts" for since c s
    using threads_by_view(2)[OF assms thread_of_prefix[OF that]] by (simp add: count_thread_def)
  then have "count_threads since m ?ts = count_threads since m' ?ts" for since
    unfolding count_threads_def by (intro foldl_cong) auto
  with same show ?thesis by (simp add: analytics_of_def)
qed

lemma pauses_by_view:
  assumes "pauses_of t d = pauses_of t d'"
  shows "list_active d t now = list_active d' t now" and "pause_get d t b = pause_get d' t b"
proof -
  have "list_active d t now = map snd (filter (\<lambda>(_, p). bp_paused_until p > now) (pauses_of t d))" for d
    by (simp add: list_active_def pauses_of_def) (rule arg_cong[of _ _ "map snd"], induction d, auto)
  then show "list_active d t now = list_active d' t now" using assms by simp
  have "pause_get d t b = dget (pauses_of t d) (t, b)" for d
    by (induction d) (auto simp: pause_get_def pauses_of_def dget_def)
  then show "pause_get d t b = pause_get d' t b" using assms by simp
qed

lemma subs_by_view:
  assumes "owned su_tenant_id t d = owned su_tenant_id t d'"
  shows "sub_list_for d t = sub_list_for d' t" and "active_for_tenant d t = active_for_tenant d' t"
    and "current_for_tenant d t = current_for_tenant d' t"
  using assms by (simp_all add: sub_list_for_def active_for_tenant_def current_for_tenant_def owned_def)

section \<open>Walking through a handler in two states\<close>

definition alike :: "pystr \<Rightarrow> app \<Rightarrow> app \<Rightarrow> bool" where
  "alike t a b \<longleftrightarrow> app_ok a \<and> app_ok b \<and> same_view t a b"

lemma access_answer:
  "snd (assert_tenant_access q a t) =
     (if \<not> auth_required q then Inr (caller q a)
      else case caller q a of
             None \<Rightarrow> Inl (HTTPException 401 (lit ''authentication required''))
           | Some x \<Rightarrow> if u_role x = ADMIN then Inr (Some x)
                       else if u_tenant_id x \<noteq> Some t then Inl (HTTPException 403 (lit ''tenant access denied'')) else Inr (Some x))"
  by (auto simp: assert_tenant_access_def assert_authenticated_def caller_def then_do_def split: prod.splits option.splits)

lemma guard_two:
  assumes "alike t a b" and "caller q a = caller q b" and "\<And>a1 b1 u. alike t a1 b1 \<Longrightarrow> snd (f a1 u) = snd (f b1 u)"
  shows "snd (then_do (assert_tenant_access q a t) f) = snd (then_do (assert_tenant_access q b t) f)"
proof -
  obtain sa where a: "fst (assert_tenant_access q a t) = a\<lparr>a_sessions := sa\<rparr>" using guard_sessions[of q a t] by blast
  obtain sb where b: "fst (assert_tenant_access q b t) = b\<lparr>a_sessions := sb\<rparr>" using guard_sessions[of q b t] by blast
  have "alike t (a\<lparr>a_sessions := sa\<rparr>) (b\<lparr>a_sessions := sb\<rparr>)"
    using assms(1) by (simp add: alike_def app_ok_def same_view_def)
  moreover have "snd (assert_tenant_access q a t) = snd (assert_tenant_access q b t)"
    by (simp add: access_answer assms(2))
  ultimately show ?thesis
    using a b assms(3) by (cases "assert_tenant_access q a t"; cases "assert_tenant_access q b t") (auto simp: then_do_def split: sum.split)
qed

lemma pure_two: "r = r' \<Longrightarrow> (\<And>x. snd (f a x) = snd (f b x)) \<Longrightarrow> snd (then_do (a, r) f) = snd (then_do (b, r') f)"
  by (cases r') simp_all

lemma respond_two: "snd r = snd r' \<Longrightarrow> snd (respond_with f r) = snd (respond_with f r')"
  by (cases r; cases r'; cases "snd r") (auto simp: respond_with_def then_do_def)

lemma return_two: "r = r' \<Longrightarrow> snd (a, r) = snd (b, r')"
  by simp

lemma if_two:
  "P = Q \<Longrightarrow> (P \<Longrightarrow> snd x = snd x') \<Longrightarrow> (\<not> P \<Longrightarrow> snd y = snd y') \<Longrightarrow> snd (if P then x else y) = snd (if Q then x' else y')"
  by simp

lemma load_tenant_two:
  assumes "alike t a b" and "\<And>x. tenant_at a t x \<Longrightarrow> tenant_at b t x \<Longrightarrow> snd (f a x) = snd (f b x)"
  shows "snd (then_do (load_tenant t a) f) = snd (then_do (load_tenant t b) f)"
proof (cases "dget (a_tenants a) t")
  case None
  with assms(1) show ?thesis
    by (simp add: alike_def same_view_def load_tenant_def manager_get_def mem_tenants_def mem_get_def split: exn.split)
next
  case (Some x)
  then have "tenant_at a t x" "tenant_at b t x"
    using assms(1) store_lookup[of t_id "a_tenants a" t x] store_lookup[of t_id "a_tenants b" t x]
    by (simp_all add: alike_def app_ok_def same_view_def tenant_at_def)
  with assms(2) show ?thesis by (simp add: load_tenant_def manager_get_def mem_tenants_def mem_get_def tenant_at_def)
qed

lemma tenant_for_conv_two:
  assumes "alike t a b" and "\<And>x. tenant_at a t x \<Longrightarrow> tenant_at b t x \<Longrightarrow> startswith c (thread_prefix x) \<Longrightarrow> snd (f a x) = snd (f b x)"
  shows "snd (then_do (tenant_for_conv t c a) f) = snd (then_do (tenant_for_conv t c b) f)"
  unfolding tenant_for_conv_def then_do_assoc
  by (rule load_tenant_two[OF assms(1)]) (auto intro: assms(2))

lemma item_by_view: "alike t a b \<Longrightarrow> dget (a_resources a) i = Some x \<and> re_tenant_id x = t \<longleftrightarrow> dget (a_resources b) i = Some x \<and> re_tenant_id x = t"
  by (rule entry_by_view[of re_id]) (simp_all add: alike_def app_ok_def same_view_def owned_def items_of_def)

lemma source_by_view: "alike t a b \<Longrightarrow> dget (a_sources a) i = Some x \<and> ds_tenant_id x = t \<longleftrightarrow> dget (a_sources b) i = Some x \<and> ds_tenant_id x = t"
  by (rule entry_by_view[of ds_id]) (simp_all add: alike_def app_ok_def same_view_def)

lemma template_by_view: "alike t a b \<Longrightarrow> dget (a_templates a) i = Some x \<and> mt_tenant_id x = t \<longleftrightarrow> dget (a_templates b) i = Some x \<and> mt_tenant_id x = t"
  by (rule entry_by_view[of mt_id]) (simp_all add: alike_def app_ok_def same_view_def)

lemma sub_by_view: "alike t a b \<Longrightarrow> dget (a_subs a) i = Some x \<and> su_tenant_id x = t \<longleftrightarrow> dget (a_subs b) i = Some x \<and> su_tenant_id x = t"
  by (rule entry_by_view[of su_id]) (simp_all add: alike_def app_ok_def same_view_def)

lemma load_item_two:
  assumes "alike t a b" and "\<And>x. dget (a_resources a) i = Some x \<Longrightarrow> dget (a_resources b) i = Some x \<Longrightarrow> re_tenant_id x = t \<Longrightarrow> snd (f a x) = snd (f b x)"
  shows "snd (then_do (load_item ok m t i a) f) = snd (then_do (load_item ok m t i b) f)"
proof (cases "\<exists>x. dget (a_resources a) i = Some x \<and> re_tenant_id x = t")
  case True
  then obtain x where x: "dget (a_resources a) i = Some x" "re_tenant_id x = t" by blast
  then have "dget (a_resources b) i = Some x" using item_by_view[OF assms(1)] by blast
  with x assms(2)[OF x(1)] show ?thesis by (simp add: load_item_def res_get_def)
next
  case False
  then have "\<nexists>x. dget (a_resources b) i = Some x \<and> re_tenant_id x = t" using item_by_view[OF assms(1)] by blast
  with False show ?thesis by (auto simp: load_item_def res_get_def split: option.split)
qed

lemma load_source_two:
  assumes "alike t a b" and "\<And>x. dget (a_sources a) i = Some x \<Longrightarrow> dget (a_sources b) i = Some x \<Longrightarrow> ds_tenant_id x = t \<Longrightarrow> snd (f a x) = snd (f b x)"
  shows "snd (then_do (load_source t i a) f) = snd (then_do (load_source t i b) f)"
proof (cases "\<exists>x. dget (a_sources a) i = Some x \<and> ds_tenant_id x = t")
  case True
  then obtain x where x: "dget (a_sources a) i = Some x" "ds_tenant_id x = t" by blast
  then have "dget (a_sources b) i = Some x" using source_by_view[OF assms(1)] by blast
  with x assms(2)[OF x(1)] show ?thesis by (simp add: load_source_def src_get_def)
next
  case False
  then have "\<nexists>x. dget (a_sources b) i = Some x \<and> ds_tenant_id x = t" using source_by_view[OF assms(1)] by blast
  with False show ?thesis by (auto simp: load_source_def src_get_def split: option.split)
qed

lemma load_template_two:
  assumes "alike t a b" and "\<And>x. dget (a_templates a) i = Some x \<Longrightarrow> dget (a_templates b) i = Some x \<Longrightarrow> mt_tenant_id x = t \<Longrightarrow> mt_id x = i \<Longrightarrow> snd (f a x) = snd (f b x)"
  shows "snd (then_do (load_template t i a) f) = snd (then_do (load_template t i b) f)"
proof (cases "\<exists>x. dget (a_templates a) i = Some x \<and> mt_tenant_id x = t")
  case True
  then obtain x where x: "dget (a_templates a) i = Some x" "mt_tenant_id x = t" by blast
  then have "dget (a_templates b) i = Some x" using template_by_view[OF assms(1)] by blast
  with x assms(2)[OF x(1)] assms(1) store_lookup[of mt_id "a_templates a" i x] show ?thesis by (simp add: load_template_def template_get_def alike_def app_ok_def)
next
  case False
  then have "\<nexists>x. dget (a_templates b) i = Some x \<and> mt_tenant_id x = t" using template_by_view[OF assms(1)] by blast
  with False show ?thesis by (auto simp: load_template_def template_get_def split: option.split)
qed

lemmas walk_two = guard_two load_tenant_two tenant_for_conv_two load_item_two load_source_two load_template_two pure_two
  respond_two return_two if_two

lemma alike_stores:
  assumes "alike t a b"
  shows "items_of t (a_resources a) = items_of t (a_resources b)" "queries_of t (a_query_log a) = queries_of t (a_query_log b)"
    "pauses_of t (a_pauses a) = pauses_of t (a_pauses b)" "owned su_tenant_id t (a_subs a) = owned su_tenant_id t (a_subs b)"
    "dget (a_tenants a) t = dget (a_tenants b) t" "all_for (a_facts a) t = all_for (a_facts b) t"
    "template_list_for (a_templates a) t = template_list_for (a_templates b) t"
    "src_list_for (a_sources a) t = src_list_for (a_sources b) t"
proof -
  show "template_list_for (a_templates a) t = template_list_for (a_templates b) t" "src_list_for (a_sources a) t = src_list_for (a_sources b) t"
    using assms unfolding alike_def same_view_def owned_def template_list_for_def src_list_for_def by simp_all
qed (use assms in \<open>simp_all add: alike_def same_view_def\<close>)

lemma alike_logs: "alike t a b \<Longrightarrow> log_ok (a_query_log a)" "alike t a b \<Longrightarrow> log_ok (a_query_log b)"
  by (simp_all add: alike_def app_ok_def)

lemmas alike_views = alike_stores(5-8) list_by_view[OF alike_stores(1)] search_by_view[OF alike_stores(1)]
  find_by_view[OF alike_stores(1)] learn_by_view[OF alike_stores(1,2) alike_logs] pauses_by_view[OF alike_stores(3)]
  subs_by_view[OF alike_stores(4)]

lemma alike_threads:
  assumes "alike t a b" and "tenant_at a t x"
  shows "threads_of x (a_memory a) = threads_of x (a_memory b)"
  using assms by (simp add: alike_def same_view_def tenant_at_def)

section \<open>Output consistency\<close>

lemma reads_answer:
  assumes "alike t a b" and "caller q a = caller q b"
  shows "snd (get_tenant t q a) = snd (get_tenant t q b)" "snd (get_tenant_soul t q a) = snd (get_tenant_soul t q b)"
    "snd (get_tenant_handoff t q a) = snd (get_tenant_handoff t q b)" "snd (list_catalog_facts t q a) = snd (list_catalog_facts t q b)"
    "snd (list_templates t q a) = snd (list_templates t q b)" "snd (list_data_sources t q a) = snd (list_data_sources t q b)"
    "snd (list_resources t k n q a) = snd (list_resources t k n q b)"
    "snd (get_learning_insights t k n m l q a) = snd (get_learning_insights t k n m l q b)"
    "snd (list_crm_contacts t n q a) = snd (list_crm_contacts t n q b)" "snd (get_crm_contact t i q a) = snd (get_crm_contact t i q b)"
    "snd (list_crm_activities t i n q a) = snd (list_crm_activities t i n q b)"
    "snd (get_crm_contact_by_phone t g q a) = snd (get_crm_contact_by_phone t g q b)"
    "snd (list_crm_tasks_for_contact t i n q a) = snd (list_crm_tasks_for_contact t i n q b)"
    "snd (list_crm_tasks_for_tenant t k n q a) = snd (list_crm_tasks_for_tenant t k n q b)"
    "snd (get_billing_overview B t q a) = snd (get_billing_overview B t q b)"
  unfolding get_tenant_def get_tenant_soul_def get_tenant_handoff_def list_catalog_facts_def list_templates_def
    list_data_sources_def list_resources_def get_learning_insights_def list_crm_contacts_def get_crm_contact_def
    list_crm_activities_def get_crm_contact_by_phone_def list_crm_tasks_for_contact_def list_crm_tasks_for_tenant_def
    get_billing_overview_def Let_def
  by (intro walk_two assms; assumption?; simp add: alike_views soul_for_def manager_get_def mem_tenants_def mem_get_def
      split: option.split)+

lemma recall_alike:
  "alike t a b \<Longrightarrow> tenant_at a t x \<Longrightarrow> startswith c (thread_prefix x) \<Longrightarrow> recall (a_memory a) c l = recall (a_memory b) c l"
  by (rule threads_by_view(2)[OF alike_threads])

lemma tenant_at_id: "tenant_at a t x \<Longrightarrow> t_id x = t"
  by (simp add: tenant_at_def)

lemma inbox_answer:
  assumes "alike t a b" and "caller q a = caller q b"
  shows "snd (list_conversations t q a) = snd (list_conversations t q b)"
    "snd (get_conversation_thread t c q a) = snd (get_conversation_thread t c q b)"
    "snd (get_analytics t n q a) = snd (get_analytics t n q b)"
    "snd (send_human_message snd_port t c y h q a) = snd (send_human_message snd_port t c y h q b)"
    "snd (pause_bot t c k q a) = snd (pause_bot t c k q b)" "snd (resume_bot t c q a) = snd (resume_bot t c q b)"
  subgoal unfolding list_conversations_def Let_def
    by (intro walk_two assms; assumption?) (simp add: alike_views tenant_at_def threads_by_view(1)[OF alike_threads])
  subgoal unfolding get_conversation_thread_def Let_def
    by (intro walk_two assms; assumption?; frule tenant_at_id) (simp_all add: alike_views recall_alike)
  subgoal unfolding get_analytics_def
    by (intro walk_two assms; assumption?) (simp_all add: analytics_by_view[OF alike_threads])
  subgoal unfolding send_human_message_def Let_def
    by (intro walk_two assms; assumption?) (auto simp: pause_after_def split: prod.split option.split sum.split)
  subgoal unfolding pause_bot_def by (intro walk_two assms; assumption?) (auto split: sum.split)
  subgoal unfolding resume_bot_def by (intro walk_two assms; assumption?) auto
  done

lemma tenant_answer:
  assumes "alike t a b" and "caller q a = caller q b"
  shows "snd (update_tenant t u q a) = snd (update_tenant t u q b)" "snd (update_tenant_soul t c q a) = snd (update_tenant_soul t c q b)"
    "snd (update_tenant_handoff t h q a) = snd (update_tenant_handoff t h q b)"
    "snd (ingest_catalog_facts t r q a) = snd (ingest_catalog_facts t r q b)"
  unfolding update_tenant_def update_tenant_soul_def update_tenant_handoff_def ingest_catalog_facts_def Let_def
  by (intro walk_two assms; assumption?;
      auto simp: save_tenant_def mem_update_def tenant_at_def soul_for_def manager_get_def mem_tenants_def mem_get_def split: option.split)+

lemma add_by_view:
  assumes "template_list_for d (mt_tenant_id m) = template_list_for d' (mt_tenant_id m)"
  shows "and_then (template_add d m) (\<lambda>r. Inr (snd r)) = and_then (template_add d' m) (\<lambda>r. Inr (snd r))"
proof -
  have "(\<exists>x \<in> set (dvalues d). mt_tenant_id x = mt_tenant_id m \<and> mt_name x = mt_name m \<and> mt_language x = mt_language m)
      \<longleftrightarrow> (\<exists>x \<in> set (template_list_for d (mt_tenant_id m)). mt_name x = mt_name m \<and> mt_language x = mt_language m)" for d
    by (auto simp: template_list_for_def sort_desc_def)
  then show ?thesis using assms by (simp add: template_add_def)
qed

lemma stores_answer:
  assumes "alike t a b" and "caller q a = caller q b"
  shows "snd (update_template t i u q a) = snd (update_template t i u q b)"
    "snd (delete_template t i q a) = snd (delete_template t i q b)" "snd (create_data_source t s q a) = snd (create_data_source t s q b)"
    "snd (delete_data_source t i q a) = snd (delete_data_source t i q b)" "snd (create_resource t v q a) = snd (create_resource t v q b)"
    "snd (search_resources t w q a) = snd (search_resources t w q b)" "snd (delete_resource t i q a) = snd (delete_resource t i q b)"
    "snd (patch_crm_task t i p q a) = snd (patch_crm_task t i p q b)" "snd (delete_crm_task t i q a) = snd (delete_crm_task t i q b)"
  unfolding update_template_def delete_template_def create_data_source_def delete_data_source_def create_resource_def
    search_resources_def delete_resource_def patch_crm_task_def delete_crm_task_def load_task_resource_def Let_def
  by (intro walk_two assms; assumption?; simp add: alike_views template_update_def split: sum.split)+

lemma create_template_answer:
  assumes "alike t a b" and "caller q a = caller q b"
  shows "snd (create_template t r q a) = snd (create_template t r q b)"
  unfolding create_template_def
proof (intro walk_two assms; assumption?)
  fix a b assume "alike t a b"
  let ?m = "\<lparr>mt_id = rq_uids q 0, mt_tenant_id = t, mt_name = tp_name r, mt_language = tp_language r,
               mt_category = tp_category r, mt_body = tp_body r, mt_status = DRAFT, mt_vendor_template_id = None,
               mt_rejection_reason = None, mt_created_at = rq_now q, mt_submitted_at = None, mt_approved_at = None\<rparr>"
  have "and_then (template_add (a_templates a) ?m) (\<lambda>r. Inr (snd r)) = and_then (template_add (a_templates b) ?m) (\<lambda>r. Inr (snd r))"
    using alike_views(3)[OF \<open>alike t a b\<close>] by (intro add_by_view) simp
  then show "snd (case template_add (a_templates a) ?m of
         Inl (ValueError m) \<Rightarrow> (a, Inl (HTTPException 409 (exn_text (ValueError m)))) | Inl e \<Rightarrow> (a, Inl e)
       | Inr (d, saved) \<Rightarrow> (a\<lparr>a_templates := d\<rparr>, Inr (template_out saved))) =
     snd (case template_add (a_templates b) ?m of
         Inl (ValueError m) \<Rightarrow> (b, Inl (HTTPException 409 (exn_text (ValueError m)))) | Inl e \<Rightarrow> (b, Inl e)
       | Inr (d, saved) \<Rightarrow> (b\<lparr>a_templates := d\<rparr>, Inr (template_out saved)))"
    by (cases "template_add (a_templates a) ?m"; cases "template_add (a_templates b) ?m") (auto split: exn.split)
qed

text \<open>The report of a synchronisation is a function of the source and of what the fetch returns.\<close>

lemma sync_report:
  assumes "dget ss i = Some x" and "ds_id x = i" and "dget ss' i = Some x"
  shows "snd (snd (sync http sp sha uids now d ss i)) = snd (snd (sync http sp sha uids now d' ss' i))"
  using assms by (auto simp: sync_def src_get_def src_update_def Let_def split: sum.split exn.split)

lemma sync_answer:
  assumes "alike t a b" and "caller q a = caller q b"
  shows "snd (sync_data_source http sp sha t i q a) = snd (sync_data_source http sp sha t i q b)"
  unfolding sync_data_source_def
proof (intro walk_two assms; assumption?)
  fix a b x assume ab: "alike t a b" and x: "dget (a_sources a) i = Some x" "dget (a_sources b) i = Some x"
  let ?s = "\<lambda>a. sync http sp sha (rq_uids q) (rq_now q) (a_resources a) (a_sources a) i"
  have "ds_id x = i" using ab x(1) store_lookup[of ds_id "a_sources a" i x] by (simp add: alike_def app_ok_def)
  then have "snd (snd (?s a)) = snd (snd (?s b))" using x by (intro sync_report)
  then show "snd (case ?s a of (d, ss, r) \<Rightarrow> let a = a\<lparr>a_resources := d, a_sources := ss\<rparr> in case r of
         Inl (KeyError m) \<Rightarrow> (a, Inl (HTTPException 404 (lit ''source not found''))) | Inl e \<Rightarrow> (a, Inl e)
       | Inr report \<Rightarrow> (a, Inr (report_out report))) =
      snd (case ?s b of (d, ss, r) \<Rightarrow> let a = b\<lparr>a_resources := d, a_sources := ss\<rparr> in case r of
         Inl (KeyError m) \<Rightarrow> (a, Inl (HTTPException 404 (lit ''source not found''))) | Inl e \<Rightarrow> (a, Inl e)
       | Inr report \<Rightarrow> (a, Inr (report_out report)))"
    by (cases "?s a"; cases "?s b") (auto simp: Let_def split: sum.split exn.split)
qed

lemma subscribe_result:
  assumes "active_for_tenant d t = active_for_tenant d' t"
  shows "snd (subscribe_plan B d uid now later t p e) = snd (subscribe_plan B d' uid now later t p e)"
  using assms by (auto simp: subscribe_plan_def sub_update_def sub_add_def new_subscription_def Let_def split: sum.split option.split)

lemma billing_answer:
  assumes "alike t a b" and "caller q a = caller q b"
  shows "snd (post_subscribe B t p e q a) = snd (post_subscribe B t p e q b)"
    "snd (cancel_subscription B t i q a) = snd (cancel_subscription B t i q b)"
proof -
  show "snd (post_subscribe B t p e q a) = snd (post_subscribe B t p e q b)"
    unfolding post_subscribe_def
  proof (intro walk_two assms; assumption?)
    fix a b P assume "alike t a b"
    let ?s = "\<lambda>a. subscribe_plan P (a_subs a) (rq_uids q 0) (rq_now q) (rq_now q) t p e"
    let ?r = "\<lambda>r. case r of Inl (BillingConflictError m) \<Rightarrow> Inl (HTTPException 409 m)
                   | Inl (MercadoPagoError m) \<Rightarrow> Inl (HTTPException 502 (take 300 m)) | Inl e \<Rightarrow> Inl e
                   | Inr (s, init_point) \<Rightarrow> Inr (JObj [((lit ''subscription''), subscription_out s), ((lit ''init_point''), JStr init_point)])"
    have "snd (?s a) = snd (?s b)" by (rule subscribe_result[OF alike_views(13)[OF \<open>alike t a b\<close>]])
    then obtain da db r where "?s a = (da, r)" "?s b = (db, r)" by (metis prod.collapse)
    then show "snd (case get_plan p of Inl e \<Rightarrow> (a, Inl (HTTPException 400 (exn_text e)))
        | Inr _ \<Rightarrow> (case ?s a of (d, r) \<Rightarrow> (a\<lparr>a_subs := d\<rparr>, ?r r))) =
      snd (case get_plan p of Inl e \<Rightarrow> (b, Inl (HTTPException 400 (exn_text e)))
        | Inr _ \<Rightarrow> (case ?s b of (d, r) \<Rightarrow> (b\<lparr>a_subs := d\<rparr>, ?r r)))"
      by (cases "get_plan p") simp_all
  qed simp_all
  show "snd (cancel_subscription B t i q a) = snd (cancel_subscription B t i q b)"
    unfolding cancel_subscription_def
  proof (intro walk_two assms; assumption?)
    fix a b assume ab: "alike t a b"
    let ?c = "\<lambda>a. cancel (a_subs a) (rq_now q) t i"
    have "and_then (?c a) (\<lambda>r. Inr (snd r)) = and_then (?c b) (\<lambda>r. Inr (snd r))"
    proof (cases "\<exists>s. dget (a_subs a) i = Some s \<and> su_tenant_id s = t")
      case True
      then obtain s where s: "dget (a_subs a) i = Some s" "su_tenant_id s = t" by blast
      moreover have "dget (a_subs b) i = Some s" using s sub_by_view[OF ab] by blast
      moreover have "su_id s = i" using s(1) ab store_lookup[of su_id "a_subs a" i s] by (simp add: alike_def app_ok_def)
      ultimately show ?thesis by (simp add: cancel_def sub_get_def sub_update_def)
    next
      case False
      then have "\<nexists>s. dget (a_subs b) i = Some s \<and> su_tenant_id s = t" using sub_by_view[OF ab] by blast
      with False show ?thesis by (auto simp: cancel_def sub_get_def split: option.split)
    qed
    then show "snd (case ?c a of Inl (KeyError m) \<Rightarrow> (a, Inl (HTTPException 404 (exn_text (KeyError m)))) | Inl e \<Rightarrow> (a, Inl e)
          | Inr (d, s) \<Rightarrow> (a\<lparr>a_subs := d\<rparr>, Inr (subscription_out s))) =
        snd (case ?c b of Inl (KeyError m) \<Rightarrow> (b, Inl (HTTPException 404 (exn_text (KeyError m)))) | Inl e \<Rightarrow> (b, Inl e)
          | Inr (d, s) \<Rightarrow> (b\<lparr>a_subs := d\<rparr>, Inr (subscription_out s)))"
      by (cases "?c a"; cases "?c b") (auto split: exn.split)
  qed simp_all
qed

lemma serve_answer: "alike t a b \<Longrightarrow> caller q a = caller q b \<Longrightarrow> snd (serve W t c q a) = snd (serve W t c q b)"
  by (cases c; simp only: serve.simps; rule respond_two; rule reads_answer inbox_answer tenant_answer stores_answer
      create_template_answer sync_answer billing_answer; assumption)

section \<open>Requests of others are invisible\<close>

lemma caller_kept:
  assumes "confined n t a b" and "n \<le> rq_now q"
  shows "caller q b = caller q a"
proof -
  have us: "a_users b = a_users a" using assms(1) by (simp add: confined_def)
  have live: "session_get (a_sessions b) tok = Some s \<and> rq_now q < s_expires_at s \<and> user_get (a_users b) (s_user_id s) = Some u \<longleftrightarrow>
      session_get (a_sessions a) tok = Some s \<and> rq_now q < s_expires_at s \<and> user_get (a_users a) (s_user_id s) = Some u" for tok s u
  proof (cases "session_get (a_sessions b) tok = session_get (a_sessions a) tok")
    case True
    with us show ?thesis by simp
  next
    case False
    then have "session_get (a_sessions b) tok = None" "session_dead a n tok"
      using assms(1) by (simp_all add: confined_def)
    with assms(2) show ?thesis by (auto simp: session_dead_def)
  qed
  have "caller q b = Some u \<longleftrightarrow> caller q a = Some u" for u
    unfolding caller_iff by (intro iff_exI, rule conj_cong[OF refl], rule conj_cong[OF refl], rule live)
  then show ?thesis by (metis option.exhaust)
qed

end
