(* ===== verification/System.thy ===== *)
theory System
  imports Api_Isolation Inbound_Live
begin

text \<open>
  The process as a transition system: what happens on behalf of one tenant (a request of one of its
  routes, an inbound WhatsApp message, a background extraction), and what the operator, the log-in
  and the payment provider do. Reachable states are well formed, and what happens on behalf of
  other tenants is invisible to the next request of a tenant.
\<close>

section \<open>Messages and background jobs are confined\<close>

definition live_confined :: "deps \<Rightarrow> time \<Rightarrow> tenant \<Rightarrow> pystr \<Rightarrow> world \<Rightarrow> world \<Rightarrow> bool" where
  "live_confined D n x b w w' \<longleftrightarrow>
     (world_ok D w \<and> app_ok (w_app w) \<and> tenant_at (w_app w) (t_id x) x \<and> startswith b (thread_prefix x) \<longrightarrow>
        world_ok D w' \<and> confined n (t_id x) (w_app w) (w_app w') \<and> tenant_at (w_app w') (t_id x) x)"

lemma live_confined_refl: "live_confined D n x b w w"
  by (simp add: live_confined_def)

lemma live_confined_trans: "live_confined D n x b w1 w2 \<Longrightarrow> live_confined D n x b w2 w3 \<Longrightarrow> live_confined D n x b w1 w3"
  unfolding live_confined_def using confined_trans by (metis confined_def)

lemma live_confinedI:
  assumes "safe_step D (t_id x) b w w'" and "a_tenants (w_app w') = a_tenants (w_app w)"
    and "app_ok (w_app w) \<Longrightarrow> tenant_at (w_app w) (t_id x) x \<Longrightarrow> startswith b (thread_prefix x) \<Longrightarrow> world_ok D w \<Longrightarrow>
      confined n (t_id x) (w_app w) (w_app w')"
  shows "live_confined D n x b w w'"
  using assms by (auto simp: live_confined_def safe_step_def tenant_at_def)

lemma live_confined_same: "safe_step D (t_id x) b w w' \<Longrightarrow> w_app w' = w_app w \<Longrightarrow> live_confined D n x b w w'"
  by (rule live_confinedI) simp_all

lemma live_confined_items:
  assumes "safe_step D (t_id x) b w w'" and "\<exists>d. w_app w' = (w_app w)\<lparr>a_resources := d\<rparr>"
  shows "live_confined D n x b w w'"
proof -
  obtain d where d: "w_app w' = (w_app w)\<lparr>a_resources := d\<rparr>" using assms(2) by blast
  show ?thesis
  proof (rule live_confinedI[OF assms(1)])
    assume a: "app_ok (w_app w)" "world_ok D w"
    then have "world_ok D w' \<and> tenant_step (t_id x) b w w'" using assms(1) by (simp add: safe_step_def)
    then have "scoped (t_id x) (a_resources (w_app w)) d" by (simp add: world_ok_def tenant_step_def scoped_def d)
    with a show "confined n (t_id x) (w_app w) (w_app w')" unfolding d by (intro items_write)
  qed (simp add: d)
qed

lemma live_inbound_app: "\<exists>d. w_app (fst (live_inbound D now t f m i p w)) = (w_app w)\<lparr>a_resources := d\<rparr>"
  by (auto simp: live_inbound_def split: sum.split prod.split intro: exI[of _ "a_resources (w_app w)"])

lemma live_outbound_app: "\<exists>d. w_app (fst (live_outbound D now t f m i e w)) = (w_app w)\<lparr>a_resources := d\<rparr>"
  by (auto simp: live_outbound_def Let_def)

lemma live_send_app: "w_app (fst (live_send D now f m t w)) = w_app w"
  by (simp add: live_send_def split: prod.split)

interpretation live_conf: respectful_channel "live D now" "live_confined D n x b" x b
  for D :: deps and now n :: time and x :: tenant and b :: pystr
proof (unfold_locales, goal_cases)
  case (2 s1 s2 s3)
  then show ?case by (rule live_confined_trans)
next
  case (3 s i)
  show ?case unfolding live_sel
    by (rule live_confinedI[OF safe_remember]) (simp_all add: live_remember_def memory_write)
next
  case (8 s u)
  show ?case unfolding live_sel
    by (rule live_confinedI[OF safe_pause]) (simp_all add: live_pause_def pauses_write)
qed (simp_all add: live_confined_refl live_confined_items[OF safe_inbound live_inbound_app]
       live_confined_items[OF safe_outbound live_outbound_app] live_confined_same[OF safe_notify]
       live_confined_same[OF safe_send live_send_app] live_confined_same[OF safe_dispatch])

lemma buyer_prefix: "startswith (buyer_id_for (t_slug x) f) (thread_prefix x)"
  by (auto simp: buyer_id_for_def thread_prefix_def startswith_iff)

lemma message_confined:
  assumes "world_ok D w" and "app_ok (w_app w)" and "tenant_at (w_app w) (t_id x) x"
  shows "confined n (t_id x) (w_app w) (w_app (process_inbound (live D now) now x m w))"
proof -
  have "live_confined D n x (buyer_id_for (t_slug x) (im_from_number m)) w (process_inbound (live D now) now x m w)"
    by (rule live_conf.process_rel) simp
  then show ?thesis using assms buyer_prefix by (simp add: live_confined_def)
qed

text \<open>The background extraction: the patch of the contact, the tasks and the stage activity.\<close>

lemma write_tasks_writable:
  assumes "writable t uids d"
  shows "scoped t d (write_tasks d uids now t cid ts) \<and> writable t uids (write_tasks d uids now t cid ts)"
proof -
  have "scoped t d (fst (fold (write_task uids now t cid) nts (d, ks))) \<and> writable t uids (fst (fold (write_task uids now t cid) nts (d, ks)))"
    if "writable t uids d" for nts d ks
    using that
  proof (induction nts arbitrary: d ks)
    case (Cons nt nts)
    obtain n e where nt: "nt = (n, e)" by (cases nt)
    obtain d1 ks1 where s: "write_task uids now t cid nt (d, ks) = (d1, ks1)" by fastforce
    have "scoped t d d1 \<and> writable t uids d1"
      using s Cons.prems upsert_writable[OF Cons.prems, of "task_resource (uids n) now t cid e"]
      by (auto simp: write_task_def nt Let_def writable_def split: if_splits)
    then show ?case using Cons.IH[of d1 ks1] s scoped_trans by auto
  qed simp
  then show ?thesis using assms by (simp add: write_tasks_def)
qed

lemma extraction_confined:
  assumes "apply_extraction d uids now t cid r = Inr d'" and "writable t uids d"
  shows "scoped t d d'"
proof (cases "extraction_empty r \<or> res_get d cid = None \<or> (\<exists>c. res_get d cid = Some c \<and> re_tenant_id c \<noteq> t)")
  case True
  then show ?thesis using apply_idle[OF True] assms(1) by simp
next
  case False
  then obtain c where c: "\<not> extraction_empty r" "res_get d cid = Some c" "re_tenant_id c = t" by auto
  obtain d1 where d1: "patch_contact d now c r = Inr d1" and
    d': "d' = maybe_write_stage_activity (write_tasks d1 uids now t cid (ex_new_tasks r))
           (uids (length (ex_new_tasks r))) now t cid (ex_stage_transition r)"
    by (rule apply_run[OF assms(1) c])
  have "re_id c = cid" using c(2) assms(2) store_lookup[of re_id d cid c] by (simp add: res_get_def writable_def)
  then have "scoped t d (upsert d (c\<lparr>re_data := j, re_updated_at := now\<rparr>)) \<and> writable t uids (upsert d (c\<lparr>re_data := j, re_updated_at := now\<rparr>))" for j
    using c by (intro upsert_writable[OF assms(2)]) (simp_all add: may_write_def res_get_def)
  then have 1: "scoped t d d1" "writable t uids d1"
    using d1 assms(2) by (auto simp: patch_contact_def split: sum.splits prod.splits if_splits)
  define d2 where "d2 = write_tasks d1 uids now t cid (ex_new_tasks r)"
  have 2: "scoped t d1 d2" "writable t uids d2" using write_tasks_writable[OF 1(2)] by (simp_all add: d2_def)
  have "scoped t d2 d'"
    using upsert_writable[OF 2(2), of "stage_resource (uids (length (ex_new_tasks r))) now t cid s" for s] 2(2)
    unfolding d' d2_def[symmetric] by (auto simp: maybe_write_stage_activity_def writable_def split: option.split)
  then show ?thesis using 1(1) 2(1) scoped_trans by blast
qed

lemma job_confined:
  assumes "world_ok D w" and "app_ok (w_app w)"
  shows "confined n t (w_app w) (w_app (run_crm_extractor D now t b f w))"
proof -
  have "writable t (\<lambda>n. dp_uids D (w_ids w + n)) (a_resources (w_app w))"
    using assms world_ids[OF assms(1)] by (simp add: writable_def may_write_def app_ok_def)
  then show ?thesis
    using assms(2) by (auto simp: run_crm_extractor_def Let_def intro!: items_write extraction_confined
        split: option.split prod.split sum.split)
qed

section \<open>What moves the process\<close>

text \<open>
  What happens on behalf of tenant \<open>t\<close> at time \<open>n\<close>. \<open>W i\<close> is what the outside answers during the
  \<open>i\<close>-th call. Identifiers are fresh (\<open>uuid4\<close>): those a request draws by \<open>ids_free\<close>, those a message or
  a job draws by \<open>world_ok\<close>.
\<close>

inductive tenant_moves :: "(nat \<Rightarrow> 'n outside) \<Rightarrow> pystr \<Rightarrow> time \<Rightarrow> app \<Rightarrow> app \<Rightarrow> bool" for W where
  by_route: "ids_free q a \<Longrightarrow> tenant_moves W t (rq_now q) a (fst (serve (W i) t c q a))"
| by_message: "world_ok D w \<Longrightarrow> tenant_at (w_app w) (t_id x) x \<Longrightarrow>
    tenant_moves W (t_id x) n (w_app w) (w_app (process_inbound (live D n) n x m w))"
| by_job: "world_ok D w \<Longrightarrow> tenant_moves W t n (w_app w) (w_app (run_crm_extractor D n t b f w))"

lemma tenant_moves_confined: "tenant_moves W t n a a' \<Longrightarrow> app_ok a \<Longrightarrow> confined n t a a'"
  by (induction rule: tenant_moves.induct) (simp_all add: serve_confined message_confined job_confined)

text \<open>Any number of moves of tenants other than \<open>t\<close>, none after \<open>n\<close>.\<close>

inductive others_move :: "(nat \<Rightarrow> 'n outside) \<Rightarrow> pystr \<Rightarrow> time \<Rightarrow> app \<Rightarrow> app \<Rightarrow> bool" for W t n where
  no_move: "others_move W t n a a"
| one_move: "others_move W t n a b \<Longrightarrow> tenant_moves W t' n' b c \<Longrightarrow> t' \<noteq> t \<Longrightarrow> n' \<le> n \<Longrightarrow> others_move W t n a c"

section \<open>Noninterference by unwinding\<close>

text \<open>
  The argument in general: users act on a shared state, each has a view of it, and the answer to a
  question depends on the view of the user and on who asks. If an act of one user is invisible in the
  view of another and does not change who is asking, then any run of acts of other users leaves the
  answer as it is.
\<close>

locale unwinding =
  fixes acts :: "'u \<Rightarrow> time \<Rightarrow> 's \<Rightarrow> 's \<Rightarrow> bool" and ok :: "'s \<Rightarrow> bool" and view :: "'u \<Rightarrow> 's \<Rightarrow> 's \<Rightarrow> bool"
    and answer :: "'u \<Rightarrow> 'q \<Rightarrow> 's \<Rightarrow> 'r" and asked :: "'q \<Rightarrow> time" and who :: "'q \<Rightarrow> 's \<Rightarrow> 'c"
  assumes view_refl: "view u s s"
    and view_trans: "view u s1 s2 \<Longrightarrow> view u s2 s3 \<Longrightarrow> view u s1 s3"
    and acts_ok: "acts u n s s' \<Longrightarrow> ok s \<Longrightarrow> ok s'"
    and local_respect: "acts u' n s s' \<Longrightarrow> ok s \<Longrightarrow> u' \<noteq> u \<Longrightarrow> view u s s'"
    and caller_respect: "acts u' n s s' \<Longrightarrow> ok s \<Longrightarrow> n \<le> asked q \<Longrightarrow> who q s' = who q s"
    and output_consistent: "ok s \<Longrightarrow> ok s' \<Longrightarrow> view u s s' \<Longrightarrow> who q s = who q s' \<Longrightarrow> answer u q s = answer u q s'"
begin

lemma run_respects:
  "rtranclp (\<lambda>s s'. \<exists>u' n. acts u' n s s' \<and> u' \<noteq> u \<and> n \<le> asked q) s s' \<Longrightarrow> ok s \<Longrightarrow>
    ok s' \<and> view u s s' \<and> who q s' = who q s"
proof (induction rule: rtranclp_induct)
  case base
  then show ?case by (simp add: view_refl)
next
  case (step y z)
  then obtain u' n where y: "ok y" "view u s y" "who q y = who q s" and z: "acts u' n y z" "u' \<noteq> u" "n \<le> asked q" by blast
  then show ?case using acts_ok[OF z(1)] view_trans[OF y(2) local_respect] caller_respect by metis
qed

lemma noninterference:
  assumes "rtranclp (\<lambda>s s'. \<exists>u' n. acts u' n s s' \<and> u' \<noteq> u \<and> n \<le> asked q) s s'" and "ok s"
  shows "answer u q s' = answer u q s"
  using run_respects[OF assms] assms(2) by (metis output_consistent)

end

interpretation process: unwinding "tenant_moves W" app_ok same_view "\<lambda>t (c, q) a. snd (serve V t c q a)"
    "\<lambda>(c, q). rq_now q" "\<lambda>(c, q). caller q"
  for W :: "nat \<Rightarrow> 'n outside" and V :: "'m outside"
proof (unfold_locales, goal_cases)
  case (2 u s1 s2 s3)
  then show ?case by (rule same_view_trans)
next
  case (3 u n s s')
  then show ?case using tenant_moves_confined by (fastforce simp: confined_def)
next
  case (4 u' n s s' u)
  then show ?case using tenant_moves_confined[OF 4(1,2)] by (simp add: confined_def others_same_def)
next
  case (5 u' n s s' q)
  then show ?case using caller_kept[OF tenant_moves_confined[OF 5(1,2)]] by (auto split: prod.splits)
next
  case (6 s s' u q)
  then show ?case by (auto simp: alike_def split: prod.splits intro: serve_answer)
qed simp

lemma others_move_run:
  "others_move W t n a b \<Longrightarrow> rtranclp (\<lambda>s s'. \<exists>u' m. tenant_moves W u' m s s' \<and> u' \<noteq> t \<and> m \<le> n) a b"
  by (induction rule: others_move.induct) (auto intro: rtranclp.rtrancl_into_rtrancl)

lemma others_invisible:
  assumes "app_ok a" and "others_move W t (rq_now q) a b"
  shows "snd (serve V t c q b) = snd (serve V t c q a)"
  using process.noninterference[of W t "(c, q)" a b V] others_move_run[OF assms(2)] assms(1) by simp

section \<open>Reachable states\<close>

definition start_app :: app where
  "start_app = \<lparr>a_tenants = [], a_running = {}, a_bus = empty_bus, a_facts = [],
     a_memory = \<lparr>mem_max_items = 50, mem_dialectic_depth = 2, mem_store = []\<rparr>, a_pauses = [], a_templates = [],
     a_resources = [], a_sources = [], a_query_log = \<lparr>qg_entries = [], qg_next_id = 1\<rparr>,
     a_users = [], a_sessions = [], a_subs = []\<rparr>"

text \<open>
  The moves of the operator, of accounts and of the payment provider. A slug given to
  \<open>POST /tenants\<close> is not checked by the code; \<open>created\<close> asks that it has no colon.
\<close>

inductive reachable :: "(nat \<Rightarrow> 'n outside) \<Rightarrow> app \<Rightarrow> bool" for W where
  started: "reachable W start_app"
| moved: "reachable W a \<Longrightarrow> tenant_moves W t n a b \<Longrightarrow> reachable W b"
| created: "reachable W a \<Longrightarrow> dget (a_tenants a) (rq_uids q 0) = None \<Longrightarrow> 58 \<notin> set (tc_slug r) \<Longrightarrow>
    reachable W (fst (create_tenant r q a))"
| connected: "reachable W a \<Longrightarrow> dget (a_tenants a) (rq_uids q 0) = None \<Longrightarrow> connect_whatsapp p q a = Some (b, r) \<Longrightarrow> reachable W b"
| listed: "reachable W a \<Longrightarrow> reachable W (fst (list_tenants q a))"
| logged_in: "reachable W a \<Longrightarrow> reachable W (fst (auth_login bc e pw q a))"
| logged_out: "reachable W a \<Longrightarrow> reachable W (fst (auth_logout q a))"
| identified: "reachable W a \<Longrightarrow> reachable W (fst (auth_me q a))"
| registered: "reachable W a \<Longrightarrow> reachable W (fst (auth_register bc u q a))"
| notified: "reachable W a \<Longrightarrow> reachable W (fst (mp_webhook B hm prs body sig rid q a))"
| skilled: "reachable W a \<Longrightarrow> reachable W (fst (invoke_skill name c ps q a))"
| judged: "reachable W a \<Longrightarrow> reachable W (fst (evaluate_goal g q a))"

lemma users_sessions_ok [simp]: "app_ok (a\<lparr>a_sessions := ss\<rparr>) = app_ok a" "app_ok (a\<lparr>a_users := us\<rparr>) = app_ok a"
  by (simp_all add: app_ok_def)

lemma guard_app_ok: "guard_only q a a' \<Longrightarrow> app_ok a' = app_ok a"
  by (auto simp: guard_only_def)

lemma after_admin_ok:
  assumes "app_ok a" and "\<And>ss u. app_ok (a\<lparr>a_sessions := ss\<rparr>) \<Longrightarrow> app_ok (fst (f (a\<lparr>a_sessions := ss\<rparr>) u))"
  shows "app_ok (fst (then_do (assert_admin q a) f))"
proof -
  obtain a1 r where g: "assert_admin q a = (a1, r)" by (cases "assert_admin q a")
  then obtain ss where "a1 = a\<lparr>a_sessions := ss\<rparr>" using admin_state[of q a] by (auto simp: guard_only_def)
  with g assms show ?thesis by (cases r) simp_all
qed

lemma slugs_ok_iff: "slugs_ok d \<longleftrightarrow> (\<forall>x \<in> set (mem_list_all d). 58 \<notin> set (t_slug x)) \<and> slugs_unique (set (mem_list_all d))"
  by (simp add: slugs_ok_def slugs_unique_def mem_list_all_def)

lemma tenants_ok: "app_ok (a\<lparr>a_tenants := d\<rparr>) \<longleftrightarrow> app_ok (a\<lparr>a_tenants := []\<rparr>) \<and> store_ok t_id d \<and> slugs_ok d"
  by (auto simp: app_ok_def slugs_ok_def store_ok_def dict_ok_def dvalues_def)

lemma create_ok:
  assumes "store_ok t_id d" and "slugs_ok d" and "dget d uid = None" and "58 \<notin> set slug"
    and "create mem_tenants d uid now name slug model = Inr (d', t)"
  shows "store_ok t_id d' \<and> slugs_ok d' \<and> dget d' uid = Some t \<and> t_id t = uid \<and> t_slug t = slug"
proof -
  note k = mem_repo.create_keeps[of d uid now name slug model d' t]
  have "slugs_unique (set (mem_list_all d))" "mem_get d uid = None" using assms(2,3) by (simp_all add: slugs_ok_iff mem_get_def)
  then have c: "store_ok t_id d'" "slugs_unique (set (mem_list_all d'))" "mem_get d' uid = Some t" "t_slug t = slug"
    "set (mem_list_all d') = insert t (set (mem_list_all d))"
    using k assms(1,5) unfolding mem_tenants_simps by blast+
  then have "t_id t = uid" using store_lookup[of t_id d' uid t] by (simp add: mem_get_def)
  moreover have "slugs_ok d'" unfolding slugs_ok_iff using c(2,4,5) assms(2,4) by (auto simp: slugs_ok_iff)
  ultimately show ?thesis using c by (simp add: mem_get_def)
qed

lemma create_tenant_ok:
  assumes "app_ok a" and "dget (a_tenants a) (rq_uids q 0) = None" and "58 \<notin> set (tc_slug r)"
  shows "app_ok (fst (create_tenant r q a))"
  unfolding create_tenant_def
proof (rule after_admin_ok[OF assms(1)])
  fix ss and u :: "user option"
  let ?b = "a\<lparr>a_sessions := ss\<rparr>"
  assume ok: "app_ok ?b"
  let ?c = "create mem_tenants (a_tenants ?b) (rq_uids q 0) (rq_now q) (tc_name r) (tc_slug r) (tc_model r)"
  have "app_ok (fst (then_do (save_tenant (t\<lparr>t_phone_number_id := p\<rparr>) (?b\<lparr>a_tenants := d\<rparr>)) (\<lambda>a t. (a, Inr (tenant_out t))))) \<and> app_ok (?b\<lparr>a_tenants := d\<rparr>)"
    if "?c = Inr (d, t)" for d t p
  proof -
    have d: "store_ok t_id d" "slugs_ok d" "dget d (rq_uids q 0) = Some t" "t_id t = rq_uids q 0" "t_slug t = tc_slug r"
      using create_ok[OF _ _ _ assms(3) that] assms(2) ok by (simp_all add: app_ok_def)
    then have "app_ok (?b\<lparr>a_tenants := d\<rparr>)" using ok by (simp add: app_ok_def)
    moreover from this have "confined 0 (rq_uids q 0) (?b\<lparr>a_tenants := d\<rparr>) (fst (then_do (save_tenant (t\<lparr>t_phone_number_id := p\<rparr>) (?b\<lparr>a_tenants := d\<rparr>)) (\<lambda>a t. (a, Inr (tenant_out t)))))"
      using d store_lookup[OF d(1)] by (intro save_walk[of _ _ t]) (auto simp: tenant_at_def)
    ultimately show ?thesis by (simp add: confined_def)
  qed
  with ok show "app_ok (fst (case ?c of
         Inl (ValueError m) \<Rightarrow> (?b, Inl (HTTPException 409 (exn_text (ValueError m)))) | Inl e \<Rightarrow> (?b, Inl e)
       | Inr (d, t) \<Rightarrow> (let a = ?b\<lparr>a_tenants := d\<rparr> in case tc_phone_number_id r of
                 Some p \<Rightarrow> if p = [] then (a, Inr (tenant_out t))
                   else then_do (save_tenant (t\<lparr>t_phone_number_id := Some p\<rparr>) a) (\<lambda>a t. (a, Inr (tenant_out t)))
               | None \<Rightarrow> (a, Inr (tenant_out t)))))"
    by (cases ?c) (auto simp: Let_def split: exn.split option.split)
qed

lemma candidate_no_colon: "58 \<notin> set (slug_candidate (slugify name) j)"
proof -
  have "c \<noteq> 58" if "c \<in> set (slugify name)" for c
    using slugify_ok[of name] that by (auto simp: slug_ok_def slug_char_def is_digit_def)
  then show ?thesis using nat_digits_range[of 58 j] by (auto simp: slug_candidate_def lit_def is_digit_def)
qed

lemma onboarding_ok:
  assumes "store_ok t_id d" and "slugs_ok d" and "dget d uid = None"
    and "onboarding_run mem_tenants d r b uid now tm p = Some (d', r', b', res)"
  shows "store_ok t_id d' \<and> slugs_ok d'"
proof (cases "mem_by_phone d (mp_phone_number_id p)")
  case (Some t)
  then show ?thesis using assms by (simp add: onboarding_run_def)
next
  case None
  obtain slug where slug: "unique_slug mem_tenants d (slugify (mp_business_name p)) = Some slug"
    using mem_repo.unique_slug_returns[OF assms(1)] by blast
  define t where "t = (new_tenant uid now (mp_business_name p) slug default_model)
    \<lparr>t_phone_number_id := Some (mp_phone_number_id p), t_status := ACTIVE\<rparr>"
  have l: "store_ok t_id d'" "set (mem_list_all d') = insert t (set (mem_list_all d))"
    using mem_repo.onboarding_fresh[OF assms(1) _ _ slug, of uid r b now tm] None assms(3,4) by (auto simp: t_def mem_get_def)
  have t: "t_slug t = slug" by (simp add: t_def new_tenant_def)
  have free: "slug \<notin> t_slug ` set (mem_list_all d)" and "58 \<notin> set slug"
    using mem_repo.unique_slug_free[OF assms(1) slug] candidate_no_colon by auto
  with assms(2) t have "slugs_ok d'" unfolding slugs_ok_iff l by (simp add: slugs_unique_insert)
  with l show ?thesis by simp
qed

lemma connect_ok:
  assumes "app_ok a" and "dget (a_tenants a) (rq_uids q 0) = None" and "connect_whatsapp p q a = Some (b, r)"
  shows "app_ok b"
proof -
  obtain a1 g where g: "assert_admin q a = (a1, g)" by (cases "assert_admin q a")
  then obtain ss where a1: "a1 = a\<lparr>a_sessions := ss\<rparr>" using admin_state[of q a] by (auto simp: guard_only_def)
  have "app_ok (a1\<lparr>a_tenants := d, a_running := x, a_bus := y\<rparr>)" if "store_ok t_id d \<and> slugs_ok d" for d x y
    using assms(1) that by (simp add: a1 app_ok_def)
  note new = this
  have ok: "store_ok t_id (a_tenants a1)" "slugs_ok (a_tenants a1)" "dget (a_tenants a1) (rq_uids q 0) = None" "app_ok a1"
    using assms(1,2) by (simp_all add: a1 app_ok_def)
  show ?thesis
  proof (cases g)
    case (Inl e)
    then show ?thesis using assms(3) ok by (simp add: connect_whatsapp_def g)
  next
    case (Inr u)
    then obtain d x y res where run: "onboarding_run mem_tenants (a_tenants a1) (a_running a1) (a_bus a1) (rq_uids q 0) (rq_now q) (rq_now q) p
        = Some (d, x, y, res)"
      using assms(3) by (auto simp: connect_whatsapp_def g split: option.splits)
    then have "b = a1\<lparr>a_tenants := d, a_running := x, a_bus := y\<rparr>"
      using assms(3) Inr by (cases res) (auto simp: connect_whatsapp_def g Let_def split: exn.splits)
    with onboarding_ok[OF _ _ _ run] new ok show ?thesis by blast
  qed
qed

lemma reconcile_ok:
  assumes "store_ok su_id d"
  shows "store_ok su_id (fst (reconcile P d n i))"
proof -
  have upd: "store_ok su_id d'" if "sub_update d s = Inr (d', s')" for s d' s'
    using that assms by (auto simp: sub_update_def store_ok_dset split: if_splits)
  show ?thesis
    using assms by (auto simp: reconcile_def Let_def split: option.split sum.split intro: upd)
qed

lemma webhook_state:
  "\<exists>d. fst (mp_webhook B hm prs body sig rid q a) = a\<lparr>a_subs := d\<rparr> \<and> (d = a_subs a \<or> (\<exists>P n i. d = fst (reconcile P (a_subs a) n i)))"
proof -
  have r: "\<exists>d. fst (case reconcile P (a_subs a) n i of (d, r) \<Rightarrow> (a\<lparr>a_subs := d\<rparr>, f r)) = a\<lparr>a_subs := d\<rparr>
      \<and> (d = a_subs a \<or> (\<exists>P n i. d = fst (reconcile P (a_subs a) n i)))" for P n i and f :: "subscription option res \<Rightarrow> json res"
    by (rule exI[of _ "fst (reconcile P (a_subs a) n i)"]) (auto split: prod.split)
  have s: "\<exists>d. a = a\<lparr>a_subs := d\<rparr> \<and> (d = a_subs a \<or> (\<exists>P n i. d = fst (reconcile P (a_subs a) n i)))"
    by (intro exI[of _ "a_subs a"]) simp
  have i: "\<exists>d. fst (if Q then x else y) = a\<lparr>a_subs := d\<rparr> \<and> (d = a_subs a \<or> (\<exists>P n i. d = fst (reconcile P (a_subs a) n i)))"
    if "\<exists>d. fst x = a\<lparr>a_subs := d\<rparr> \<and> (d = a_subs a \<or> (\<exists>P n i. d = fst (reconcile P (a_subs a) n i)))"
      "\<exists>d. fst y = a\<lparr>a_subs := d\<rparr> \<and> (d = a_subs a \<or> (\<exists>P n i. d = fst (reconcile P (a_subs a) n i)))"
    for Q and x y :: "json handled"
    using that by simp
  let ?h = "if body = [] then Some (JObj []) else prs body"
  show ?thesis
  proof (cases "\<exists>p. ?h = Some (JObj p)")
    case True
    then obtain p where p: "?h = Some (JObj p)" by blast
    show ?thesis
      unfolding mp_webhook_def p option.case json.case Let_def
      by (cases "verify_mp_signature hm (strip (getenv q ''MP_WEBHOOK_SECRET'' [])) sig rid (notification_data_id p)";
          simp only: sum.case; (cases B; simp only: option.case split: bool.split)?;
          (intro conjI impI i)?; (simp only: fst_conv, rule s)?; (rule r)?)
  next
    case False
    then have "?h = None \<or> (\<exists>j. ?h = Some j \<and> (\<forall>p. j \<noteq> JObj p))" by (cases ?h) auto
    then have "fst (mp_webhook B hm prs body sig rid q a) = a"
    proof (elim disjE exE conjE)
      assume "?h = None"
      then show ?thesis by (simp add: mp_webhook_def)
    next
      fix j assume "?h = Some j" "\<forall>p. j \<noteq> JObj p"
      then show ?thesis by (cases j) (simp_all add: mp_webhook_def)
    qed
    with s show ?thesis by simp
  qed
qed

lemma notify_ok: "app_ok a \<Longrightarrow> app_ok (fst (mp_webhook B hm prs body sig rid q a))"
  using webhook_state[of B hm prs body sig rid q a] reconcile_ok[of "a_subs a"] by (auto simp: app_ok_def)

lemma account_ok:
  assumes "app_ok a"
  shows "app_ok (fst (list_tenants q a))" "app_ok (fst (auth_login bc e pw q a))" "app_ok (fst (auth_logout q a))"
    "app_ok (fst (auth_me q a))" "app_ok (fst (auth_register bc u q a))"
proof -
  have opt: "app_ok b" if "optional_current_user q a = (b, x)" for b x
    using optional_user_state[of q a] that assms by (auto dest: guard_app_ok)
  then show "app_ok (fst (list_tenants q a))"
    using assms by (auto simp: list_tenants_def filter_visible_tenants_def then_do_def split: prod.split option.split)
  show "app_ok (fst (auth_login bc e pw q a))"
    using assms by (auto simp: auth_login_def split: sum.split exn.split)
  show "app_ok (fst (auth_logout q a))" using assms by (simp add: auth_logout_def split: option.split)
  show "app_ok (fst (auth_me q a))" using assms by (simp add: auth_me_def split: prod.split)
  show "app_ok (fst (auth_register bc u q a))"
    unfolding auth_register_def by (rule after_admin_ok[OF assms]) (auto split: sum.split exn.split)
qed

text \<open>The skills read the stores; a search adds an entry to the query log.\<close>

lemma host_log: "h' = h \<or> (\<exists>e. h' = h\<lparr>sk_query_log := fst (log_query (sk_query_log h) e)\<rparr>) \<Longrightarrow>
    \<exists>l. h' = h\<lparr>sk_query_log := l\<rparr> \<and> (log_ok (sk_query_log h) \<longrightarrow> log_ok l)"
  using log_query_ok by (elim disjE exE) (auto intro: exI[of _ "sk_query_log h"])

lemma search_host: "\<exists>l. fst (resource_search h now c p) = h\<lparr>sk_query_log := l\<rparr> \<and> (log_ok (sk_query_log h) \<longrightarrow> log_ok l)"
proof -
  let ?f = "if truthy (jget p ''filters'') then jget p ''filters'' else JObj []"
  have "fst (resource_search h now c p) = h \<or> (\<exists>e. fst (resource_search h now c p) = h\<lparr>sk_query_log := fst (log_query (sk_query_log h) e)\<rparr>)"
  proof (cases "truthy (jget c ''tenant_id'') \<and> (\<exists>filters. ?f = JObj filters)")
    case True
    then obtain filters where f: "truthy (jget c ''tenant_id'')" "?f = JObj filters" by blast
    show ?thesis
      unfolding resource_search_def f(2) json.case Let_def
      by (cases "string_or (jget p ''query'') [] (lit ''strip'')"; simp only: f(1) not_True_eq_False if_False sum.case;
          (cases "int_of_json (if truthy (jget p ''limit'') then jget p ''limit'' else JInt 5)"; simp only: sum.case)?;
          (simp only: fst_conv split: sum.split option.split, blast)?; simp)
  next
    case False
    then show ?thesis by (cases ?f) (simp_all add: resource_search_def Let_def)
  qed
  then show ?thesis by (rule host_log)
qed

lemma skill_host_kept: "\<exists>l. fst (invoke builtin_skills h now name c p) = h\<lparr>sk_query_log := l\<rparr> \<and> (log_ok (sk_query_log h) \<longrightarrow> log_ok l)"
proof -
  have same: "\<exists>l. h = h\<lparr>sk_query_log := l\<rparr> \<and> (log_ok (sk_query_log h) \<longrightarrow> log_ok l)" by (rule host_log) simp
  have "dget builtin_skills name \<in> {None, Some catalog_lookup, Some lead_qualifier, Some sales_closer, Some resource_search}"
    by (simp add: builtin_skills_def dget_def)
  then have "fst (invoke builtin_skills h now name c p) = h \<or> fst (invoke builtin_skills h now name c p) = fst (resource_search h now c p)"
    by (auto simp: invoke_def skill_get_def catalog_lookup_def lead_qualifier_def sales_closer_def)
  then show ?thesis
  proof
    assume "fst (invoke builtin_skills h now name c p) = h"
    then show ?thesis using same by simp
  qed (simp only: search_host)
qed

lemma skills_ok:
  assumes "app_ok a"
  shows "app_ok (fst (invoke_skill name c p q a))" "app_ok (fst (evaluate_goal g q a))"
proof -
  have ok: "app_ok (with_host h a)" if "\<exists>l. h = (skill_host_of a)\<lparr>sk_query_log := l\<rparr> \<and> (log_ok (sk_query_log (skill_host_of a)) \<longrightarrow> log_ok l)" for h
    using that assms by (auto simp: with_host_def skill_host_of_def app_ok_def)
  have kept: "\<exists>l. h = (skill_host_of a)\<lparr>sk_query_log := l\<rparr> \<and> (log_ok (sk_query_log (skill_host_of a)) \<longrightarrow> log_ok l)" if "invoke builtin_skills (skill_host_of a) n s c p = (h, r)" for h n s c p r
    using skill_host_kept[of "skill_host_of a" n s c p] that by simp
  show "app_ok (fst (invoke_skill name c p q a))"
  proof -
    obtain h r where i: "invoke builtin_skills (skill_host_of a) (rq_now q) name c p = (h, r)" by fastforce
    have "fst (invoke_skill name c p q a) = with_host h a" by (cases r) (simp_all add: invoke_skill_def client_invoke_skill_def i)
    with ok[OF kept[OF i]] show ?thesis by simp
  qed
  show "app_ok (fst (evaluate_goal g q a))"
  proof (cases "goal_type_of (gq_goal_type g)")
    case None
    with assms show ?thesis by (simp add: evaluate_goal_def)
  next
    case (Some y)
    obtain h r where i: "invoke builtin_skills (skill_host_of a) (rq_now q) (lit ''lead-qualifier'') [] [((lit ''message''), JStr (gq_message g))] = (h, r)"
      by fastforce
    have "fst (evaluate_goal g q a) = with_host h a" by (cases r) (simp_all add: evaluate_goal_def Some Let_def i)
    with ok[OF kept[OF i]] show ?thesis by simp
  qed
qed

lemma start_ok: "app_ok start_app"
  by (simp add: app_ok_def start_app_def store_ok_def dict_ok_def memory_ok_def slugs_ok_def dvalues_def log_ok_def)

lemma reachable_ok: "reachable W a \<Longrightarrow> app_ok a"
proof (induction rule: reachable.induct)
  case (moved a t n b)
  then show ?case using tenant_moves_confined[OF moved(2)] by (simp add: confined_def)
qed (simp_all add: start_ok create_tenant_ok connect_ok account_ok notify_ok skills_ok)

end
