(* ===== verification/Redaction.thy ===== *)
theory Redaction
  imports Py_String "HOL-Library.Sublist"
begin

text \<open>
  \<open>security/log_filter.py\<close>: the filter that masks secrets in log records. The four patterns are kept as
  the data they are, regular expressions, over a backtracking matcher with the priorities of
  Python's \<open>re\<close>: \<open>runs\<close> lists the ways an expression matches at a position, the preferred first,
  each with the text consumed, the spans of the groups (relative to its start) and the rest. Repeats are
  over a class of characters and greedy, all the patterns need. Classes are exact on Latin-1 and on
  the four letters that case folding adds to \<open>a\<close>-\<open>z\<close>.
\<close>

section \<open>Regular expressions\<close>

datatype regex =
    Class "nat \<Rightarrow> bool"
  | Edge
  | Literal bool pystr
  | Repeat nat "nat option" "nat \<Rightarrow> bool"
  | Sequence regex regex
  | Either regex regex
  | Group regex

type_synonym span = "nat \<times> nat"
type_synonym run = "pystr \<times> span list \<times> pystr"

text \<open>\<open>re.IGNORECASE\<close>: the lower-case letter a character stands for.\<close>

definition fold_case :: "nat \<Rightarrow> nat" where
  "fold_case c =
     (if 65 \<le> c \<and> c \<le> 90 then c + 32
      else if c = 304 \<or> c = 305 then 105
      else if c = 383 then 115
      else if c = 8490 then 107
      else c)"

definition same_letter :: "bool \<Rightarrow> nat \<Rightarrow> nat \<Rightarrow> bool" where
  "same_letter ignore_case a b \<longleftrightarrow> (if ignore_case then fold_case a = fold_case b else a = b)"

definition word_char :: "nat \<Rightarrow> bool" where
  "word_char c \<longleftrightarrow> is_word c \<or> c \<in> {304, 305, 383, 8490}"

definition word_before :: "nat option \<Rightarrow> bool" where
  "word_before p = (case p of None \<Rightarrow> False | Some c \<Rightarrow> word_char c)"

text \<open>\<open>\b\<close> between the character before and the text ahead.\<close>

definition at_edge :: "nat option \<Rightarrow> pystr \<Rightarrow> bool" where
  "at_edge p s \<longleftrightarrow> word_before p \<noteq> (s \<noteq> [] \<and> word_char (hd s))"

definition last_char :: "nat option \<Rightarrow> pystr \<Rightarrow> nat option" where
  "last_char p m = (if m = [] then p else Some (last m))"

definition shift :: "nat \<Rightarrow> span list \<Rightarrow> span list" where
  "shift n gs = map (\<lambda>(a, b). (n + a, n + b)) gs"

fun runs :: "regex \<Rightarrow> nat option \<Rightarrow> pystr \<Rightarrow> run list" where
  "runs (Class f) p s = (case s of [] \<Rightarrow> [] | c # r \<Rightarrow> if f c then [([c], [], r)] else [])"
| "runs Edge p s = (if at_edge p s then [([], [], s)] else [])"
| "runs (Literal ic w) p s =
     (if list_all2 (same_letter ic) w (take (length w) s) then [(take (length w) s, [], drop (length w) s)] else [])"
| "runs (Repeat lo hi f) p s =
     (let n = length (takeWhile f s);
          most = (case hi of None \<Rightarrow> n | Some h \<Rightarrow> min h n)
      in map (\<lambda>k. (take k s, [], drop k s)) (rev [lo..<Suc most]))"
| "runs (Sequence a b) p s =
     concat (map (\<lambda>(m, gs, r). map (\<lambda>(m', gs', r'). (m @ m', gs @ shift (length m) gs', r'))
                                   (runs b (last_char p m) r)) (runs a p s))"
| "runs (Either a b) p s = runs a p s @ runs b p s"
| "runs (Group a) p s = map (\<lambda>(m, gs, r). (m, (0, length m) # gs, r)) (runs a p s)"

lemma runs_text: "(m, gs, r) \<in> set (runs R p s) \<Longrightarrow> s = m @ r"
proof (induction R p s arbitrary: m gs r rule: runs.induct)
  case (5 a b p s)
  then show ?case by fastforce
qed (auto simp: Let_def split: list.splits if_splits)

section \<open>The patterns\<close>

definition redacted :: pystr where
  "redacted = (lit ''<redacted>'')"

text \<open>\<open>[A-Z]\<close>, \<open>[A-Z0-9_]\<close> under \<open>(?i)\<close>; \<open>[A-Fa-f0-9]\<close>; the value classes.\<close>

definition ci_letter :: "nat \<Rightarrow> bool" where
  "ci_letter c \<longleftrightarrow> 97 \<le> fold_case c \<and> fold_case c \<le> 122"

definition key_char :: "nat \<Rightarrow> bool" where
  "key_char c \<longleftrightarrow> ci_letter c \<or> is_digit c \<or> c = 95"

definition quote_char :: "nat \<Rightarrow> bool" where
  "quote_char c \<longleftrightarrow> c = 39 \<or> c = 34"

definition value_char :: "nat \<Rightarrow> bool" where
  "value_char c \<longleftrightarrow> \<not> is_space c \<and> \<not> quote_char c \<and> c \<noteq> 44"

definition separator :: "nat \<Rightarrow> bool" where
  "separator c \<longleftrightarrow> c = 58 \<or> c = 61"

definition credential_char :: "nat \<Rightarrow> bool" where
  "credential_char c \<longleftrightarrow> ci_letter c \<or> is_digit c \<or> c \<in> {46, 95, 45, 43, 47, 61}"

definition key_text_char :: "nat \<Rightarrow> bool" where
  "key_text_char c \<longleftrightarrow> (65 \<le> c \<and> c \<le> 90) \<or> (97 \<le> c \<and> c \<le> 122) \<or> is_digit c \<or> c = 95 \<or> c = 45"

definition hex_char :: "nat \<Rightarrow> bool" where
  "hex_char c \<longleftrightarrow> (97 \<le> fold_case c \<and> fold_case c \<le> 102) \<or> is_digit c"

definition named_keys :: "pystr list" where
  "named_keys = [(lit ''OPENROUTER_API_KEY''), (lit ''OPENAI_API_KEY''), (lit ''GEMINI_API_KEY''), (lit ''META_APP_SECRET''),
     (lit ''META_VERIFY_TOKEN''), (lit ''WAPSELL_ENCRYPTION_KEY''), (lit ''WASELLER_ENCRYPTION_KEY'')]"

definition key_endings :: "pystr list" where
  "key_endings = [(lit ''_TOKEN''), (lit ''_SECRET''), (lit ''_PASSWORD'')]"

definition ending_in :: "pystr \<Rightarrow> regex" where
  "ending_in e = Sequence (Class ci_letter) (Sequence (Repeat 0 None key_char) (Literal True e))"

fun any_of :: "regex list \<Rightarrow> regex" where
  "any_of [] = Class (\<lambda>_. False)"
| "any_of (r # rs) = Either r (any_of rs)"

fun in_order :: "regex list \<Rightarrow> regex" where
  "in_order [] = Literal False []"
| "in_order (r # rs) = Sequence r (in_order rs)"

definition key_name :: regex where
  "key_name = any_of (map (Literal True) named_keys @ map ending_in key_endings)"

definition blanks :: regex where
  "blanks = Repeat 0 None is_space"

definition assigned_value :: regex where
  "assigned_value = Sequence (Repeat 0 (Some 1) quote_char) (Group (Repeat 1 None value_char))"

definition assignment :: regex where
  "assignment = Sequence Edge (Sequence (Group key_name)
     (Sequence blanks (Sequence (Class separator) (Sequence blanks assigned_value))))"

definition authorization :: regex where
  "authorization = in_order [Edge,
     Group (in_order [Literal True (lit ''Authorization''), blanks, Literal False (lit '':''), blanks,
       Either (Literal True (lit ''Bearer'')) (Literal True (lit ''Basic'')), Repeat 1 None is_space]),
     Group (Repeat 1 None credential_char)]"

definition naked_key :: regex where
  "naked_key = Sequence Edge (Group (Sequence (Literal False (lit ''sk-'')) (Repeat 16 None key_text_char)))"

definition hub_signature :: regex where
  "hub_signature = Sequence
     (Group (in_order [Literal True (lit ''X-Hub-Signature-256''), blanks, Literal False (lit '':''), blanks]))
     (Group (Sequence (Literal True (lit ''sha256='')) (Repeat 1 None hex_char)))"

definition default_secret_patterns :: "regex list" where
  "default_secret_patterns = [assignment, authorization, naked_key, hub_signature]"

section \<open>Replacing\<close>

text \<open>The last group of the match is replaced; without groups the whole match.\<close>

definition mask :: "pystr \<Rightarrow> span list \<Rightarrow> pystr" where
  "mask m gs = (if gs = [] then redacted else take (fst (last gs)) m @ redacted @ drop (snd (last gs)) m)"

text \<open>
  \<open>pat.sub\<close> from a position: the preferred match there, if any, is replaced and the scan goes on behind
  it. Every pattern consumes a character, so an empty match does not arise.
\<close>

definition match_here :: "regex \<Rightarrow> nat option \<Rightarrow> pystr \<Rightarrow> run option" where
  "match_here R p s = find (\<lambda>(m, gs, r). m \<noteq> []) (runs R p s)"

lemma match_here_text: "match_here R p s = Some (m, gs, r) \<Longrightarrow> s = m @ r \<and> m \<noteq> []"
  using runs_text[of m gs r R p s] unfolding match_here_def find_Some_iff by (force simp: in_set_conv_nth)

function substitute :: "regex \<Rightarrow> nat option \<Rightarrow> pystr \<Rightarrow> pystr" where
  "substitute R p s =
     (case match_here R p s of
        Some (m, gs, r) \<Rightarrow> mask m gs @ substitute R (Some (last m)) r
      | None \<Rightarrow> (case s of [] \<Rightarrow> [] | c # r \<Rightarrow> c # substitute R (Some c) r))"
  by pat_completeness auto
termination
  by (relation "measure (\<lambda>(R, p, s). length s)") (auto dest: match_here_text)

declare substitute.simps [simp del]

definition redact :: "regex list \<Rightarrow> pystr \<Rightarrow> pystr" where
  "redact patterns s = foldl (\<lambda>out pat. substitute pat None out) s patterns"

section \<open>The filter\<close>

text \<open>
  A log record; a handler renders it with \<open>getMessage\<close>, which formats the message with the arguments,
  when there are any (\<open>fmt\<close>, Python's \<open>%\<close>).
\<close>

record 'x log_record =
  lr_msg :: pystr
  lr_args :: "'x list"

definition get_message :: "(pystr \<Rightarrow> 'x list \<Rightarrow> pystr) \<Rightarrow> 'x log_record \<Rightarrow> pystr" where
  "get_message fmt r = (if lr_args r = [] then lr_msg r else fmt (lr_msg r) (lr_args r))"

definition filter_record :: "regex list \<Rightarrow> (pystr \<Rightarrow> 'x list \<Rightarrow> pystr) \<Rightarrow> 'x log_record \<Rightarrow> 'x log_record \<times> bool" where
  "filter_record patterns fmt r = (r\<lparr>lr_msg := redact patterns (get_message fmt r), lr_args := []\<rparr>, True)"

text \<open>
  The filters of each logger, by its name; the root logger has the empty one. A record is filtered by
  the logger it is logged on; the handlers of the ancestors, the root's included, get the record
  without their loggers' filters (the library reference of \<open>logging\<close>).
\<close>

type_synonym loggers = "pystr \<Rightarrow> regex list list"

definition root_logger :: pystr where
  "root_logger = []"

definition install_redaction :: "loggers \<Rightarrow> pystr option \<Rightarrow> regex list \<Rightarrow> loggers" where
  "install_redaction filters logger patterns =
     (let target = (case logger of None \<Rightarrow> root_logger | Some name \<Rightarrow> name)
      in filters(target := filters target @ [patterns]))"

fun run_filters :: "(pystr \<Rightarrow> 'x list \<Rightarrow> pystr) \<Rightarrow> regex list list \<Rightarrow> 'x log_record \<Rightarrow> 'x log_record option" where
  "run_filters fmt [] r = Some r"
| "run_filters fmt (ps # fs) r = (let (r', ok) = filter_record ps fmt r in if ok then run_filters fmt fs r' else None)"

text \<open>What the handlers get of a record logged on a logger.\<close>

definition logged :: "(pystr \<Rightarrow> 'x list \<Rightarrow> pystr) \<Rightarrow> loggers \<Rightarrow> pystr \<Rightarrow> 'x log_record \<Rightarrow> 'x log_record option" where
  "logged fmt filters name r = run_filters fmt (filters name) r"

section \<open>How the assignment pattern reads a text\<close>

text \<open>
  The text at which the value of an assignment starts, when the text ahead is one. The backtracking of
  the matcher never finds another: \<open>assignment_run\<close>.
\<close>

definition secret_key :: "pystr \<Rightarrow> bool" where
  "secret_key k \<longleftrightarrow> (k, [], []) \<in> set (runs key_name None k)"

definition skip_quote :: "pystr \<Rightarrow> pystr" where
  "skip_quote t = (if t \<noteq> [] \<and> quote_char (hd t) then tl t else t)"

definition value_in :: "pystr \<Rightarrow> pystr option" where
  "value_in t = (let u = skip_quote t in if takeWhile value_char u = [] then None else Some u)"

definition value_after :: "pystr \<Rightarrow> pystr option" where
  "value_after t = (case dropWhile is_space t of [] \<Rightarrow> None
     | c # r \<Rightarrow> if separator c then value_in (dropWhile is_space r) else None)"

definition assigned :: "nat option \<Rightarrow> pystr \<Rightarrow> pystr option" where
  "assigned p s = (if at_edge p s \<and> secret_key (takeWhile key_char s) then value_after (dropWhile key_char s) else None)"

text \<open>The preferred run of \<open>R\<close> ends behind the value at \<open>u\<close>, its last group.\<close>

definition prefers :: "regex \<Rightarrow> nat option \<Rightarrow> pystr \<Rightarrow> pystr option \<Rightarrow> bool" where
  "prefers R p t uo \<longleftrightarrow> (case uo of None \<Rightarrow> runs R p t = []
     | Some u \<Rightarrow> length u \<le> length t \<and> (\<exists>m gs rs. runs R p t = (m, gs, dropWhile value_char u) # rs \<and> gs \<noteq> []
         \<and> last gs = (length t - length u, length m)))"

lemma first_of_concat:
  assumes "\<And>x. x \<in> set xs \<Longrightarrow> f x = [] \<or> (\<exists>y zs. f x = y # zs \<and> Q y)" and "\<exists>x \<in> set xs. f x \<noteq> []"
  shows "\<exists>y zs. concat (map f xs) = y # zs \<and> Q y"
  using assms
proof (induction xs)
  case (Cons x xs)
  then show ?case by (cases "f x = []") force+
qed simp

lemma prefers_sequence:
  assumes "\<And>m gs r. (m, gs, r) \<in> set (runs a p s) \<Longrightarrow> prefers b (last_char p m) r (if r = r0 then uo else None)"
    and "uo \<noteq> None \<Longrightarrow> \<exists>m gs. (m, gs, r0) \<in> set (runs a p s)"
  shows "prefers (Sequence a b) p s uo"
proof (cases uo)
  case None
  then have "runs b (last_char p m) r = []" if "(m, gs, r) \<in> set (runs a p s)" for m gs r
    using assms(1)[OF that] by (simp add: prefers_def split: if_splits)
  then have "runs (Sequence a b) p s = []" by fastforce
  then show ?thesis by (simp add: prefers_def None)
next
  case (Some u)
  let ?f = "\<lambda>(m, gs, r). map (\<lambda>(m', gs', r'). (m @ m', gs @ shift (length m) gs', r')) (runs b (last_char p m) r)"
  let ?Q = "\<lambda>(m, gs, r). r = dropWhile value_char u \<and> gs \<noteq> [] \<and> last gs = (length s - length u, length m)"
  have each: "?f x = [] \<or> (\<exists>y zs. ?f x = y # zs \<and> ?Q y)" if x: "x \<in> set (runs a p s)" for x
  proof -
    obtain m gs r where [simp]: "x = (m, gs, r)" by (cases x)
    have s: "s = m @ r" using runs_text x by simp
    show ?thesis
    proof (cases "r = r0")
      case True
      then obtain m' gs' rs where "runs b (last_char p m) r = (m', gs', dropWhile value_char u) # rs" "gs' \<noteq> []"
        "last gs' = (length r - length u, length m')" "length u \<le> length r"
        using assms(1)[of m gs r] x by (auto simp: prefers_def Some)
      then show ?thesis by (simp add: s shift_def last_map)
    next
      case False
      then show ?thesis using assms(1)[of m gs r] x by (simp add: prefers_def)
    qed
  qed
  obtain m gs where r0: "(m, gs, r0) \<in> set (runs a p s)" using assms(2) Some by blast
  then have "length u \<le> length r0" "runs b (last_char p m) r0 \<noteq> []"
    using assms(1)[OF r0] by (auto simp: prefers_def Some)
  moreover from this have "\<exists>x \<in> set (runs a p s). ?f x \<noteq> []" using r0 by (intro bexI[of _ "(m, gs, r0)"]) simp_all
  ultimately show ?thesis
    using first_of_concat[of "runs a p s" ?f ?Q, OF each] runs_text[OF r0] by (auto simp: prefers_def Some)
qed

lemma repeat_runs:
  "(m, gs, r) \<in> set (runs (Repeat lo None f) p s) \<longleftrightarrow>
     s = m @ r \<and> gs = [] \<and> lo \<le> length m \<and> (\<forall>c \<in> set m. f c)"
proof -
  have "(\<exists>k. lo \<le> k \<and> k < Suc (length (takeWhile f s)) \<and> m = take k s \<and> r = drop k s)
    \<longleftrightarrow> s = m @ r \<and> lo \<le> length m \<and> (\<forall>c \<in> set m. f c)"
  proof
    assume "\<exists>k. lo \<le> k \<and> k < Suc (length (takeWhile f s)) \<and> m = take k s \<and> r = drop k s"
    then obtain k where k: "lo \<le> k" "k \<le> length (takeWhile f s)" "m = take k s" "r = drop k s" by (auto simp: less_Suc_eq_le)
    then have "m = take k (takeWhile f s)" by (metis append_take_drop_id take_append takeWhile_dropWhile_id take_all diff_is_0_eq take0 append_Nil2)
    then have "\<forall>c \<in> set m. f c" by (metis in_set_takeD set_takeWhileD)
    moreover have "k \<le> length s" using k(2) length_takeWhile_le[of f s] by linarith
    ultimately show "s = m @ r \<and> lo \<le> length m \<and> (\<forall>c \<in> set m. f c)" using k by simp
  next
    assume a: "s = m @ r \<and> lo \<le> length m \<and> (\<forall>c \<in> set m. f c)"
    then show "\<exists>k. lo \<le> k \<and> k < Suc (length (takeWhile f s)) \<and> m = take k s \<and> r = drop k s"
      by (intro exI[of _ "length m"]) simp
  qed
  then show ?thesis by (auto simp: Let_def)
qed

text \<open>Stage by stage, from the value backwards.\<close>

lemma span_dropWhile: "\<forall>c \<in> set m. f c \<Longrightarrow> r = dropWhile f (m @ r) \<or> (r \<noteq> [] \<and> f (hd r))"
  by (cases r) (auto simp: dropWhile_append, metis (full_types) dropWhile_eq_Nil_conv)

lemma key_char_range:
  "key_char c \<Longrightarrow> (48 \<le> c \<and> c \<le> 57) \<or> (65 \<le> c \<and> c \<le> 90) \<or> c = 95 \<or> (97 \<le> c \<and> c \<le> 122) \<or> c \<in> {304, 305, 383, 8490}"
  by (simp add: key_char_def ci_letter_def fold_case_def is_digit_def split: if_splits) blast+

lemma value_classes:
  "quote_char c \<Longrightarrow> \<not> value_char c" "is_space c \<Longrightarrow> \<not> value_char c" "is_space c \<Longrightarrow> \<not> quote_char c"
  "separator c \<Longrightarrow> \<not> is_space c \<and> \<not> key_char c" "key_char c \<Longrightarrow> \<not> is_space c \<and> \<not> separator c \<and> value_char c"
proof -
  show "separator c \<Longrightarrow> \<not> is_space c \<and> \<not> key_char c"
    by (auto simp: separator_def is_space_def dest: key_char_range)
  show "key_char c \<Longrightarrow> \<not> is_space c \<and> \<not> separator c \<and> value_char c"
    by (drule key_char_range, elim disjE) (auto simp: value_char_def quote_char_def is_space_def separator_def)
qed (auto simp: value_char_def quote_char_def is_space_def)

lemma prefers_value: "prefers (Group (Repeat 1 None value_char)) p t (if takeWhile value_char t = [] then None else Some t)"
proof (cases "takeWhile value_char t")
  case (Cons c cs)
  then have "rev [1..<Suc (length (takeWhile value_char t))] = length (takeWhile value_char t) # rev [1..<length (takeWhile value_char t)]"
    by simp
  then show ?thesis
    by (simp add: prefers_def Cons Let_def dropWhile_eq_drop del: upt_Suc)
qed (simp add: prefers_def)

lemma prefers_assigned: "prefers assigned_value p t (value_in t)"
  unfolding assigned_value_def
proof (rule prefers_sequence[where ?r0.0 = "skip_quote t"])
  fix m gs r
  assume "(m, gs, r) \<in> set (runs (Repeat 0 (Some 1) quote_char) p t)"
  then have r: "r = skip_quote t \<or> (r = t \<and> t \<noteq> [] \<and> quote_char (hd t))"
    by (cases t) (auto simp: Let_def skip_quote_def split: if_splits)
  show "prefers (Group (Repeat 1 None value_char)) (last_char p m) r (if r = skip_quote t then value_in t else None)"
  proof (cases "r = skip_quote t")
    case True
    then show ?thesis using prefers_value[of "last_char p m" "skip_quote t"] by (simp add: value_in_def Let_def)
  next
    case False
    with r have "takeWhile value_char r = []" by (cases t) (auto simp: value_classes)
    then show ?thesis using False prefers_value[of "last_char p m" r] by simp
  qed
next
  show "\<exists>m gs. (m, gs, skip_quote t) \<in> set (runs (Repeat 0 (Some 1) quote_char) p t)"
    by (cases t) (auto simp: Let_def skip_quote_def intro: exI[of _ "[]"])
qed

lemma blank_runs:
  "(m, gs, r) \<in> set (runs blanks p t) \<Longrightarrow> r = dropWhile is_space t \<or> (r \<noteq> [] \<and> is_space (hd r))"
  "\<exists>m gs. (m, gs, dropWhile is_space t) \<in> set (runs blanks p t)"
  unfolding blanks_def repeat_runs using span_dropWhile[of m is_space r]
  by (auto intro!: exI[of _ "takeWhile is_space t"] dest: set_takeWhileD)

lemma prefers_after_separator:
  "prefers (Sequence blanks assigned_value) p t (value_in (dropWhile is_space t))"
proof (rule prefers_sequence[where ?r0.0 = "dropWhile is_space t"])
  fix m gs r
  assume "(m, gs, r) \<in> set (runs blanks p t)"
  moreover have "value_in r = None" if "r \<noteq> []" "is_space (hd r)"
    using that by (cases r) (auto simp: value_in_def skip_quote_def value_classes)
  ultimately show "prefers assigned_value (last_char p m) r (if r = dropWhile is_space t then value_in (dropWhile is_space t) else None)"
    using blank_runs(1)[of m gs r p t] prefers_assigned[of "last_char p m" r] by auto
qed (rule blank_runs(2))

definition after_blanks :: "pystr \<Rightarrow> pystr option" where
  "after_blanks t = (case t of [] \<Rightarrow> None | c # r \<Rightarrow> if separator c then value_in (dropWhile is_space r) else None)"

lemma prefers_separator:
  "prefers (Sequence (Class separator) (Sequence blanks assigned_value)) p t (after_blanks t)"
proof (rule prefers_sequence[where ?r0.0 = "tl t"])
  fix m gs r
  assume "(m, gs, r) \<in> set (runs (Class separator) p t)"
  then have "r = tl t \<and> after_blanks t = value_in (dropWhile is_space r)" by (auto simp: after_blanks_def split: list.splits if_splits)
  then show "prefers (Sequence blanks assigned_value) (last_char p m) r (if r = tl t then after_blanks t else None)"
    using prefers_after_separator[of "last_char p m" r] by simp
qed (auto simp: after_blanks_def split: list.splits if_splits)

lemma prefers_after_key:
  "prefers (Sequence blanks (Sequence (Class separator) (Sequence blanks assigned_value))) p t (value_after t)"
proof (rule prefers_sequence[where ?r0.0 = "dropWhile is_space t"])
  fix m gs r
  assume r: "(m, gs, r) \<in> set (runs blanks p t)"
  have "after_blanks r = None" if "r \<noteq> []" "is_space (hd r)"
    using that by (cases r) (auto simp: after_blanks_def value_classes)
  moreover have "value_after t = after_blanks (dropWhile is_space t)" by (simp add: value_after_def after_blanks_def)
  ultimately show "prefers (Sequence (Class separator) (Sequence blanks assigned_value)) (last_char p m) r
      (if r = dropWhile is_space t then value_after t else None)"
    using blank_runs(1)[OF r] prefers_separator[of "last_char p m" r] by auto
qed (rule blank_runs(2))

text \<open>Runs of an expression without \<open>\b\<close> do not depend on what is around the text consumed.\<close>

fun edge_free :: "regex \<Rightarrow> bool" where
  "edge_free Edge = False"
| "edge_free (Sequence a b) = (edge_free a \<and> edge_free b)"
| "edge_free (Either a b) = (edge_free a \<and> edge_free b)"
| "edge_free (Group a) = edge_free a"
| "edge_free (Repeat lo hi f) = (hi = None)"
| "edge_free _ = True"

lemma runs_local:
  assumes "edge_free R" and "(m, gs, r) \<in> set (runs R p (m @ r))"
  shows "(m, gs, r') \<in> set (runs R p' (m @ r'))"
  using assms
proof (induction R arbitrary: m gs r r' p p')
  case (Sequence a b)
  from Sequence.prems(2) obtain m1 g1 r1 m2 g2 where 1: "(m1, g1, r1) \<in> set (runs a p (m @ r))"
    and 2: "(m2, g2, r) \<in> set (runs b (last_char p m1) r1)" and m: "m = m1 @ m2" "gs = g1 @ shift (length m1) g2"
    by auto
  have r1: "r1 = m2 @ r" using runs_text[OF 2] .
  have "(m1, g1, m2 @ r') \<in> set (runs a p' (m1 @ m2 @ r'))"
    using Sequence.IH(1)[of m1 g1 "m2 @ r" p] Sequence.prems(1) 1 by (simp add: m r1)
  moreover have "(m2, g2, r') \<in> set (runs b (last_char p' m1) (m2 @ r'))"
    using Sequence.IH(2)[of m2 g2 r] Sequence.prems(1) 2 by (simp add: r1)
  ultimately show ?case unfolding m by force
next
  case (Repeat lo hi f)
  then have "hi = None" "(m, gs, r) \<in> set (runs (Repeat lo None f) p (m @ r))" by simp_all
  then show ?case by (simp add: repeat_runs del: runs.simps)
next
  case (Literal ic w)
  then have "list_all2 (same_letter ic) w m" "gs = []" by (auto split: if_splits)
  then show ?case by (simp add: list_all2_lengthD)
next
  case (Group R)
  then show ?case by force
qed (auto split: list.splits if_splits)

lemma literal_chars:
  assumes "list_all2 (same_letter True) w m" and "\<forall>c \<in> set w. key_char c"
  shows "\<forall>c \<in> set m. key_char c"
proof -
  have "key_char b" if "key_char a" "same_letter True a b" for a b
    using that by (auto simp: key_char_def same_letter_def ci_letter_def fold_case_def is_digit_def split: if_splits)
  with assms show ?thesis by (induction rule: list_all2_induct) auto
qed

lemma edge_free_any: "edge_free (any_of rs) \<longleftrightarrow> (\<forall>r \<in> set rs. edge_free r)"
  by (induction rs) auto

lemma any_runs: "set (runs (any_of rs) p s) = (\<Union>r \<in> set rs. set (runs r p s))"
  by (induction rs) (auto split: list.splits)

lemma plain_letters:
  "65 \<le> c \<Longrightarrow> c \<le> 90 \<Longrightarrow> ci_letter c" "97 \<le> c \<Longrightarrow> c \<le> 122 \<Longrightarrow> ci_letter c" "ci_letter c \<Longrightarrow> key_char c" "key_char 95"
  by (simp_all add: ci_letter_def key_char_def fold_case_def)

lemma named_key_chars: "list_all (\<lambda>w. w \<noteq> [] \<and> ci_letter (hd w) \<and> list_all key_char w) named_keys"
  by (simp add: named_keys_def lit_def plain_letters)

lemma key_ending_chars: "list_all (list_all key_char) key_endings"
  by (simp add: key_endings_def lit_def plain_letters)

lemma key_chars:
  assumes "(m, gs, r) \<in> set (runs key_name p s)"
  shows "gs = [] \<and> m \<noteq> [] \<and> ci_letter (hd m) \<and> (\<forall>c \<in> set m. key_char c)"
proof -
  have names: "w \<noteq> [] \<and> ci_letter (hd w) \<and> (\<forall>c \<in> set w. key_char c)" if "w \<in> set named_keys" for w
    using named_key_chars that by (simp add: list_all_iff)
  have ends: "\<forall>c \<in> set w. key_char c" if "w \<in> set key_endings" for w
    using key_ending_chars that by (simp add: list_all_iff)
  have letter: "ci_letter b" if "ci_letter a" "same_letter True a b" for a b
    using that by (simp add: ci_letter_def same_letter_def)
  consider (named) w where "w \<in> set named_keys" "(m, gs, r) \<in> set (runs (Literal True w) p s)"
    | (ending) e where "e \<in> set key_endings" "(m, gs, r) \<in> set (runs (ending_in e) p s)"
    using assms by (auto simp: key_name_def any_runs simp del: runs.simps)
  then show ?thesis
  proof cases
    case named
    then have m: "list_all2 (same_letter True) w m" "gs = []" by (auto split: if_splits)
    have w: "w \<noteq> []" "ci_letter (hd w)" "\<forall>c \<in> set w. key_char c" using names[OF named(1)] by blast+
    then have "m \<noteq> []" using m(1) by auto
    moreover have "same_letter True (hd w) (hd m)" using m(1) w(1) by (cases w) (auto simp: list_all2_Cons1)
    ultimately show ?thesis using w letter literal_chars[OF m(1) w(3)] m(2) by blast
  next
    case ending
    then obtain c m1 m2 where m: "ci_letter c" "m = c # m1 @ m2" "gs = []" "\<forall>x \<in> set m1. key_char x" "list_all2 (same_letter True) e m2"
      by (auto simp: ending_in_def repeat_runs shift_def simp del: runs.simps(4) split: list.splits if_splits)
    then show ?thesis using literal_chars[OF m(5) ends[OF ending(1)]] by (auto simp: key_char_def)
  qed
qed

lemma key_edge_free: "edge_free key_name"
  by (auto simp: key_name_def edge_free_any ending_in_def)

lemma key_runs: "(m, [], r) \<in> set (runs key_name p (m @ r)) \<longleftrightarrow> secret_key m"
  using runs_local[OF key_edge_free, of m "[]" r p "[]" None] runs_local[OF key_edge_free, of m "[]" "[]" None r p]
  by (auto simp: secret_key_def)

lemma secret_key_chars: "secret_key k \<Longrightarrow> k \<noteq> [] \<and> ci_letter (hd k) \<and> (\<forall>c \<in> set k. key_char c)"
  unfolding secret_key_def using key_chars by blast

lemma prefers_assignment: "prefers assignment p s (assigned p s)"
proof -
  let ?k = "takeWhile key_char s" and ?rest = "Sequence blanks (Sequence (Class separator) (Sequence blanks assigned_value))"
  have key: "prefers (Sequence (Group key_name) ?rest) p s (if secret_key ?k then value_after (dropWhile key_char s) else None)"
  proof (rule prefers_sequence[where ?r0.0 = "dropWhile key_char s"])
    fix m gs r
    assume "(m, gs, r) \<in> set (runs (Group key_name) p s)"
    then obtain gs' where run: "(m, gs', r) \<in> set (runs key_name p s)" by auto
    then have s: "s = m @ r" and m: "secret_key m" "\<forall>c \<in> set m. key_char c"
      using runs_text key_chars[OF run] key_runs[of m r p] by auto
    show "prefers ?rest (last_char p m) r
        (if r = dropWhile key_char s then if secret_key ?k then value_after (dropWhile key_char s) else None else None)"
    proof (cases "r = dropWhile key_char s")
      case True
      then have "?k = m" using s by (metis append_same_eq takeWhile_dropWhile_id)
      then show ?thesis using prefers_after_key[of "last_char p m" r] True m by simp
    next
      case False
      then have "r \<noteq> []" "key_char (hd r)" using span_dropWhile[OF m(2), of r] s by auto
      then have "value_after r = None" by (cases r) (auto simp: value_after_def value_classes)
      then show ?thesis using prefers_after_key[of "last_char p m" r] False by simp
    qed
  next
    assume "(if secret_key ?k then value_after (dropWhile key_char s) else None) \<noteq> None"
    then have "secret_key ?k" by (auto split: if_splits)
    then have "(?k, [], dropWhile key_char s) \<in> set (runs key_name p s)"
      using key_runs[of ?k "dropWhile key_char s" p] by simp
    then show "\<exists>m gs. (m, gs, dropWhile key_char s) \<in> set (runs (Group key_name) p s)" by force
  qed
  show ?thesis
    unfolding assignment_def
  proof (rule prefers_sequence[where ?r0.0 = s])
    fix m gs r
    assume "(m, gs, r) \<in> set (runs Edge p s)"
    then show "prefers (Sequence (Group key_name) ?rest) (last_char p m) r (if r = s then assigned p s else None)"
      using key by (auto simp: assigned_def last_char_def split: if_splits)
  qed (auto simp: assigned_def split: if_splits)
qed

text \<open>So the substitution replaces what \<open>assigned\<close> finds.\<close>

lemma assigned_suffix: "assigned p s = Some u \<Longrightarrow> \<exists>q. s = q @ u"
proof -
  have drop: "\<exists>q. s = q @ dropWhile f s" for f :: "nat \<Rightarrow> bool" and s by (metis takeWhile_dropWhile_id)
  have skip: "\<exists>q. s = q @ skip_quote s" for s
    by (cases s) (auto simp: skip_quote_def intro: exI[of _ "[]"] exI[of _ "[x]" for x])
  assume "assigned p s = Some u"
  then obtain c r where 1: "dropWhile is_space (dropWhile key_char s) = c # r" and u: "u = skip_quote (dropWhile is_space r)"
    by (auto simp: assigned_def value_after_def value_in_def Let_def split: if_splits list.splits)
  obtain q1 q2 q3 q4 where "s = q1 @ dropWhile key_char s" "dropWhile key_char s = q2 @ dropWhile is_space (dropWhile key_char s)"
    "r = q3 @ dropWhile is_space r" "dropWhile is_space r = q4 @ skip_quote (dropWhile is_space r)"
    using drop[of s key_char] drop[of "dropWhile key_char s" is_space] drop[of r is_space] skip[of "dropWhile is_space r"] by blast
  then have "s = (q1 @ q2 @ c # q3 @ q4) @ u" by (metis 1 u append.assoc append_Cons)
  then show ?thesis by blast
qed

lemma assigned_length: "assigned p s = Some u \<Longrightarrow> length u \<le> length s \<and> takeWhile value_char u \<noteq> []"
  using prefers_assignment[of p s]
  by (auto simp: prefers_def assigned_def value_after_def value_in_def Let_def split: if_splits list.splits)

lemma substitute_assignment:
  "substitute assignment p s = (case assigned p s of
     Some u \<Rightarrow> take (length s - length u) s @ redacted
       @ substitute assignment (Some (last (takeWhile value_char u))) (dropWhile value_char u)
   | None \<Rightarrow> (case s of [] \<Rightarrow> [] | c # r \<Rightarrow> c # substitute assignment (Some c) r))"
proof (cases "assigned p s")
  case None
  then have "runs assignment p s = []" using prefers_assignment[of p s] by (simp add: prefers_def)
  then show ?thesis by (subst substitute.simps) (simp add: match_here_def None)
next
  case (Some u)
  obtain m gs rs where r: "runs assignment p s = (m, gs, dropWhile value_char u) # rs" "gs \<noteq> []"
    "last gs = (length s - length u, length m)" and u: "length u \<le> length s" "takeWhile value_char u \<noteq> []"
    using prefers_assignment[of p s] assigned_length[OF Some] by (auto simp: prefers_def Some)
  have s: "s = m @ dropWhile value_char u" using runs_text[of m gs _ assignment p s] r(1) by simp
  have len: "length u = length (takeWhile value_char u) + length (dropWhile value_char u)"
    by (metis length_append takeWhile_dropWhile_id)
  moreover have "length s = length m + length (dropWhile value_char u)" using arg_cong[OF s, of length] by simp
  moreover have "length (takeWhile value_char u) > 0" using u(2) by simp
  ultimately have m: "length s - length u < length m" using u(1) by linarith
  then have "match_here assignment p s = Some (m, gs, dropWhile value_char u)" by (auto simp: match_here_def r)
  moreover have "mask m gs = take (length s - length u) s @ redacted" using r m s by (simp add: mask_def)
  moreover have "last m = last (takeWhile value_char u)"
  proof -
    obtain q where "s = q @ u" using assigned_suffix[OF Some] by blast
    then have "m = q @ takeWhile value_char u" using s by (metis append.assoc append_same_eq takeWhile_dropWhile_id)
    then show ?thesis using u(2) by simp
  qed
  ultimately show ?thesis by (subst substitute.simps) (simp add: Some)
qed

section \<open>The value of an assignment does not show\<close>

lemma assigned_first: "assigned p s = Some u \<Longrightarrow> s \<noteq> [] \<and> ci_letter (hd s)"
proof -
  assume "assigned p s = Some u"
  then have "secret_key (takeWhile key_char s)" unfolding assigned_def by (metis option.distinct(1))
  note k = secret_key_chars[OF this]
  then have "s \<noteq> [] \<and> hd (takeWhile key_char s) = hd s" by (cases s) (auto split: if_splits)
  with k show ?thesis by simp
qed

lemma not_letter: "\<not> value_char c \<Longrightarrow> \<not> ci_letter c"
  using value_classes(5)[of c] unfolding key_char_def by blast

lemma substitute_behind:
  assumes "s = [] \<or> \<not> value_char (hd s)"
  shows "substitute assignment p s = substitute assignment p' s"
proof -
  have "assigned q s = None" for q using assigned_first[of q s] assms not_letter by (cases "assigned q s") auto
  then show ?thesis by (subst (1 2) substitute_assignment) simp
qed

text \<open>Where an assignment starts in \<open>q @ t\<close> does not depend on \<open>t\<close>, when \<open>t\<close> starts with a key and \<open>q\<close> is set off from it.\<close>

lemma dropWhile_before: "t \<noteq> [] \<Longrightarrow> \<not> f (hd t) \<Longrightarrow> dropWhile f (q @ t) = dropWhile f q @ t"
  by (cases t) (induction q; simp)+

lemma key_word: "key_char c \<Longrightarrow> word_char c"
  by (drule key_char_range, elim disjE) (auto simp: word_char_def is_word_def is_digit_def)

definition value_before :: "pystr \<Rightarrow> pystr option" where
  "value_before q = (let u = skip_quote q in if u \<noteq> [] \<and> \<not> value_char (hd u) then None else Some u)"

lemma value_in_before:
  assumes "t \<noteq> []" and "key_char (hd t)"
  shows "value_in (q @ t) = map_option (\<lambda>u. u @ t) (value_before q)"
proof -
  have "skip_quote (q @ t) = skip_quote q @ t"
    using assms value_classes(1,5)[of "hd t"] by (cases q) (auto simp: skip_quote_def)
  moreover have "takeWhile value_char (u @ t) = [] \<longleftrightarrow> u \<noteq> [] \<and> \<not> value_char (hd u)" for u
    using assms value_classes(5)[of "hd t"] by (cases u; cases t) auto
  ultimately show ?thesis by (simp add: value_in_def value_before_def Let_def)
qed

lemma value_before_suffix: "value_before q = Some u \<Longrightarrow> suffix u q"
  by (auto simp: value_before_def skip_quote_def Let_def suffix_tl split: if_splits)

definition assigned_before :: "nat option \<Rightarrow> pystr \<Rightarrow> pystr option" where
  "assigned_before p q = (if at_edge p q \<and> secret_key (takeWhile key_char q) then
     (case dropWhile is_space (dropWhile key_char q) of [] \<Rightarrow> None
      | c # r \<Rightarrow> if separator c then value_before (dropWhile is_space r) else None) else None)"

lemma assigned_in_before:
  assumes "t \<noteq> []" and "key_char (hd t)" and "q \<noteq> []" and "\<not> word_char (last q)"
  shows "assigned p (q @ t) = map_option (\<lambda>u. u @ t) (assigned_before p q)"
proof -
  have hd: "\<not> is_space (hd t)" "\<not> separator (hd t)" using value_classes(5)[OF assms(2)] by simp_all
  have "\<not> key_char (last q)" using assms(4) key_word by blast
  then have some: "\<exists>x \<in> set q. \<not> key_char x" using assms(3) last_in_set by blast
  then have "takeWhile key_char (q @ t) = takeWhile key_char q" "dropWhile key_char (q @ t) = dropWhile key_char q @ t"
    by (auto simp: takeWhile_append dropWhile_append)
  moreover have "at_edge p (q @ t) \<longleftrightarrow> at_edge p q" using assms(3) by (simp add: at_edge_def)
  moreover have "value_after (d @ t) = map_option (\<lambda>u. u @ t) (case dropWhile is_space d of [] \<Rightarrow> None
      | c # r \<Rightarrow> if separator c then value_before (dropWhile is_space r) else None)" for d
  proof -
    define b where "b = dropWhile is_space d"
    have "dropWhile is_space (d @ t) = b @ t" using dropWhile_before[of t is_space d, OF assms(1) hd(1)] by (simp add: b_def)
    moreover have "value_in (dropWhile is_space (r @ t)) = map_option (\<lambda>u. u @ t) (value_before (dropWhile is_space r))" for r
      using dropWhile_before[of t is_space r, OF assms(1) hd(1)] value_in_before[OF assms(1,2)] by simp
    ultimately show ?thesis
      using hd assms(1) unfolding value_after_def b_def[symmetric] by (cases b; cases t) simp_all
  qed
  ultimately show ?thesis by (auto simp: assigned_def assigned_before_def)
qed

lemma assigned_before_suffix: "assigned_before p q = Some u \<Longrightarrow> suffix u q \<and> length u < length q"
proof -
  assume "assigned_before p q = Some u"
  then obtain c r where r: "dropWhile is_space (dropWhile key_char q) = c # r" and "value_before (dropWhile is_space r) = Some u"
    by (auto simp: assigned_before_def split: if_splits list.splits)
  then have "suffix u r" using value_before_suffix suffix_dropWhile suffix_order.trans by blast
  moreover have "suffix (c # r) q" using suffix_dropWhile suffix_order.trans r by metis
  ultimately show ?thesis
    by (metis length_Cons less_Suc_eq_le order.trans suffix_ConsI suffix_length_le suffix_order.trans not_less order_less_le_trans lessI suffix_ConsD)
qed

text \<open>Two texts that differ in the secret value of an assignment only.\<close>

definition plain_value :: "pystr \<Rightarrow> bool" where
  "plain_value v \<longleftrightarrow> v \<noteq> [] \<and> (\<forall>x \<in> set v. value_char x)"

definition ends_value :: "pystr \<Rightarrow> bool" where
  "ends_value post \<longleftrightarrow> post = [] \<or> \<not> value_char (hd post)"

lemma value_run: "plain_value v \<Longrightarrow> ends_value post \<Longrightarrow> takeWhile value_char (v @ post) = v \<and> dropWhile value_char (v @ post) = post"
  by (cases post) (auto simp: plain_value_def ends_value_def)

lemma assigned_here:
  assumes "secret_key k" and "separator c" and "plain_value v" and "ends_value post" and "\<not> word_before p"
  shows "assigned p (k @ c # v @ post) = Some (v @ post)"
proof -
  note k = secret_key_chars[OF assms(1)]
  have "word_char (hd k)" using k by (auto simp: ci_letter_def fold_case_def word_char_def is_word_def split: if_splits)
  then have "at_edge p (k @ c # v @ post)" using assms(5) k by (simp add: at_edge_def)
  moreover have "takeWhile key_char (k @ c # v @ post) = k" "dropWhile key_char (k @ c # v @ post) = c # v @ post"
    using k value_classes(4)[OF assms(2)] by simp_all
  moreover have "\<not> is_space (hd (v @ post))" "\<not> quote_char (hd (v @ post))" "v @ post \<noteq> []"
    using assms(3) value_classes(1,2)[of "hd v"] hd_in_set[of v] by (auto simp: plain_value_def)
  moreover from this have "dropWhile is_space (v @ post) = v @ post" by (cases "v @ post") auto
  ultimately show ?thesis
    using value_run[OF assms(3,4)] value_classes(4)[OF assms(2)] assms
    by (auto simp: assigned_def value_after_def value_in_def skip_quote_def Let_def plain_value_def)
qed

lemma secret_hidden:
  assumes "secret_key k" and "separator c" and "plain_value v" and "plain_value w" and "ends_value post"
    and "if q = [] then \<not> word_before p else \<not> word_char (last q)"
  shows "substitute assignment p (q @ k @ c # v @ post) = substitute assignment p (q @ k @ c # w @ post)"
  using assms(6)
proof (induction q arbitrary: p rule: length_induct)
  case (1 q)
  let ?t = "\<lambda>v. k @ c # v @ post"
  note k = secret_key_chars[OF assms(1)]
  have t: "?t v \<noteq> [] \<and> key_char (hd (?t v))" for v using k by auto
  have c: "value_char c" using assms(2) by (auto simp: value_char_def separator_def quote_char_def is_space_def)
  have run: "dropWhile value_char (?t v) = post \<and> takeWhile value_char (?t v) = k @ c # v" if "plain_value v" for v
    using value_run[OF that assms(5)] k c value_classes(5) by auto
  have post: "substitute assignment a post = substitute assignment b post" for a b
    using substitute_behind assms(5) by (simp add: ends_value_def)
  show ?case
  proof (cases "q = []")
    case True
    have "substitute assignment p (?t v) = k @ [c] @ redacted @ substitute assignment None post" if "plain_value v" for v
      using assigned_here[OF assms(1,2) that assms(5)] "1.prems" True value_run[OF that assms(5)] post[of _ None]
      by (subst substitute_assignment) simp
    then show ?thesis using True assms(3,4) by simp
  next
    case False
    show ?thesis
    proof (cases "assigned_before p q")
      case None
      obtain x q' where q: "q = x # q'" using False by (cases q) simp_all
      have "substitute assignment (Some x) (q' @ ?t v) = substitute assignment (Some x) (q' @ ?t w)"
        using "1.IH"[rule_format, of q' "Some x"] "1.prems" q by (auto simp: word_before_def split: if_splits)
      moreover have "assigned p (q @ ?t v) = None" for v
        using assigned_in_before[OF conjunct1[OF t] conjunct2[OF t] False, of p v] "1.prems" False None by simp
      then have "substitute assignment p (q @ ?t v) = x # substitute assignment (Some x) (q' @ ?t v)" for v
        by (subst substitute_assignment) (simp only: option.case q append_Cons list.case)
      ultimately show ?thesis by simp
    next
      case (Some u)
      obtain d where d: "q = d @ u" "length u < length q" using assigned_before_suffix[OF Some] unfolding suffix_def by blast
      have step: "substitute assignment p (q @ ?t v) = d @ redacted @ substitute assignment
          (Some (last (takeWhile value_char (u @ ?t v)))) (dropWhile value_char (u @ ?t v))" for v
      proof -
        have "\<not> word_char (last q)" using "1.prems" False by simp
        then have "assigned p (q @ ?t v) = Some (u @ ?t v)" using assigned_in_before[OF conjunct1[OF t] conjunct2[OF t] False] Some by simp
        moreover have "take (length (q @ ?t v) - length (u @ ?t v)) (q @ ?t v) = d" by (simp add: d(1))
        ultimately show ?thesis by (subst substitute_assignment) (simp only: option.case)
      qed
      show ?thesis
      proof (cases "\<forall>x \<in> set u. value_char x")
        case True
        then have "dropWhile value_char (u @ ?t v) = post" if "plain_value v" for v
          using run[OF that] by (simp add: dropWhile_append)
        then show ?thesis using assms(3,4) post unfolding step by metis
      next
        case False
        let ?u = "dropWhile value_char u"
        have "?u \<noteq> []" using False by (simp add: dropWhile_eq_Nil_conv)
        moreover from this have "last ?u = last q"
          by (metis d(1) append_is_Nil_conv last_appendR takeWhile_dropWhile_id)
        moreover have "length ?u < length q" using d(2) length_dropWhile_le[of value_char u] by linarith
        moreover have "takeWhile value_char (u @ ?t v) = takeWhile value_char u" "dropWhile value_char (u @ ?t v) = ?u @ ?t v" for v
          using False by (auto simp: takeWhile_append dropWhile_append)
        moreover from calculation have "substitute assignment b (?u @ ?t v) = substitute assignment b (?u @ ?t w)" for b
          using "1.IH"[rule_format, of ?u b] "1.prems" \<open>q \<noteq> []\<close> by (simp del: dropWhile_eq_Nil_conv)
        ultimately show ?thesis unfolding step by simp
      qed
    qed
  qed
qed

lemma redact_first: "redact (assignment # ps) s = redact ps (substitute assignment None s)"
  by (simp add: redact_def)

section \<open>What no pattern matches\<close>

text \<open>Every \<open>:\<close> and \<open>=\<close> directly behind a quote: so Python prints a mapping.\<close>

fun quoted_seps :: "bool \<Rightarrow> pystr \<Rightarrow> bool" where
  "quoted_seps b [] = True"
| "quoted_seps b (c # r) = ((separator c \<longrightarrow> b) \<and> quoted_seps (quote_char c) r)"

lemma quoted_append: "quoted_seps b (xs @ ys) \<longleftrightarrow> quoted_seps b xs \<and> quoted_seps (if xs = [] then b else quote_char (last xs)) ys"
  by (induction xs arbitrary: b) auto

lemma quoted_plain: "\<forall>c \<in> set xs. \<not> separator c \<Longrightarrow> quoted_seps b xs"
  by (induction xs arbitrary: b) auto

lemma quoted_suffix: "quoted_seps b s \<Longrightarrow> suffix s' s \<Longrightarrow> \<exists>b'. quoted_seps b' s'"
  by (auto simp: suffix_def quoted_append)

lemma no_lead:
  assumes "quoted_seps b (m @ n @ c # r)" and "m \<noteq> []" and "\<forall>x \<in> set m. key_char x" and "\<forall>x \<in> set n. is_space x"
  shows "\<not> separator c"
proof -
  have "\<not> quote_char (last (m @ n))"
    using assms(2-4) value_classes(1,3,5) last_in_set[of m] last_in_set[of n] by (cases "n = []") (auto simp del: last_in_set)
  then show ?thesis using assms(1,2) by (simp add: quoted_append split: if_splits)
qed

lemma substitute_none:
  assumes "\<And>p s'. suffix s' s \<Longrightarrow> runs R p s' = []"
  shows "substitute R p s = s"
  using assms
proof (induction s arbitrary: p)
  case Nil
  then show ?case by (subst substitute.simps) (simp add: match_here_def)
next
  case (Cons c s)
  have "substitute R (Some c) s = s" by (rule Cons.IH) (simp add: Cons.prems suffix_ConsI)
  then show ?case by (subst substitute.simps) (simp add: match_here_def Cons.prems)
qed

lemma runs_some: "runs R p s \<noteq> [] \<longleftrightarrow> (\<exists>m gs r. (m, gs, r) \<in> set (runs R p s))"
  by (cases "runs R p s") auto

lemma seq_first: "runs (Sequence a b) p s \<noteq> [] \<Longrightarrow> \<exists>m gs r. (m, gs, r) \<in> set (runs a p s) \<and> runs b (last_char p m) r \<noteq> []"
  by fastforce

lemma edge_first: "runs (Sequence Edge b) p s \<noteq> [] \<Longrightarrow> runs b p s \<noteq> []"
  by (auto simp: last_char_def split: if_splits)

lemma group_first: "runs (Group a) p s \<noteq> [] \<Longrightarrow> runs a p s \<noteq> []"
  by simp

lemma literal_runs: "(m, gs, r) \<in> set (runs (Literal ic w) p s) \<Longrightarrow> list_all2 (same_letter ic) w m"
  by (simp split: if_splits)

lemma assignment_none: "quoted_seps b s \<Longrightarrow> runs assignment p s = []"
proof -
  assume q: "quoted_seps b s"
  have "assigned p s = None"
  proof (rule ccontr)
    assume "assigned p s \<noteq> None"
    then obtain u where u: "assigned p s = Some u" by blast
    then have k: "secret_key (takeWhile key_char s)" and v: "value_after (dropWhile key_char s) = Some u"
      unfolding assigned_def by (metis option.distinct(1))+
    from v obtain c r where c: "dropWhile is_space (dropWhile key_char s) = c # r" "separator c"
      by (auto simp: value_after_def split: list.splits if_splits)
    have "s = takeWhile key_char s @ takeWhile is_space (dropWhile key_char s) @ c # r"
      by (metis c(1) takeWhile_dropWhile_id)
    then show False
      using no_lead[of b "takeWhile key_char s" "takeWhile is_space (dropWhile key_char s)" c r] q c(2) secret_key_chars[OF k]
      by (metis set_takeWhileD)
  qed
  then show ?thesis using prefers_assignment[of p s] by (simp add: prefers_def)
qed

lemma authorization_none:
  assumes "quoted_seps b s"
  shows "runs authorization p s = []"
proof (rule ccontr)
  assume a: "runs authorization p s \<noteq> []"
  have "runs (Group (in_order [Literal True (lit ''Authorization''), blanks, Literal False (lit '':''), blanks,
       Either (Literal True (lit ''Bearer'')) (Literal True (lit ''Basic'')), Repeat 1 None is_space])) p s \<noteq> []"
    unfolding runs_some using seq_first[OF edge_first[OF a[unfolded authorization_def in_order.simps(2)]]] in_order.simps(2) by metis
  note g = group_first[OF this]
  obtain w gs1 r1 p1 where 2: "(w, gs1, r1) \<in> set (runs (Literal True (lit ''Authorization'')) p s)"
      "runs (in_order [blanks, Literal False (lit '':''), blanks, Either (Literal True (lit ''Bearer'')) (Literal True (lit ''Basic'')), Repeat 1 None is_space]) p1 r1 \<noteq> []"
    using seq_first[OF g[unfolded in_order.simps(2)[of "Literal True x" for x]]] by blast
  then obtain n gs2 r2 p2 where 3: "(n, gs2, r2) \<in> set (runs blanks p1 r1)"
      "runs (in_order [Literal False (lit '':''), blanks, Either (Literal True (lit ''Bearer'')) (Literal True (lit ''Basic'')), Repeat 1 None is_space]) p2 r2 \<noteq> []"
    unfolding in_order.simps using seq_first by blast
  then obtain d gs3 r3 where 4: "(d, gs3, r3) \<in> set (runs (Literal False (lit '':'')) p2 r2)"
    unfolding in_order.simps using seq_first by blast
  have "s = w @ r1" "r1 = n @ r2" "r2 = d @ r3" using 2(1) 3(1) 4 runs_text by blast+
  moreover have "d = [58]" using literal_runs[OF 4] by (auto simp: lit_def list_all2_Cons1 same_letter_def)
  moreover have "list_all2 (same_letter True) (lit ''Authorization'') w" using literal_runs[OF 2(1)] .
  moreover have "\<forall>x \<in> set n. is_space x" using 3(1) by (simp add: blanks_def repeat_runs del: runs.simps)
  ultimately have w: "list_all2 (same_letter True) (lit ''Authorization'') w" "\<forall>x \<in> set n. is_space x" "s = w @ n @ 58 # r3" by simp_all
  have "list_all key_char (lit ''Authorization'')" by (simp add: lit_def plain_letters)
  then have "\<forall>x \<in> set w. key_char x" using literal_chars[OF w(1)] by (simp add: list_all_iff)
  moreover have "w \<noteq> []" using w(1) by (auto simp: lit_def)
  ultimately show False using no_lead[of b w n 58 r3] assms w(2,3) by (simp add: separator_def)
qed

text \<open>A Python \<open>dict\<close> of plain strings as \<open>str\<close> shows it, quoting keys and values.\<close>

definition mapping_text :: "(pystr \<times> pystr) list \<Rightarrow> pystr" where
  "mapping_text kvs = (lit ''{'') @ join (lit '', '') (map (\<lambda>(k, v). [39] @ k @ [39] @ (lit '': '') @ [39] @ v @ [39]) kvs) @ (lit ''}'')"

lemma dash_none:
  assumes "45 \<notin> set s"
  shows "runs naked_key p s = []" "runs hub_signature p s = []"
proof -
  have sub: "list_all2 (same_letter ic) w m \<Longrightarrow> 45 \<in> set w \<Longrightarrow> 45 \<in> set m" for ic w m
  proof (induction rule: list_all2_induct)
    case (Cons x xs y ys)
    moreover have "y = 45" if "x = 45" using Cons.hyps(1) that by (simp add: same_letter_def fold_case_def split: if_splits)
    ultimately show ?case by auto
  qed simp
  show "runs naked_key p s = []"
  proof (rule ccontr)
    assume "runs naked_key p s \<noteq> []"
    then have "runs (Sequence (Literal False (lit ''sk-'')) (Repeat 16 None key_text_char)) p s \<noteq> []"
      unfolding naked_key_def using edge_first group_first by blast
    then obtain d gs' r' where d: "(d, gs', r') \<in> set (runs (Literal False (lit ''sk-'')) p s)" using seq_first by blast
    have "45 \<in> set (lit ''sk-'')" by (simp add: lit_def)
    then have "45 \<in> set d" "s = d @ r'" using sub[OF literal_runs[OF d]] runs_text[OF d] by simp_all
    then show False using assms by simp
  qed
  show "runs hub_signature p s = []"
  proof (rule ccontr)
    assume "runs hub_signature p s \<noteq> []"
    then have "runs (Group (in_order [Literal True (lit ''X-Hub-Signature-256''), blanks, Literal False (lit '':''), blanks])) p s \<noteq> []"
      unfolding hub_signature_def using seq_first runs_some by blast
    then obtain d gs' r' where d: "(d, gs', r') \<in> set (runs (Literal True (lit ''X-Hub-Signature-256'')) p s)"
      unfolding in_order.simps using seq_first group_first by blast
    have "45 \<in> set (lit ''X-Hub-Signature-256'')" by (simp add: lit_def)
    then have "45 \<in> set d" using sub[OF literal_runs[OF d]] by simp
    then show False using assms runs_text[OF d] by simp
  qed
qed

lemma redact_misses:
  assumes "quoted_seps b s" and "45 \<notin> set s"
  shows "redact default_secret_patterns s = s"
proof -
  have "substitute R None s = s" if R: "R \<in> set default_secret_patterns" for R
  proof (rule substitute_none)
    fix p s'
    assume s': "suffix s' s"
    then have "45 \<notin> set s'" "\<exists>b'. quoted_seps b' s'" using assms quoted_suffix by (auto simp: suffix_def)
    then show "runs R p s' = []"
      using R assignment_none authorization_none dash_none unfolding default_secret_patterns_def by auto
  qed
  then show ?thesis by (simp add: redact_def default_secret_patterns_def)
qed

lemma mapping_quoted:
  assumes "\<forall>(k, v) \<in> set kvs. \<forall>c \<in> set k \<union> set v. key_char c"
  shows "quoted_seps False (mapping_text kvs) \<and> 45 \<notin> set (mapping_text kvs)"
proof -
  let ?e = "\<lambda>(k, v). [39] @ k @ [39] @ (lit '': '') @ [39] @ v @ [39]"
  have key: "\<not> separator c \<and> c \<noteq> 45" if "key_char c" for c
    using that value_classes(5)[OF that] by (auto simp: key_char_def ci_letter_def fold_case_def is_digit_def split: if_splits)
  have kv: "\<forall>c \<in> set k \<union> set v. \<not> separator c \<and> c \<noteq> 45" if "(k, v) \<in> set kvs" for k v
    using assms that key by fastforce
  have e: "quoted_seps b (?e x) \<and> 45 \<notin> set (?e x) \<and> ?e x \<noteq> []" if "x \<in> set kvs" for b x
    using kv[of "fst x" "snd x"] that by (cases x) (auto simp: quoted_append quoted_plain lit_def quote_char_def separator_def)
  have "quoted_seps b (join (lit '', '') (map ?e xs)) \<and> 45 \<notin> set (join (lit '', '') (map ?e xs))" if "set xs \<subseteq> set kvs" for b xs
    using that
  proof (induction xs arbitrary: b)
    case (Cons x xs)
    then have 1: "quoted_seps b (?e x)" "45 \<notin> set (?e x)" for b using e[of x] by auto
    show ?case
    proof (cases xs)
      case Nil
      then show ?thesis using 1 by simp
    next
      case (Cons y ys)
      have "join (lit '', '') (map ?e (x # xs)) = ?e x @ (lit '', '') @ join (lit '', '') (map ?e xs)" by (simp add: Cons)
      moreover have "quoted_seps b (lit '', '')" "45 \<notin> set (lit '', '')" for b by (simp_all add: lit_def separator_def)
      ultimately show ?thesis using 1 Cons.IH Cons.prems by (simp only: quoted_append set_append Un_iff) simp
    qed
  qed simp
  then show ?thesis by (auto simp: mapping_text_def quoted_append quoted_plain lit_def separator_def)
qed

end
