(* ===== verification/Pg_Search.thy ===== *)
theory Pg_Search
  imports Postgres Buyer_Memory Ingestion
begin

text \<open>
  Postgres adapters whose reads lean on the database: the item search of
  \<open>resources/repository.py\<close>, whose statement is composed piece by piece, the fact store of
  \<open>ingestion/hindsight.py\<close>, the inbox listing of \<open>memory/buyer.py\<close>, and the rows with a JSON column.
  What the database decides for a clause on a row (JSON containment, numeric casts, text search and its
  rank) is a parameter. Ties of an \<open>ORDER BY\<close> keep the order of the rows.
\<close>

section \<open>Composing the item search\<close>

datatype sql_param = P_Text pystr | P_Value json | P_Number int

datatype clause =
    Of_Tenant pystr
  | Is_Active
  | Of_Kind pystr
  | At_Most pystr json
  | At_Least pystr json
  | Containing "json dict"
  | Text_Match pystr

definition text_vector :: pystr where
  "text_vector = (lit ''(setweight(to_tsvector('' @ [39] @ lit ''spanish'' @ [39] @ lit '', coalesce(summary,'' @ [39, 39] @ lit '')), '' @ [39] @ lit ''A'' @ [39] @ lit '') || '')
     @ (lit ''setweight(to_tsvector('' @ [39] @ lit ''spanish'' @ [39] @ lit '', coalesce(data::text,'' @ [39, 39] @ lit '')), '' @ [39] @ lit ''B'' @ [39] @ lit ''))'')"

fun clause_sql :: "clause \<Rightarrow> pystr" where
  "clause_sql (Of_Tenant _) = (lit ''tenant_id = %s'')"
| "clause_sql Is_Active = (lit ''status = '' @ [39] @ lit ''active'' @ [39])"
| "clause_sql (Of_Kind _) = (lit ''kind = %s'')"
| "clause_sql (At_Most _ _) = (lit ''(data ? %s AND (data->>%s)::numeric <= %s::numeric)'')"
| "clause_sql (At_Least _ _) = (lit ''(data ? %s AND (data->>%s)::numeric >= %s::numeric)'')"
| "clause_sql (Containing _) = (lit ''data @> %s::jsonb'')"
| "clause_sql (Text_Match _) = text_vector @ (lit '' @@ plainto_tsquery('' @ [39] @ lit ''spanish'' @ [39] @ lit '', %s)'')"

fun clause_params :: "clause \<Rightarrow> sql_param list" where
  "clause_params (Of_Tenant t) = [P_Text t]"
| "clause_params Is_Active = []"
| "clause_params (Of_Kind k) = [P_Text k]"
| "clause_params (At_Most k v) = [P_Text k, P_Text k, P_Value v]"
| "clause_params (At_Least k v) = [P_Text k, P_Text k, P_Value v]"
| "clause_params (Containing d) = [P_Text (dumps False (JObj d))]"
| "clause_params (Text_Match q) = [P_Text q]"

text \<open>One pass over the filters: range clauses, and the rest merged into one containment.\<close>

fun split_filters :: "json dict \<Rightarrow> clause list \<times> json dict \<Rightarrow> clause list \<times> json dict" where
  "split_filters [] acc = acc"
| "split_filters ((key, v) # fs) (cs, contain) =
     split_filters fs
       (if startswith key (lit ''max_'') then (cs @ [At_Most (drop 4 key) v], contain)
        else if startswith key (lit ''min_'') then (cs @ [At_Least (drop 4 key) v], contain)
        else (cs, dset contain key v))"

definition given_text :: "pystr option \<Rightarrow> pystr option" where
  "given_text q = (case q of None \<Rightarrow> None | Some t \<Rightarrow> if strip t = [] then None else Some t)"

definition search_clauses :: "pystr \<Rightarrow> json dict option \<Rightarrow> pystr option \<Rightarrow> pystr option \<Rightarrow> clause list" where
  "search_clauses tid filters query_text kind =
     (let (ranges, contain) = split_filters (case filters of None \<Rightarrow> [] | Some f \<Rightarrow> f) ([], [])
      in [Of_Tenant tid, Is_Active]
         @ (case kind of None \<Rightarrow> [] | Some k \<Rightarrow> [Of_Kind k])
         @ ranges
         @ (if contain = [] then [] else [Containing contain])
         @ (case given_text query_text of None \<Rightarrow> [] | Some t \<Rightarrow> [Text_Match t]))"

definition resource_cols :: pystr where
  "resource_cols = (lit ''id, tenant_id, source_id, kind, external_id, data, summary, status, created_at, updated_at'')"

definition search_order :: "pystr option \<Rightarrow> pystr" where
  "search_order q = (case given_text q of None \<Rightarrow> (lit ''created_at DESC'')
     | Some _ \<Rightarrow> (lit ''ts_rank('') @ text_vector @ (lit '', '') @ (lit ''plainto_tsquery('' @ [39] @ lit ''spanish'' @ [39] @ lit '', %s)) DESC, created_at DESC''))"

definition search_sql :: "pystr \<Rightarrow> json dict option \<Rightarrow> pystr option \<Rightarrow> pystr option \<Rightarrow> int \<Rightarrow> pystr \<times> sql_param list" where
  "search_sql tid filters query_text kind lmt =
     (let cs = search_clauses tid filters query_text kind
      in ((lit ''SELECT '') @ resource_cols @ (lit '' FROM resources '') @ (lit ''WHERE '') @ join (lit '' AND '') (map clause_sql cs)
            @ (lit '' ORDER BY '') @ search_order query_text @ (lit '' LIMIT %s''),
          concat (map clause_params cs) @ (case given_text query_text of None \<Rightarrow> [] | Some t \<Rightarrow> [P_Text t]) @ [P_Number lmt]))"

text \<open>What the statement returns.\<close>

record database =
  db_at_most :: "pystr \<Rightarrow> json \<Rightarrow> json dict \<Rightarrow> bool"
  db_at_least :: "pystr \<Rightarrow> json \<Rightarrow> json dict \<Rightarrow> bool"
  db_contains :: "json dict \<Rightarrow> json dict \<Rightarrow> bool"
  db_text :: "pystr \<Rightarrow> pystr \<Rightarrow> json dict \<Rightarrow> bool"
  db_rank :: "pystr \<Rightarrow> pystr \<Rightarrow> json dict \<Rightarrow> int"
  db_failure :: "clause list \<Rightarrow> exn option"

fun clause_holds :: "database \<Rightarrow> resource \<Rightarrow> clause \<Rightarrow> bool" where
  "clause_holds D r (Of_Tenant t) = (re_tenant_id r = t)"
| "clause_holds D r Is_Active = (re_status r = (lit ''active''))"
| "clause_holds D r (Of_Kind k) = (re_kind r = k)"
| "clause_holds D r (At_Most k v) = db_at_most D k v (re_data r)"
| "clause_holds D r (At_Least k v) = db_at_least D k v (re_data r)"
| "clause_holds D r (Containing d) = db_contains D d (re_data r)"
| "clause_holds D r (Text_Match q) = db_text D q (re_summary r) (re_data r)"

definition pg_res_search ::
  "database \<Rightarrow> resource list \<Rightarrow> pystr \<Rightarrow> json dict option \<Rightarrow> pystr option \<Rightarrow> pystr option \<Rightarrow> nat \<Rightarrow> resource list res" where
  "pg_res_search D rows tid filters query_text kind lmt =
     (let cs = search_clauses tid filters query_text kind;
          found = filter (\<lambda>r. list_all (clause_holds D r) cs) rows;
          ordered = (case given_text query_text of None \<Rightarrow> sort_desc re_created_at found
            | Some q \<Rightarrow> sort_desc (\<lambda>r. (db_rank D q (re_summary r) (re_data r), re_created_at r)) found)
      in case db_failure D cs of Some e \<Rightarrow> Inl e | None \<Rightarrow> Inr (take lmt ordered))"

definition pg_res_get :: "resource list \<Rightarrow> pystr \<Rightarrow> resource option" where
  "pg_res_get rows i = row_find re_id rows i"

definition pg_res_delete :: "resource list \<Rightarrow> pystr \<Rightarrow> resource list" where
  "pg_res_delete rows i = row_delete re_id rows i"

definition pg_src_get :: "data_source list \<Rightarrow> pystr \<Rightarrow> data_source option" where
  "pg_src_get rows i = row_find ds_id rows i"

definition pg_src_delete :: "data_source list \<Rightarrow> pystr \<Rightarrow> data_source list" where
  "pg_src_delete rows i = row_delete ds_id rows i"

section \<open>Rows with a JSON column\<close>

text \<open>
  A JSON column is read as the value or as its text, whichever the driver gives; a false value reads as
  the empty object. Timestamps are read as timestamps.
\<close>

definition read_object :: "json \<Rightarrow> json dict res" where
  "read_object cell =
     and_then (case cell of JStr s \<Rightarrow> (case loads s of None \<Rightarrow> Inl (ValueError (lit ''invalid JSON'')) | Some j \<Rightarrow> Inr j) | j \<Rightarrow> Inr j)
       (\<lambda>j. if \<not> truthy j then Inr [] else case j of JObj d \<Rightarrow> Inr d | _ \<Rightarrow> Inl (ValueError (lit ''not an object'')))"

record resource_row =
  rr_id :: pystr
  rr_tenant_id :: pystr
  rr_source_id :: "pystr option"
  rr_kind :: pystr
  rr_external_id :: "pystr option"
  rr_data :: json
  rr_summary :: "pystr option"
  rr_status :: pystr
  rr_created_at :: time
  rr_updated_at :: time

definition resource_to_row :: "resource \<Rightarrow> resource_row" where
  "resource_to_row r =
     \<lparr>rr_id = re_id r, rr_tenant_id = re_tenant_id r, rr_source_id = re_source_id r, rr_kind = re_kind r,
      rr_external_id = re_external_id r, rr_data = JStr (dumps False (JObj (re_data r))), rr_summary = Some (re_summary r),
      rr_status = re_status r, rr_created_at = re_created_at r, rr_updated_at = re_updated_at r\<rparr>"

definition row_to_resource :: "resource_row \<Rightarrow> resource res" where
  "row_to_resource w = and_then (read_object (rr_data w)) (\<lambda>d. Inr
     \<lparr>re_id = rr_id w, re_tenant_id = rr_tenant_id w, re_source_id = rr_source_id w, re_kind = rr_kind w,
      re_external_id = rr_external_id w, re_data = d, re_summary = (case rr_summary w of None \<Rightarrow> [] | Some s \<Rightarrow> s),
      re_status = rr_status w, re_created_at = rr_created_at w, re_updated_at = rr_updated_at w\<rparr>)"

record source_row =
  sr_id :: pystr
  sr_tenant_id :: pystr
  sr_kind :: pystr
  sr_name :: pystr
  sr_config :: json
  sr_last_synced_at :: "time option"
  sr_last_sync_ok :: "bool option"
  sr_last_sync_count :: "int option"
  sr_last_sync_error :: "pystr option"
  sr_status :: pystr
  sr_created_at :: time

definition kind_of :: "pystr \<Rightarrow> source_kind res" where
  "kind_of s = (case find (\<lambda>k. kind_str k = s) [HTML, JSON_API, WEBHOOK, MANUAL, CSV] of
     None \<Rightarrow> Inl (ValueError ([39] @ s @ [39] @ (lit '' is not a valid DataSourceKind''))) | Some k \<Rightarrow> Inr k)"

definition source_to_row :: "data_source \<Rightarrow> source_row" where
  "source_to_row s =
     \<lparr>sr_id = ds_id s, sr_tenant_id = ds_tenant_id s, sr_kind = kind_str (ds_kind s), sr_name = ds_name s,
      sr_config = JStr (dumps False (JObj (ds_config s))), sr_last_synced_at = ds_last_synced_at s,
      sr_last_sync_ok = ds_last_sync_ok s, sr_last_sync_count = ds_last_sync_count s,
      sr_last_sync_error = ds_last_sync_error s, sr_status = ds_status s, sr_created_at = ds_created_at s\<rparr>"

definition row_to_source :: "source_row \<Rightarrow> data_source res" where
  "row_to_source w = and_then (read_object (sr_config w)) (\<lambda>c. and_then (kind_of (sr_kind w)) (\<lambda>k. Inr
     \<lparr>ds_id = sr_id w, ds_tenant_id = sr_tenant_id w, ds_kind = k, ds_name = sr_name w, ds_config = c,
      ds_last_synced_at = sr_last_synced_at w, ds_last_sync_ok = sr_last_sync_ok w,
      ds_last_sync_count = sr_last_sync_count w, ds_last_sync_error = sr_last_sync_error w,
      ds_status = sr_status w, ds_created_at = sr_created_at w\<rparr>))"

record qlog_row =
  qr_id :: "int option"
  qr_tenant_id :: pystr
  qr_buyer_id :: "pystr option"
  qr_query_text :: "pystr option"
  qr_filters :: json
  qr_result_count :: int
  qr_created_at :: time

definition qlog_to_row :: "int option \<Rightarrow> query_log_entry \<Rightarrow> qlog_row" where
  "qlog_to_row i e =
     \<lparr>qr_id = i, qr_tenant_id = ql_tenant_id e, qr_buyer_id = ql_buyer_id e, qr_query_text = ql_query_text e,
      qr_filters = JStr (dumps False (JObj (ql_filters e))), qr_result_count = ql_result_count e, qr_created_at = ql_created_at e\<rparr>"

definition row_to_qlog :: "qlog_row \<Rightarrow> query_log_entry res" where
  "row_to_qlog w = and_then (read_object (qr_filters w)) (\<lambda>f. Inr
     \<lparr>ql_id = qr_id w, ql_tenant_id = qr_tenant_id w, ql_buyer_id = qr_buyer_id w, ql_query_text = qr_query_text w,
      ql_filters = f, ql_result_count = qr_result_count w, ql_created_at = qr_created_at w\<rparr>)"

section \<open>The fact store\<close>

record text_search =
  ft_matches :: "pystr \<Rightarrow> pystr \<Rightarrow> bool"
  ft_rank :: "pystr \<Rightarrow> pystr \<Rightarrow> int"

definition pg_add_fact :: "facts \<Rightarrow> fact \<Rightarrow> facts res" where
  "pg_add_fact rows f = (if row_exists f_id rows (f_id f) then Inl unique_violation else Inr (rows @ [f]))"

definition pg_query_facts :: "text_search \<Rightarrow> facts \<Rightarrow> pystr \<Rightarrow> pystr option \<Rightarrow> nat \<Rightarrow> facts" where
  "pg_query_facts S rows txt tenant_id top_k =
     (if strip txt = [] then []
      else let q = to_or_tsquery txt
           in if q = [] then []
              else take top_k (sort_desc (\<lambda>f. (ft_rank S q (f_content f), f_created_at f))
                     (filter (\<lambda>f. (tenant_id = None \<or> tenant_id = Some (f_tenant_id f)) \<and> ft_matches S q (f_content f)) rows)))"

definition pg_all_for :: "facts \<Rightarrow> pystr \<Rightarrow> facts" where
  "pg_all_for rows tenant_id = sort_desc f_created_at (filter (\<lambda>f. f_tenant_id f = tenant_id) rows)"

section \<open>The inbox listing\<close>

definition pg_prefix_matches :: "pystr option \<Rightarrow> pystr \<Rightarrow> bool" where
  "pg_prefix_matches prefix b = (case prefix of None \<Rightarrow> True | Some p \<Rightarrow> like (p @ (lit ''%'')) b)"

definition pg_buyers :: "table \<Rightarrow> pystr option \<Rightarrow> pystr list" where
  "pg_buyers t prefix = sort (remdups (map r_buyer (filter (\<lambda>r. pg_prefix_matches prefix (r_buyer r)) (tb_rows t))))"

text \<open>\<open>DISTINCT ON (buyer_id)\<close> keeps the newest row of a buyer, \<open>COUNT(*) OVER\<close> counts them all.\<close>

definition pg_thread :: "table \<Rightarrow> pystr \<Rightarrow> thread_summary" where
  "pg_thread t b =
     (let newest = r_turn (last (by_age t b))
      in \<lparr>ts_buyer_id = b, ts_message_count = length (by_age t b), ts_last_at = bi_at newest,
          ts_last_text = take preview_max (bi_text newest)\<rparr>)"

definition pg_list_threads :: "table \<Rightarrow> pystr option \<Rightarrow> nat \<Rightarrow> thread_summary list" where
  "pg_list_threads t prefix lmt = take lmt (sort_desc ts_last_at (map (pg_thread t) (pg_buyers t prefix)))"

section \<open>The statement holds no data\<close>

fun placeholders :: "pystr \<Rightarrow> nat" where
  "placeholders [] = 0"
| "placeholders [_] = 0"
| "placeholders (a # b # r) = (if a = 37 \<and> b = 115 then 1 else 0) + placeholders (b # r)"

lemma placeholders_append:
  "xs = [] \<or> last xs \<noteq> 37 \<Longrightarrow> placeholders (xs @ ys) = placeholders xs + placeholders ys"
proof (induction xs rule: placeholders.induct)
  case (2 a)
  then show ?case by (cases ys) auto
qed (auto split: if_splits)

lemma clause_shape: "placeholders (clause_sql c) = length (clause_params c) \<and> clause_sql c \<noteq> [] \<and> last (clause_sql c) \<noteq> 37"
  by (cases c) (simp_all add: text_vector_def lit_def)

lemma placeholders_join:
  "placeholders (join (lit '' AND '') (map clause_sql cs)) = length (concat (map clause_params cs))
   \<and> (cs \<noteq> [] \<longrightarrow> join (lit '' AND '') (map clause_sql cs) \<noteq> [] \<and> last (join (lit '' AND '') (map clause_sql cs)) \<noteq> 37)"
proof (induction cs)
  case (Cons c cs)
  show ?case
  proof (cases cs)
    case Nil
    then show ?thesis using clause_shape[of c] by simp
  next
    case (Cons d ds)
    let ?j = "join (lit '' AND '') (map clause_sql cs)"
    have j: "join (lit '' AND '') (map clause_sql (c # cs)) = clause_sql c @ (lit '' AND '') @ ?j" by (simp add: Cons)
    have "placeholders ((lit '' AND '') @ ?j) = placeholders ?j" by (subst placeholders_append) (simp_all add: lit_def)
    then show ?thesis
      using Cons.IH clause_shape[of c] unfolding j
      by (subst placeholders_append) (simp_all add: Cons)
  qed
qed simp

lemma search_sql_placeholders:
  "placeholders (fst (search_sql tid filters q kind n)) = length (snd (search_sql tid filters q kind n))"
proof -
  let ?cs = "search_clauses tid filters q kind"
  have ne: "?cs \<noteq> []" by (simp add: search_clauses_def split: prod.split)
  have order: "placeholders (search_order q @ (lit '' LIMIT %s'')) = (case given_text q of None \<Rightarrow> 1 | Some _ \<Rightarrow> 2)"
    by (simp add: search_order_def text_vector_def lit_def split: option.split)
  have blank: "placeholders (32 # x) = placeholders x" for x by (cases x) simp_all
  have "placeholders ((lit ''SELECT '') @ resource_cols @ (lit '' FROM resources '') @ (lit ''WHERE '') @ x) = placeholders x" for x
    by (simp add: resource_cols_def lit_def blank)
  moreover have "placeholders ((lit '' ORDER BY '') @ x) = placeholders x" for x by (simp add: lit_def blank)
  ultimately show ?thesis
    using placeholders_join[of ?cs] ne order
    by (simp add: search_sql_def Let_def placeholders_append split: option.splits)
qed

definition filter_class :: "pystr \<times> json \<Rightarrow> nat" where
  "filter_class f = (if startswith (fst f) (lit ''max_'') then 0 else if startswith (fst f) (lit ''min_'') then 1 else 2)"

lemma split_filters_text:
  "map clause_sql (fst (split_filters fs acc)) =
     map clause_sql (fst acc) @ map (\<lambda>n. if n = 0 then clause_sql (At_Most [] JNull) else clause_sql (At_Least [] JNull))
       (filter (\<lambda>n. n < 2) (map filter_class fs))"
  "snd (split_filters fs acc) = [] \<longleftrightarrow> snd acc = [] \<and> 2 \<notin> filter_class ` set fs"
proof -
  have ne: "dset d k v \<noteq> []" for d :: "json dict" and k v by (cases d) (auto simp: dset_def)
  show "map clause_sql (fst (split_filters fs acc)) =
     map clause_sql (fst acc) @ map (\<lambda>n. if n = 0 then clause_sql (At_Most [] JNull) else clause_sql (At_Least [] JNull))
       (filter (\<lambda>n. n < 2) (map filter_class fs))"
    by (induction fs acc rule: split_filters.induct) (auto simp: filter_class_def)
  show "snd (split_filters fs acc) = [] \<longleftrightarrow> snd acc = [] \<and> 2 \<notin> filter_class ` set fs"
    by (induction fs acc rule: split_filters.induct) (auto simp: filter_class_def ne)
qed

definition search_shape :: "json dict option \<Rightarrow> pystr option \<Rightarrow> pystr option \<Rightarrow> nat list \<times> bool \<times> bool" where
  "search_shape filters q kind = (map filter_class (case filters of None \<Rightarrow> [] | Some f \<Rightarrow> f), given_text q = None, kind = None)"

lemma clauses_text:
  "map clause_sql (search_clauses tid filters q kind) =
     (let cs = map filter_class (case filters of None \<Rightarrow> [] | Some f \<Rightarrow> f)
      in [clause_sql (Of_Tenant []), clause_sql Is_Active]
        @ (if kind = None then [] else [clause_sql (Of_Kind [])])
        @ map (\<lambda>n. if n = 0 then clause_sql (At_Most [] JNull) else clause_sql (At_Least [] JNull)) (filter (\<lambda>n. n < 2) cs)
        @ (if 2 \<in> set cs then [clause_sql (Containing [])] else [])
        @ (if given_text q = None then [] else [clause_sql (Text_Match [])]))"
proof -
  let ?f = "case filters of None \<Rightarrow> [] | Some f \<Rightarrow> f"
  obtain r c where s: "split_filters ?f ([], []) = (r, c)" by fastforce
  have "map clause_sql r = map (\<lambda>n. if n = 0 then clause_sql (At_Most [] JNull) else clause_sql (At_Least [] JNull))
      (filter (\<lambda>n. n < 2) (map filter_class ?f))" "c = [] \<longleftrightarrow> 2 \<notin> set (map filter_class ?f)"
    using split_filters_text[of ?f "([], [])"] by (simp_all only: s fst_conv snd_conv list.map append_Nil set_map) simp_all
  then show ?thesis
    unfolding search_clauses_def s Let_def prod.case by (simp split: option.split)
qed

lemma search_sql_shape:
  assumes "search_shape filters q kind = search_shape filters' q' kind'"
  shows "fst (search_sql tid filters q kind n) = fst (search_sql tid' filters' q' kind' n')"
proof -
  have "map clause_sql (search_clauses tid filters q kind) = map clause_sql (search_clauses tid' filters' q' kind')"
    using assms unfolding clauses_text search_shape_def prod.inject by simp
  moreover have "search_order q = search_order q'"
    using assms by (auto simp: search_order_def search_shape_def split: option.split)
  ultimately show ?thesis by (simp add: search_sql_def Let_def)
qed

section \<open>What the search returns\<close>

lemma always_clauses:
  "Of_Tenant tid \<in> set (search_clauses tid filters q kind)" "Is_Active \<in> set (search_clauses tid filters q kind)"
  "kind = Some k \<Longrightarrow> Of_Kind k \<in> set (search_clauses tid filters q kind)"
  by (simp_all add: search_clauses_def case_prod_beta)

lemma pg_search_scoped:
  assumes "pg_res_search D rows tid filters q kind n = Inr rs"
  shows "length rs \<le> n \<and> (\<forall>r \<in> set rs. r \<in> set rows \<and> re_tenant_id r = tid \<and> re_status r = (lit ''active'') \<and> (kind = None \<or> kind = Some (re_kind r)))"
proof -
  let ?cs = "search_clauses tid filters q kind"
  let ?found = "filter (\<lambda>r. list_all (clause_holds D r) ?cs) rows"
  define ys where "ys = (case given_text q of None \<Rightarrow> sort_desc re_created_at ?found
    | Some q \<Rightarrow> sort_desc (\<lambda>r. (db_rank D q (re_summary r) (re_data r), re_created_at r)) ?found)"
  have ys: "set ys = set ?found" "rs = take n ys"
    using assms by (simp_all add: ys_def pg_res_search_def Let_def split: option.splits)
  have "re_tenant_id r = tid \<and> re_status r = (lit ''active'') \<and> (kind = None \<or> kind = Some (re_kind r))" if "list_all (clause_holds D r) ?cs" for r
  proof -
    have all: "c \<in> set ?cs \<Longrightarrow> clause_holds D r c" for c using that by (simp add: list_all_iff)
    have "re_tenant_id r = tid" "re_status r = (lit ''active'')"
      using all[OF always_clauses(1)] all[OF always_clauses(2)] by simp_all
    moreover have "kind = None \<or> kind = Some (re_kind r)"
    proof (cases kind)
      case (Some k)
      then show ?thesis using all[OF always_clauses(3)[OF Some]] by simp
    qed simp
    ultimately show ?thesis by blast
  qed
  moreover have "set rs \<subseteq> set ?found" using ys set_take_subset by metis
  ultimately show ?thesis using ys(2) by auto
qed

lemma pg_search_unfiltered:
  assumes "db_failure D (search_clauses tid None None kind) = None"
  shows "pg_res_search D rows tid None None kind n = Inr (pg_res_list_for rows tid kind n)"
proof -
  have "filter (\<lambda>r. list_all (clause_holds D r) (search_clauses tid None None kind)) rows
    = filter (\<lambda>r. re_tenant_id r = tid \<and> re_status r = (lit ''active'') \<and> (kind = None \<or> kind = Some (re_kind r))) rows"
    by (rule filter_cong) (auto simp: search_clauses_def given_text_def split: option.split)
  then show ?thesis using assms by (simp add: pg_res_search_def pg_res_list_for_def Let_def given_text_def)
qed

lemma pg_query_scoped:
  "f \<in> set (pg_query_facts S rows txt (Some t) k) \<Longrightarrow> f \<in> set rows \<and> f_tenant_id f = t"
  "length (pg_query_facts S rows txt tn k) \<le> k"
  by (auto simp: pg_query_facts_def Let_def split: if_splits dest!: in_set_takeD)

lemma pg_query_isolated:
  assumes "f_tenant_id f \<noteq> t"
  shows "pg_query_facts S (rows @ [f]) txt (Some t) k = pg_query_facts S rows txt (Some t) k" "pg_all_for (rows @ [f]) t = pg_all_for rows t"
  using assms by (simp_all add: pg_query_facts_def pg_all_for_def Let_def)

section \<open>Rows read back\<close>

lemma object_back: "plain (JObj d) \<Longrightarrow> read_object (JStr (dumps False (JObj d))) = Inr d"
  using loads_dumps[of "JObj d"] by (simp add: read_object_def del: dumps.simps)

lemma kind_back: "kind_of (kind_str k) = Inr k"
  by (cases k) (simp_all add: kind_of_def kind_str_def lit_def)

lemma rows_back:
  "plain (JObj (re_data r)) \<Longrightarrow> row_to_resource (resource_to_row r) = Inr r"
  "plain (JObj (ds_config s)) \<Longrightarrow> row_to_source (source_to_row s) = Inr s"
  "plain (JObj (ql_filters e)) \<Longrightarrow> row_to_qlog (qlog_to_row i e) = Inr (e\<lparr>ql_id := i\<rparr>)"
  by (simp_all add: row_to_resource_def resource_to_row_def row_to_source_def source_to_row_def row_to_qlog_def qlog_to_row_def
      object_back kind_back del: dumps.simps plain.simps)

section \<open>The two inbox listings agree\<close>

definition thread_facts :: "thread_summary \<Rightarrow> pystr \<times> nat \<times> time" where
  "thread_facts s = (ts_buyer_id s, ts_message_count s, ts_last_at s)"

text \<open>The threads of a view of the turns of each buyer.\<close>

definition threads_in :: "(pystr \<Rightarrow> interaction list) \<Rightarrow> pystr option \<Rightarrow> (pystr \<times> nat \<times> time) set" where
  "threads_in view prefix = {(b, length (view b), bi_at (last (view b))) |b. view b \<noteq> [] \<and> (\<forall>p. prefix = Some p \<longrightarrow> startswith b p)}"

lemma mem_threads:
  assumes "dict_ok (mem_store m)" and "int (length (mem_store m)) \<le> n"
  shows "thread_facts ` set (list_threads m prefix n) = threads_in (\<lambda>b. recall m b None) prefix"
proof -
  let ?g = "\<lambda>(buyer_id, bucket). if (\<exists>p. prefix = Some p \<and> \<not> startswith buyer_id p) then None else if bucket = [] then None
           else Some \<lparr>ts_buyer_id = buyer_id, ts_message_count = length bucket,
                      ts_last_at = bi_at (last bucket), ts_last_text = preview (bi_text (last bucket))\<rparr>"
  let ?xs = "List.map_filter ?g (mem_store m)"
  have "length ?xs \<le> length (mem_store m)" by (simp add: List.map_filter_def)
  then have "set (list_threads m prefix n) = set ?xs"
    using assms(2) by (simp add: list_threads_def slice_to_all)
  then have m: "x \<in> set (list_threads m prefix n) \<longleftrightarrow> (\<exists>b bucket. dget (mem_store m) b = Some bucket \<and> ?g (b, bucket) = Some x)" for x
  proof -
    have "x \<in> set (list_threads m prefix n) \<longleftrightarrow> (\<exists>p \<in> set (mem_store m). ?g p = Some x)"
      using \<open>set (list_threads m prefix n) = set ?xs\<close> by (simp only: set_map_filter)
    also have "\<dots> \<longleftrightarrow> (\<exists>b bucket. (b, bucket) \<in> set (mem_store m) \<and> ?g (b, bucket) = Some x)"
      by (simp only: Bex_def split_paired_Ex)
    finally show ?thesis by (simp only: dget_mem_iff[OF assms(1)])
  qed
  have view: "recall m b None \<noteq> [] \<Longrightarrow> dget (mem_store m) b = Some (recall m b None)" for b
    by (auto simp: recall_None dget_or_def split: option.splits)
  have view': "dget (mem_store m) b = Some bucket \<Longrightarrow> recall m b None = bucket" for b bucket
    by (simp add: recall_None dget_or_def)
  show ?thesis
  proof (intro equalityI subsetI)
    fix y assume "y \<in> thread_facts ` set (list_threads m prefix n)"
    then obtain x b bucket where y: "y = thread_facts x" and b: "dget (mem_store m) b = Some bucket" "?g (b, bucket) = Some x"
      using m by auto
    from b(2) have "y = (b, length bucket, bi_at (last bucket))" "bucket \<noteq> []" "\<forall>p. prefix = Some p \<longrightarrow> startswith b p"
      by (auto simp: y thread_facts_def split: if_splits)
    then show "y \<in> threads_in (\<lambda>b. recall m b None) prefix"
      unfolding threads_in_def using view'[OF b(1)] by blast
  next
    fix y assume "y \<in> threads_in (\<lambda>b. recall m b None) prefix"
    then obtain b where b: "y = (b, length (recall m b None), bi_at (last (recall m b None)))" "recall m b None \<noteq> []"
      "\<forall>p. prefix = Some p \<longrightarrow> startswith b p"
      by (auto simp: threads_in_def)
    let ?x = "\<lparr>ts_buyer_id = b, ts_message_count = length (recall m b None), ts_last_at = bi_at (last (recall m b None)),
      ts_last_text = preview (bi_text (last (recall m b None)))\<rparr>"
    have "?g (b, recall m b None) = Some ?x" using b(2,3) by auto
    then have "?x \<in> set (list_threads m prefix n)" using m view[OF b(2)] by blast
    then show "y \<in> thread_facts ` set (list_threads m prefix n)" using b(1) by (force simp: thread_facts_def)
  qed
qed

lemma pg_threads:
  assumes "length (tb_rows t) \<le> n" and "\<And>p. prefix = Some p \<Longrightarrow> 37 \<notin> set p \<and> 95 \<notin> set p \<and> 92 \<notin> set p"
  shows "thread_facts ` set (pg_list_threads t prefix n) = threads_in (\<lambda>b. pg_recall t b None) prefix"
proof -
  have "length (pg_buyers t prefix) \<le> length (tb_rows t)"
    unfolding pg_buyers_def by (metis (no_types, lifting) length_filter_le length_map length_remdups_leq length_sort order.trans)
  then have all: "set (pg_list_threads t prefix n) = pg_thread t ` set (pg_buyers t prefix)"
    using assms(1) by (simp add: pg_list_threads_def)
  have p: "pg_prefix_matches prefix b \<longleftrightarrow> (\<forall>p. prefix = Some p \<longrightarrow> startswith b p)" for b
    using assms(2) by (auto simp: pg_prefix_matches_def like_prefix lit_def split: option.split)
  have a: "(\<exists>r \<in> set (tb_rows t). r_buyer r = b) \<longleftrightarrow> by_age t b \<noteq> []" for b
  proof -
    have "by_age t b \<noteq> [] \<longleftrightarrow> {r \<in> set (tb_rows t). r_buyer r = b} \<noteq> {}"
      using set_by_age[of t b] by (metis set_empty)
    then show ?thesis by blast
  qed
  have b: "b \<in> set (pg_buyers t prefix) \<longleftrightarrow> by_age t b \<noteq> [] \<and> (\<forall>p. prefix = Some p \<longrightarrow> startswith b p)" for b
  proof -
    have "b \<in> set (pg_buyers t prefix) \<longleftrightarrow> (\<exists>r \<in> set (tb_rows t). r_buyer r = b) \<and> pg_prefix_matches prefix b"
      by (auto simp: pg_buyers_def)
    with p a show ?thesis by blast
  qed
  have f: "thread_facts (pg_thread t b) = (b, length (pg_recall t b None), bi_at (last (pg_recall t b None)))" if "by_age t b \<noteq> []" for b
    using that by (simp add: thread_facts_def pg_thread_def pg_recall_None Let_def last_map)
  have "thread_facts ` pg_thread t ` set (pg_buyers t prefix) = threads_in (\<lambda>b. pg_recall t b None) prefix"
  proof (intro equalityI subsetI)
    fix y assume "y \<in> thread_facts ` pg_thread t ` set (pg_buyers t prefix)"
    then obtain b' where "y = thread_facts (pg_thread t b')" "b' \<in> set (pg_buyers t prefix)" by blast
    then show "y \<in> threads_in (\<lambda>b. pg_recall t b None) prefix"
      using b[of b'] f[of b'] unfolding threads_in_def by (auto simp: pg_recall_None)
  next
    fix y assume "y \<in> threads_in (\<lambda>b. pg_recall t b None) prefix"
    then obtain b' where "y = (b', length (pg_recall t b' None), bi_at (last (pg_recall t b' None)))" "pg_recall t b' None \<noteq> []"
      "\<forall>p. prefix = Some p \<longrightarrow> startswith b' p" unfolding threads_in_def by blast
    then show "y \<in> thread_facts ` pg_thread t ` set (pg_buyers t prefix)"
      using b[of b'] f[of b'] by (intro image_eqI[of _ _ "pg_thread t b'"]) (simp_all add: pg_recall_None)
  qed
  with all show ?thesis by simp
qed

lemma stores_small: "length (mem_store (write_all remember m ws)) \<le> length (mem_store m) + length ws"
proof (induction ws rule: rev_induct)
  case (snoc w ws)
  obtain b i where w: "w = (b, i)" by (cases w)
  have d: "length (dset d k v) \<le> Suc (length d)" for d :: "interaction list dict" and k v
    by (induction d) (auto simp: dset_def)
  have "length (mem_store (remember s b i)) \<le> Suc (length (mem_store s))" for s
    by (simp add: remember_store d)
  from this[of "write_all remember m ws"] snoc show ?case by (simp add: write_all_def w)
qed (simp add: write_all_def)

lemma rows_small: "length (tb_rows (write_all pg_remember t ws)) \<le> length (tb_rows t) + length ws"
proof (induction ws rule: rev_induct)
  case (snoc w ws)
  obtain b i where w: "w = (b, i)" by (cases w)
  have "length (tb_rows (pg_remember s b i)) \<le> Suc (length (tb_rows s))" for s
    unfolding pg_remember_def trim_def Let_def insert_row_def by (simp add: le_trans[OF length_filter_le])
  from this[of "write_all pg_remember t ws"] snoc show ?case by (simp add: write_all_def w)
qed (simp add: write_all_def)

end
