(* ===== verification/Setup.thy ===== *)
theory Setup
  imports Api_Account
begin

text \<open>
  How a process is put together: the bridge between the two prefixes of environment variables
  (\<open>_envcompat.py\<close>), the choice of every adapter from the environment (the \<open>_build_*\<close> functions of
  \<open>services/api/main.py\<close>), the scheduler's switch, the allowed origins, and the command line (\<open>cli.py\<close>,
  after \<open>argparse\<close>). The environment is a dictionary of strings.
\<close>

section \<open>The two prefixes\<close>

definition old_prefix :: pystr where
  "old_prefix = (lit ''WASELLER_'')"

definition new_prefix :: pystr where
  "new_prefix = (lit ''WAPSELL_'')"

definition setdefault :: "pystr dict \<Rightarrow> pystr \<Rightarrow> pystr \<Rightarrow> pystr dict" where
  "setdefault d k v = (if dget d k = None then dset d k v else d)"

definition mirror_key :: "pystr \<Rightarrow> pystr option" where
  "mirror_key k =
     (if startswith k old_prefix then Some (new_prefix @ drop (length old_prefix) k)
      else if startswith k new_prefix then Some (old_prefix @ drop (length new_prefix) k)
      else None)"

definition mirror_entry :: "pystr dict \<Rightarrow> pystr \<times> pystr \<Rightarrow> pystr dict" where
  "mirror_entry env kv = (case mirror_key (fst kv) of None \<Rightarrow> env | Some k \<Rightarrow> setdefault env k (snd kv))"

definition apply_env :: "pystr dict \<Rightarrow> pystr dict" where
  "apply_env env = foldl mirror_entry env env"

lemma mirror_back: "mirror_key k = Some m \<Longrightarrow> mirror_key m = Some k \<and> m \<noteq> k"
proof -
  have len: "length old_prefix = 9" "length new_prefix = 8" by (simp_all add: old_prefix_def new_prefix_def)
  have swap: "mirror_key (old_prefix @ r) = Some (new_prefix @ r)" "mirror_key (new_prefix @ r) = Some (old_prefix @ r)" for r
    by (simp_all add: mirror_key_def startswith_def old_prefix_def new_prefix_def lit_def)
  have ne: "old_prefix @ r \<noteq> new_prefix @ r" for r using len by auto
  assume "mirror_key k = Some m"
  then consider r where "k = old_prefix @ r" "m = new_prefix @ r" | r where "k = new_prefix @ r" "m = old_prefix @ r"
    unfolding mirror_key_def startswith_iff by (auto split: if_splits)
  then show ?thesis using swap ne by (cases; metis)
qed

lemma mirror_inj: "mirror_key k = Some m \<Longrightarrow> mirror_key k' = Some m \<Longrightarrow> k = k'"
  using mirror_back by (metis option.inject)

lemma setdefault_get: "dget (setdefault d k v) j = (if j = k \<and> dget d k = None then Some v else dget d j)"
  by (simp add: setdefault_def dget_dset)

lemma mirror_fold:
  assumes "distinct (map fst kvs)"
  shows "dget (foldl mirror_entry env kvs) j =
    (case dget env j of Some v \<Rightarrow> Some v
     | None \<Rightarrow> (case mirror_key j of None \<Rightarrow> None | Some k \<Rightarrow> dget kvs k))"
  using assms
proof (induction kvs arbitrary: env)
  case Nil
  then show ?case by (simp split: option.split)
next
  case (Cons kv kvs)
  obtain k v where kv: "kv = (k, v)" by (cases kv)
  have k: "dget kvs k = None" using Cons.prems by (auto simp: kv dget_None_iff dkeys_def)
  have 1: "dget (mirror_entry env kv) j = (case dget env j of Some x \<Rightarrow> Some x
      | None \<Rightarrow> if mirror_key k = Some j then Some v else None)"
    by (auto simp: mirror_entry_def kv setdefault_get split: option.split)
  have 2: "mirror_key k = Some j \<longleftrightarrow> mirror_key j = Some k" using mirror_back by blast
  show ?case
    using Cons.IH[of "mirror_entry env kv"] Cons.prems k
    by (auto simp: kv[symmetric] 1 2 split: option.split) (simp_all add: kv 2)
qed

lemma apply_get:
  "dict_ok env \<Longrightarrow> dget (apply_env env) j =
     (case dget env j of Some v \<Rightarrow> Some v | None \<Rightarrow> (case mirror_key j of None \<Rightarrow> None | Some k \<Rightarrow> dget env k))"
  using mirror_fold[of env env j] by (simp add: apply_env_def dict_ok_def dkeys_def)

section \<open>Adapters from the environment\<close>

definition env_text :: "pystr dict \<Rightarrow> string \<Rightarrow> pystr" where
  "env_text env k = strip (dget_or env (lit k) [])"

text \<open>The URL handed to \<open>psycopg.connect\<close>, \<open>None\<close> without one.\<close>

definition pg_url :: "pystr dict \<Rightarrow> pystr option" where
  "pg_url env =
     (let url = env_text env ''WAPSELL_POSTGRES_URL''
      in if url = [] then None
         else if startswith url (lit ''postgresql+psycopg://'') then Some ((lit ''postgresql://'') @ drop (length (lit ''postgresql+psycopg://'')) url)
         else if startswith url (lit ''postgresql+psycopg2://'') then Some ((lit ''postgresql://'') @ drop (length (lit ''postgresql+psycopg2://'')) url)
         else Some url)"

datatype backend = Postgres_Store | Memory_Store

record stores =
  st_tenants :: backend
  st_facts :: backend
  st_memory :: backend
  st_templates :: backend
  st_users :: backend
  st_sessions :: backend

definition build_stores :: "pystr option \<Rightarrow> stores" where
  "build_stores connection =
     (let b = (if connection = None then Memory_Store else Postgres_Store)
      in \<lparr>st_tenants = b, st_facts = b, st_memory = b, st_templates = b, st_users = b, st_sessions = b\<rparr>)"

record data_stores =
  st_pauses :: backend
  st_resources :: backend
  st_sources :: backend
  st_query_log :: backend

definition build_data_stores :: "pystr option \<Rightarrow> data_stores" where
  "build_data_stores connection =
     (let b = (if connection = None then Memory_Store else Postgres_Store)
      in \<lparr>st_pauses = b, st_resources = b, st_sources = b, st_query_log = b\<rparr>)"

definition build_subscriptions :: "pystr option \<Rightarrow> backend" where
  "build_subscriptions connection = (if connection = None then Memory_Store else Postgres_Store)"

datatype gateway_choice = Cloud_Api pystr pystr pystr | Memory_Gateway

definition build_gateway :: "pystr dict \<Rightarrow> gateway_choice" where
  "build_gateway env =
     (let token = env_text env ''META_ACCESS_TOKEN''; phone_id = env_text env ''META_PHONE_NUMBER_ID''
      in if token \<noteq> [] \<and> phone_id \<noteq> []
         then Cloud_Api token phone_id (dget_or env (lit ''META_GRAPH_VERSION'') (lit ''v20.0'')) else Memory_Gateway)"

datatype llm_choice = Open_Router pystr | Echo_Llm

definition build_llm :: "pystr dict \<Rightarrow> llm_choice" where
  "build_llm env = (let key = env_text env ''OPENROUTER_API_KEY'' in if key \<noteq> [] then Open_Router key else Echo_Llm)"

datatype notifier_choice = Null_Notifier | Http_Notifier

definition build_handoff_notifier :: "pystr dict \<Rightarrow> notifier_choice" where
  "build_handoff_notifier env =
     (if env_text env ''WAPSELL_HANDOFF_NOTIFIER_DISABLED'' = (lit ''1'') then Null_Notifier else Http_Notifier)"

text \<open>The access token, the backend and the return URL of billing; \<open>None\<close> when it is off.\<close>

definition build_billing_service :: "pystr dict \<Rightarrow> (pystr \<times> backend \<times> pystr) option" where
  "build_billing_service env =
     (let token = env_text env ''MP_ACCESS_TOKEN''
      in if token = [] then None
         else Some (token, build_subscriptions (pg_url env),
           dget_or env (lit ''WAPSELL_BILLING_BACK_URL'') (lit ''https://app.wapsell.com/billing/callback'')))"

definition default_extractor_model :: pystr where
  "default_extractor_model = (lit ''openai/gpt-4o-mini'')"

text \<open>The model the CRM extractor asks; \<open>None\<close> when it is off.\<close>

definition build_crm_extractor :: "pystr dict \<Rightarrow> pystr option" where
  "build_crm_extractor env =
     (if lower (env_text env ''WAPSELL_CRM_EXTRACTOR_ENABLED'') \<noteq> (lit ''true'') then None
      else case build_llm env of
             Echo_Llm \<Rightarrow> None
           | Open_Router _ \<Rightarrow>
               (let model = strip (dget_or env (lit ''WAPSELL_CRM_EXTRACTOR_MODEL'') default_extractor_model)
                in Some (if model = [] then default_extractor_model else model)))"

definition scheduler_poll_seconds :: "pystr dict \<Rightarrow> int" where
  "scheduler_poll_seconds env =
     (case int_of_str (dget_or env (lit ''WAPSELL_SYNC_POLL_SECONDS'') (lit ''300'')) of None \<Rightarrow> 300 | Some n \<Rightarrow> n)"

text \<open>The interval given to the scheduler; \<open>_lifespan\<close> starts it only when the setting is positive.\<close>

definition scheduler_interval :: "pystr dict \<Rightarrow> int" where
  "scheduler_interval env = (let n = scheduler_poll_seconds env in if n = 0 then 1 else n)"

definition scheduler_started :: "pystr dict \<Rightarrow> bool" where
  "scheduler_started env \<longleftrightarrow> scheduler_poll_seconds env > 0"

definition default_origins :: pystr where
  "default_origins = join (lit '','') [(lit ''http://localhost:3000''), (lit ''http://localhost:3001''), (lit ''http://localhost:3002''), (lit ''http://localhost:3003''),
     (lit ''http://127.0.0.1:3000''), (lit ''http://127.0.0.1:3001''), (lit ''http://127.0.0.1:3002''), (lit ''http://127.0.0.1:3003''), (lit ''https://app.wapsell.com'')]"

definition allowed_origins :: "pystr dict \<Rightarrow> pystr list" where
  "allowed_origins env =
     filter (\<lambda>x. x \<noteq> []) (map strip (split_on 44 (dget_or env (lit ''WAPSELL_DASHBOARD_ORIGINS'') default_origins)))"

lemma pg_url_scheme: "pg_url env = Some u \<Longrightarrow> \<not> startswith u (lit ''postgresql+psycopg://'')"
  by (auto simp: pg_url_def Let_def startswith_iff lit_def split: if_splits)

lemma extractor_wired:
  "build_crm_extractor env \<noteq> None \<longleftrightarrow>
     lower (env_text env ''WAPSELL_CRM_EXTRACTOR_ENABLED'') = (lit ''true'') \<and> env_text env ''OPENROUTER_API_KEY'' \<noteq> []"
  by (auto simp: build_crm_extractor_def build_llm_def Let_def)

lemma origins_clean: "x \<in> set (allowed_origins env) \<Longrightarrow> x \<noteq> [] \<and> strip x = x \<and> 44 \<notin> set x"
  using split_on_no_sep set_strip unfolding allowed_origins_def by fastforce

section \<open>The command line\<close>

datatype command =
    Cmd_Create pystr pystr "pystr option"
  | Cmd_Soul pystr pystr
  | Cmd_Skills_List
  | Cmd_Skills_Invoke "pystr option" "pystr option"
  | Cmd_Goal goal_type pystr pystr

datatype printed = Line pystr | Shown "json dict" | Scored rat

definition soul_of_new :: "tenant \<Rightarrow> pystr" where
  "soul_of_new t = soul_build t None []"

definition truth :: "json \<Rightarrow> pystr" where
  "truth j = (if truthy j then (lit ''ACHIEVED'') else (lit ''PENDING''))"

text \<open>
  One run over a new client: what it prints and its exit code. \<open>uid\<close> and \<open>gid\<close> are the identifiers
  drawn, \<open>now\<close> the clock.
\<close>

definition cli_main :: "pystr \<Rightarrow> pystr \<Rightarrow> time \<Rightarrow> skill_host \<Rightarrow> command \<Rightarrow> (printed list \<times> int) res" where
  "cli_main uid gid now h c =
     (case c of
        Cmd_Create name slug model \<Rightarrow>
          and_then (create mem_tenants [] uid now name slug model) (\<lambda>(_, t).
            Inr ([Line ((lit ''created tenant '') @ t_id t @ (lit '' ('') @ t_slug t @ (lit '')''))], 0))
      | Cmd_Soul name slug \<Rightarrow>
          and_then (create mem_tenants [] uid now name slug None) (\<lambda>(_, t). Inr ([Line (soul_of_new t)], 0))
      | Cmd_Skills_List \<Rightarrow> Inr (map Line (skill_names builtin_skills), 0)
      | Cmd_Skills_Invoke skill message \<Rightarrow>
          (case skill of
             None \<Rightarrow> Inr ([Line (lit ''error: --skill required for invoke'')], 1)
           | Some name \<Rightarrow>
               if name = [] then Inr ([Line (lit ''error: --skill required for invoke'')], 1)
               else and_then (snd (client_invoke_skill builtin_skills h now name []
                       [((lit ''message''), JStr (case message of None \<Rightarrow> [] | Some m \<Rightarrow> m))]))
                     (\<lambda>r. Inr ([Shown r], 0)))
      | Cmd_Goal gt message tenant_id \<Rightarrow>
          and_then (snd (lead_qualifier h now [] [((lit ''message''), JStr message)])) (\<lambda>r.
            if \<not> so_success r then Inr ([Line ((lit ''error: '') @ (case so_error r of None \<Rightarrow> (lit ''None'') | Some e \<Rightarrow> e))], 1)
            else let g = \<lparr>go_id = gid, go_tenant_id = tenant_id, go_type = gt, go_status = PENDING_GOAL,
                          go_params = [((lit ''message''), JStr message)], go_created_at = now\<rparr>
                 in and_then (judge g (so_data r)) (\<lambda>v.
                      Inr ([Line ((lit ''goal: '') @ goal_type_str gt @ (lit '' -> '') @ truth (gr_achieved v)), Scored (gr_score v),
                            Shown (so_data r)], 0))))"

end
