(* ===== verification/Daemons.thy ===== *)
theory Daemons
  imports Ingestion
begin

text \<open>
  The two background loops. The ingestion daemon (\<open>run_forever\<close> of \<open>services/preprocessor/worker.py\<close>)
  as a function of what its polls give until the stop event is set. The sync scheduler (\<open>start\<close>,
  \<open>stop\<close>, \<open>_loop\<close> of \<open>resources/scheduler.py\<close>) as a step relation over its tasks, whose steps are the
  pieces of its coroutines between two \<open>await\<close>s, so that they interleave as the event loop may
  interleave them.
\<close>

section \<open>The ingestion daemon\<close>

datatype poll = Idle | Got job

fun run_forever ::
  "extractor dict \<Rightarrow> (nat \<Rightarrow> nat \<Rightarrow> pystr) \<Rightarrow> time \<Rightarrow> nat \<Rightarrow> facts \<Rightarrow> poll list \<Rightarrow> facts \<times> nat \<times> exn option" where
  "run_forever ex uids now n store [] = (store, n, None)"
| "run_forever ex uids now n store (Idle # ps) = run_forever ex uids now n store ps"
| "run_forever ex uids now n store (Got j # ps) =
     (case run_job ex uids now n store j of
        (store', Inl e) \<Rightarrow> (store', n, Some e)
      | (store', Inr _) \<Rightarrow> run_forever ex uids now (Suc n) store' ps)"

section \<open>The sync scheduler\<close>

text \<open>
  A task runs the loop: at its head it looks at its stop event, then it makes a pass, then it waits
  for the event or the timeout. Cancelling ends it at the \<open>await\<close> it is at.
\<close>

datatype phase = Head | Pass | Wait | Done

record sync_task =
  sk_stopping :: bool
  sk_phase :: phase

text \<open>
  The tasks ever created, the current one, and the task whose end a call of \<open>stop\<close> awaits.
  \<open>sh_passes\<close> counts the passes made.
\<close>

record sync_scheduler =
  sh_tasks :: "sync_task list"
  sh_task :: "nat option"
  sh_awaited :: "nat option"
  sh_passes :: nat

definition new_scheduler :: sync_scheduler where
  "new_scheduler = \<lparr>sh_tasks = [], sh_task = None, sh_awaited = None, sh_passes = 0\<rparr>"

definition running :: "sync_scheduler \<Rightarrow> nat \<Rightarrow> bool" where
  "running s i \<longleftrightarrow> i < length (sh_tasks s) \<and> sk_phase (sh_tasks s ! i) \<noteq> Done"

definition scheduler_start :: "sync_scheduler \<Rightarrow> sync_scheduler" where
  "scheduler_start s =
     (case sh_task s of
        Some i \<Rightarrow> if running s i then s
          else s\<lparr>sh_tasks := sh_tasks s @ [\<lparr>sk_stopping = False, sk_phase = Head\<rparr>], sh_task := Some (length (sh_tasks s))\<rparr>
      | None \<Rightarrow> s\<lparr>sh_tasks := sh_tasks s @ [\<lparr>sk_stopping = False, sk_phase = Head\<rparr>], sh_task := Some (length (sh_tasks s))\<rparr>)"

definition set_task :: "sync_scheduler \<Rightarrow> nat \<Rightarrow> (sync_task \<Rightarrow> sync_task) \<Rightarrow> sync_scheduler" where
  "set_task s i f = s\<lparr>sh_tasks := (sh_tasks s)[i := f (sh_tasks s ! i)]\<rparr>"

text \<open>\<open>stop\<close> up to its \<open>await\<close>, and behind it: the task ended by itself, or is cancelled after ten seconds.\<close>

definition stop_request :: "sync_scheduler \<Rightarrow> sync_scheduler" where
  "stop_request s = (case sh_task s of None \<Rightarrow> s
     | Some i \<Rightarrow> (set_task s i (sk_stopping_update (\<lambda>_. True)))\<lparr>sh_awaited := Some i\<rparr>)"

definition stop_finish :: "bool \<Rightarrow> sync_scheduler \<Rightarrow> sync_scheduler" where
  "stop_finish timed_out s = (case sh_awaited s of None \<Rightarrow> s
     | Some i \<Rightarrow>
         (let s1 = (if timed_out then set_task s i (sk_phase_update (\<lambda>_. Done)) else s);
              s2 = (if timed_out then (case sh_task s1 of None \<Rightarrow> s1 | Some j \<Rightarrow> set_task s1 j (sk_phase_update (\<lambda>_. Done))) else s1)
          in s2\<lparr>sh_task := None, sh_awaited := None\<rparr>))"

definition task_step :: "sync_task \<Rightarrow> bool \<Rightarrow> sync_task" where
  "task_step t timeout = (case sk_phase t of
       Head \<Rightarrow> t\<lparr>sk_phase := if sk_stopping t then Done else Pass\<rparr>
     | Pass \<Rightarrow> t\<lparr>sk_phase := Wait\<rparr>
     | Wait \<Rightarrow> if sk_stopping t then t\<lparr>sk_phase := Done\<rparr> else if timeout then t\<lparr>sk_phase := Head\<rparr> else t
     | Done \<Rightarrow> t)"

definition run_task :: "nat \<Rightarrow> bool \<Rightarrow> sync_scheduler \<Rightarrow> sync_scheduler" where
  "run_task i timeout s =
     (set_task s i (\<lambda>t. task_step t timeout))
       \<lparr>sh_passes := sh_passes s + (if sk_phase (sh_tasks s ! i) = Pass then 1 else 0)\<rparr>"

text \<open>
  The steps. One \<open>stop\<close> is awaited at a time; an orderly caller does not call \<open>start\<close> while a \<open>stop\<close>
  is under way.
\<close>

inductive sched_step :: "bool \<Rightarrow> sync_scheduler \<Rightarrow> sync_scheduler \<Rightarrow> bool" for orderly where
  start: "orderly \<longrightarrow> sh_awaited s = None \<Longrightarrow> sched_step orderly s (scheduler_start s)"
| request: "sh_awaited s = None \<Longrightarrow> sched_step orderly s (stop_request s)"
| ended: "sh_awaited s = Some i \<Longrightarrow> \<not> running s i \<Longrightarrow> sched_step orderly s (stop_finish False s)"
| timed_out: "sh_awaited s = Some i \<Longrightarrow> running s i \<Longrightarrow> sched_step orderly s (stop_finish True s)"
| run: "running s i \<Longrightarrow> sched_step orderly s (run_task i timeout s)"

inductive sched_reaches :: "bool \<Rightarrow> sync_scheduler \<Rightarrow> bool" for orderly where
  new: "sched_reaches orderly new_scheduler"
| further: "sched_reaches orderly s \<Longrightarrow> sched_step orderly s s' \<Longrightarrow> sched_reaches orderly s'"

inductive_cases sched_stepE: "sched_step orderly s s'"

definition single_task :: "sync_scheduler \<Rightarrow> bool" where
  "single_task s \<longleftrightarrow> (\<forall>i. running s i \<longrightarrow> sh_task s = Some i) \<and> (\<forall>i. sh_awaited s = Some i \<longrightarrow> sh_task s = Some i)
     \<and> (\<forall>i. sh_task s = Some i \<longrightarrow> i < length (sh_tasks s))"

lemma set_task_sel [simp]:
  "sh_task (set_task s i f) = sh_task s" "sh_awaited (set_task s i f) = sh_awaited s" "sh_passes (set_task s i f) = sh_passes s"
  "length (sh_tasks (set_task s i f)) = length (sh_tasks s)"
  by (simp_all add: set_task_def)

lemma running_set: "running (set_task s i f) j \<longleftrightarrow> (if j = i then i < length (sh_tasks s) \<and> sk_phase (f (sh_tasks s ! i)) \<noteq> Done else running s j)"
  by (auto simp: running_def set_task_def)

lemma running_upd [simp]:
  "running (s\<lparr>sh_task := x\<rparr>) j = running s j" "running (s\<lparr>sh_awaited := y\<rparr>) j = running s j" "running (s\<lparr>sh_passes := n\<rparr>) j = running s j"
  by (simp_all add: running_def)

lemma running_new: "running (s\<lparr>sh_tasks := sh_tasks s @ [t]\<rparr>) j \<longleftrightarrow> running s j \<or> (j = length (sh_tasks s) \<and> sk_phase t \<noteq> Done)"
  by (auto simp: running_def nth_append)

lemma task_step_done: "sk_phase t = Done \<Longrightarrow> task_step t b = t"
  by (simp add: task_step_def)

lemma single_start: "single_task s \<Longrightarrow> sh_awaited s = None \<Longrightarrow> single_task (scheduler_start s)"
  by (auto simp: scheduler_start_def single_task_def running_new split: option.split)

lemma single_request: "single_task s \<Longrightarrow> single_task (stop_request s)"
  by (auto simp: stop_request_def single_task_def running_set split: option.split)

lemma single_ended: "single_task s \<Longrightarrow> sh_awaited s = Some i \<Longrightarrow> \<not> running s i \<Longrightarrow> single_task (stop_finish False s)"
  by (auto simp: stop_finish_def single_task_def)

lemma single_timed_out: "single_task s \<Longrightarrow> sh_awaited s = Some i \<Longrightarrow> single_task (stop_finish True s)"
  by (auto simp: stop_finish_def single_task_def running_set Let_def)

lemma single_run: "single_task s \<Longrightarrow> running s i \<Longrightarrow> single_task (run_task i b s)"
  unfolding single_task_def run_task_def by (fastforce simp: running_set split: if_splits)

lemma single_reached: "sched_reaches True s \<Longrightarrow> single_task s"
proof (induction rule: sched_reaches.induct)
  case new
  then show ?case by (simp add: single_task_def new_scheduler_def running_def)
next
  case (further s s')
  from further.hyps(2) further.IH show ?case
    by (cases rule: sched_stepE) (auto intro: single_start single_request single_ended single_timed_out single_run)
qed

text \<open>A task asked to stop ends after at most two of its steps.\<close>

lemma stops_soon: "sk_stopping t \<Longrightarrow> sk_phase (task_step (task_step t b) b') = Done"
  by (cases "sk_phase t") (simp_all add: task_step_def)

text \<open>
  A \<open>start\<close> between the end of the task and the end of the \<open>stop\<close> that awaits it: the new task runs
  without a handle.
\<close>

definition orphaned :: sync_scheduler where
  "orphaned = stop_finish False (scheduler_start (run_task 0 False (stop_request (scheduler_start new_scheduler))))"

lemma orphaned_eq: "orphaned = \<lparr>sh_tasks = [\<lparr>sk_stopping = True, sk_phase = Done\<rparr>, \<lparr>sk_stopping = False, sk_phase = Head\<rparr>],
    sh_task = None, sh_awaited = None, sh_passes = 0\<rparr>"
  by (simp add: orphaned_def stop_finish_def scheduler_start_def run_task_def stop_request_def new_scheduler_def set_task_def
      running_def task_step_def)

lemma orphaned_reached: "sched_reaches False orphaned"
proof -
  let ?a = "scheduler_start new_scheduler" let ?b = "stop_request ?a" let ?c = "run_task 0 False ?b" let ?d = "scheduler_start ?c"
  note defs = scheduler_start_def run_task_def stop_request_def new_scheduler_def set_task_def running_def task_step_def
  have "sched_reaches False ?a" by (intro sched_reaches.further[OF sched_reaches.new] sched_step.start) simp
  moreover have "sched_step False ?a ?b" by (rule sched_step.request) (simp add: defs)
  moreover have "sched_step False ?b ?c" by (rule sched_step.run) (simp add: defs)
  moreover have "sched_step False ?c ?d" by (rule sched_step.start) simp
  moreover have "sched_step False ?d orphaned" unfolding orphaned_def by (rule sched_step.ended[of _ 0]) (simp_all add: defs)
  ultimately show ?thesis using sched_reaches.further by metis
qed

text \<open>The ingestion daemon does the jobs in order until one raises, as \<open>drain\<close> without a stop does.\<close>

fun jobs_of :: "poll list \<Rightarrow> job list" where
  "jobs_of [] = []"
| "jobs_of (Idle # ps) = jobs_of ps"
| "jobs_of (Got j # ps) = j # jobs_of ps"

lemma forever_drains:
  "run_forever ex uids now n store ps =
     (case drain (run_job ex uids now) (\<lambda>_. False) n store (jobs_of ps) of
        (store', rest, Inr m) \<Rightarrow> (store', m, None)
      | (store', rest, Inl e) \<Rightarrow> (store', n + length (jobs_of ps) - Suc (length rest), Some e))"
proof (induction ps arbitrary: n store rule: jobs_of.induct)
  case (3 j ps)
  obtain s1 r where r: "run_job ex uids now n store j = (s1, r)" by fastforce
  show ?case
  proof (cases r)
    case (Inr x)
    obtain s2 rest m where d: "drain (run_job ex uids now) (\<lambda>_. False) (Suc n) s1 (jobs_of ps) = (s2, rest, m)" by (cases "drain (run_job ex uids now) (\<lambda>_. False) (Suc n) s1 (jobs_of ps)")
    then show ?thesis using 3[of "Suc n" s1] r Inr by (cases m) simp_all
  qed (simp add: r)
qed simp_all

end
