(* ===== verification/Spec2Isabelle.thy ===== *)
theory Spec2Isabelle
  imports Agent Bot_Pauses Buyer_Memory Crm_Recorder Events_Onboarding Handoff Ingestion Learning Py_Json Resource_Sync Resources Soul Tenants Billing Auth Templates Postgres Crm_Extractor Webhook Gateway Skills Token_Cipher Inbound_Live Api_Analytics System Redaction Pg_Search Setup Daemons
begin

text \<open>
  A verification of the Wapsell backend: the Python package \<open>sdk/wapsell\<close> and the services
  \<open>services/api\<close> and \<open>services/preprocessor\<close>. Wapsell runs WhatsApp sales agents for many tenants in
  one process. A Meta signup onboards a tenant (a slug, a phone number, a behavioural prompt, the SOUL).
  An inbound message reaches the signed webhook, is routed by phone number to its tenant, recorded in
  the buyer's memory and in the CRM, and answered: by a turn of the agent loop (memory, facts, items,
  language model), by the handoff text when the tenant's keywords escalate it, or by nobody while a
  human has paused the bot. The operator works through an HTTP API on the same stores; a scheduler
  synchronises external sources into the item store; a subscription is reconciled with Mercado Pago.

  \<^bold>\<open>How the model is built.\<close> A dataclass is a \<open>record\<close>, an enum or union a \<open>datatype\<close>, a dict an
  association list in insertion order (\<open>json dict\<close> where values are JSON), a string a list of code
  points, an \<open>int\<close> unbounded, an instant a number of microseconds in UTC. An operation is a function
  that returns the new state; whatever Python raises is the \<open>Inl\<close> of a sum, an HTTP error one too. What
  the program calls and does not hold is an argument: the language model, HTTP clients, bcrypt,
  HMAC, AES-GCM, SHA-256, file readers, the HTML parser, the database's text search and casts, fresh
  identifiers, the clock. Each clock is read where the code reads it, fresh identifiers are supplied
  by a numbered source.

  \<^bold>\<open>Theories and files.\<close> Foundations:
    \<^item> \<open>Prelude\<close>: dicts, slices, stable sorting, the error monad; \<open>Py_String\<close>: the string methods used;
      \<open>Py_Data\<close>, \<open>Py_Json\<close>: JSON values, truth, equality, printing, \<open>json.dumps\<close> and \<open>json.loads\<close>.
    \<^item> \<open>Domain_Models\<close>: the dataclasses of \<open>sdk/wapsell/*/models.py\<close>, and the locale \<open>keyed_store\<close>.
  Stores and services of the SDK:
    \<^item> \<open>Soul\<close> \<open>agent/soul.py\<close>; \<open>Handoff\<close> \<open>handoff/\<close>; \<open>Tenants\<close> \<open>tenant/\<close>; \<open>Events_Onboarding\<close>
      \<open>events/bus.py\<close>, \<open>onboarding/flow.py\<close>; \<open>Buyer_Memory\<close> \<open>memory/buyer.py\<close>; \<open>Bot_Pauses\<close>
      \<open>inbox/repository.py\<close>.
    \<^item> \<open>Resources\<close>, \<open>Learning\<close>, \<open>Resource_Sync\<close> \<open>resources/\<close>; \<open>Ingestion\<close> \<open>ingestion/\<close> and
      \<open>services/preprocessor/worker.py\<close>; \<open>Crm_Recorder\<close>, \<open>Crm_Extractor\<close> \<open>crm/\<close>.
    \<^item> \<open>Agent\<close> \<open>llm/port.py\<close>, \<open>agent/loop.py\<close>; \<open>Skills\<close> \<open>skills/\<close>, \<open>goal.py\<close>; \<open>Templates\<close>
      \<open>templates/\<close>; \<open>Billing\<close> \<open>billing/\<close>; \<open>Auth\<close> \<open>auth/\<close>; \<open>Webhook\<close>, \<open>Gateway\<close> \<open>whatsapp/\<close>;
      \<open>Token_Cipher\<close> \<open>security/crypto.py\<close>; \<open>Redaction\<close> \<open>security/log_filter.py\<close>.
    \<^item> \<open>Postgres\<close>, \<open>Pg_Search\<close>: the Postgres adapters, a table being the list of its rows and a statement
      an operation on it, with the keys of \<open>infra/postgres/migrations\<close>.
    \<^item> \<open>Setup\<close> \<open>_envcompat.py\<close>, \<open>cli.py\<close> and the set-up of \<open>services/api/main.py\<close>; \<open>Daemons\<close>: the loops of
      \<open>services/preprocessor/worker.py\<close> and \<open>resources/scheduler.py\<close>.
  The application \<open>services/api/main.py\<close>, with \<open>client.py\<close>:
    \<^item> \<open>Api_Core\<close> (state, access, tenants), \<open>Api_Inbox\<close>, \<open>Api_Analytics\<close>, \<open>Api_Data\<close> (templates, sources,
      items), \<open>Api_Crm\<close>, \<open>Api_Account\<close> (log-in, skills, billing, health), \<open>Calendar\<close> (dates of the
      chart); \<open>Api\<close> gathers the tenant routes in one datatype \<open>tenant_call\<close>
      and one function \<open>serve\<close>.
    \<^item> \<open>Scope\<close>: what of the state belongs to a tenant. \<open>Inbound\<close>: the handler of one message over abstract
      collaborators (a \<open>channel\<close>), with the calls made as a trace. \<open>Inbound_Live\<close>: that channel over the
      stores of the process, and the queue of background extractions.
    \<^item> \<open>Api_Views\<close>, \<open>Api_Isolation\<close>: what a tenant's routes read and write. \<open>System\<close>: the process as an
      \<open>inductive\<close> step relation, its reachable states, noninterference.

  \<^bold>\<open>Interfaces.\<close> A contract shared by adapters or relied on by a client is a locale, interpreted on the
  model of every adapter in that adapter's theory: \<open>keyed_store\<close> (users, sessions, subscriptions, sources,
  templates, tenants, items), \<open>resource_repository\<close> (which extends it with the laws of the upsert),
  \<open>tenant_repository\<close> (dictionary and table; the onboarding flow is its client), \<open>buyer_memory\<close> (ring
  buffer and table), \<open>bot_pauses\<close> (registry and table), \<open>respectful_channel\<close> (any relation every
  collaborator of the message handler keeps is kept by the handler; interpreted twice, for what a
  message may touch and for the silence of a paused bot), \<open>unwinding\<close> (noninterference from local
  respect and output consistency; interpreted on the process).

  \<^bold>\<open>What is shown.\<close>
    \<^item> \<^emph>\<open>The whole process.\<close> Reachable states are well typed and well formed; every tenant route is guarded;
      a step on behalf of one tenant changes nothing of another's, and nothing done on behalf of others
      shows in the answer to a tenant's request. The last needs slugs without a colon, since
      buyer identifiers are a slug, a colon and a phone: \<open>colon_slug_leaks\<close> is the attack otherwise.
    \<^item> \<^emph>\<open>The message path.\<close> Which calls are made, in which order, whatever fails; what one exchange
      records; how a handoff or a human take-over silences the bot and for how long; how a delivery of
      many messages is verified and routed; what a turn's prompt rests on.
    \<^item> \<^emph>\<open>Each store.\<close> Its invariant under every operation, the exact result of each query, and that the
      Postgres adapter refines, or where it does not, the in-memory one: memory, inbox, pauses,
      templates, users, sessions, rows of JSON, the search statement.
    \<^item> \<^emph>\<open>Operators and money.\<close> The analytics count what they name, except today's bucket of the chart;
      a paid plan is confirmed by the provider; sessions authenticate until they expire.
    \<^item> \<^emph>\<open>Data flow.\<close> Deduplication, stable re-synchronisation, a scheduler pass no source can stop, one
      scheduler task, CRM counts, idempotent extraction, search scoping, redaction of secrets in logs
      and its gaps, the credential cipher.
  The section \<open>Further facts\<close> at the end holds more of the same kind on single components.

  \<^bold>\<open>Fuel and bounds.\<close> The slug search is given one more round than there are tenants, and
  \<open>slug_search_terminates\<close> shows that this always finds one. \<open>loads\<close> is given twice the length of the text
  and two, each recursive call consuming a character or descending into a value; a parse that succeeds
  succeeds alike with more. The worker loop is a structural recursion over what its polls
  give until the stop event. Quotients (averages, rates, frequencies) are exact rationals. Case and
  accent folding is exact on Latin-1, on the combining marks U+0300 to U+036F and on the letters outside
  it that fold into it where a pattern ignores case.

  \<^bold>\<open>What is relied on.\<close> Fresh identifiers are fresh (hypotheses of the theorems that need it); an AEAD
  inverts itself and bcrypt confirms what it hashed, in the two theorems about them. Rows with equal
  sort keys come in table order. Statements of one operation are not interleaved with another's: the
  API's handlers are modelled as atomic, and interleaving is modelled where the code has it, in the
  scheduler's tasks and in the background extractions, which run at any later point.

  \<^bold>\<open>Not modelled.\<close> The Honcho memory adapter, whose client is an object of an unspecified
  third party; the rate limiter, CORS and cookies on the wire, which belong to the frameworks;
  opening connections and pools; \<open>argparse\<close>; the re-exports of the packages; loading of files; the
  TypeScript dashboard, migrations as SQL and deployment files.
\<close>

section \<open>Sample inputs\<close>

lemmas string_eval =
  lit_def lower_def strip_def lstrip_def rstrip_def startswith_def lower_cp_def is_space_def

definition sample_signup :: signup where
  "sample_signup = \<lparr>mp_phone_number_id = (lit ''5491''), mp_business_name = (lit ''Acme Home''), mp_waba_id = None,
     mp_business_id = None\<rparr>"

definition sample_tenant :: tenant where
  "sample_tenant = (new_tenant (lit ''t1'') 0 (lit ''Acme'') (lit ''acme'') default_model)\<lparr>t_phone_number_id := Some (lit ''5491'')\<rparr>"

definition sample_turn :: "time \<Rightarrow> interaction" where
  "sample_turn n = \<lparr>bi_text = (lit ''hola''), bi_role = Buyer, bi_at = n, bi_metadata = []\<rparr>"

definition sample_writes :: "(pystr \<times> interaction) list" where
  "sample_writes = [((lit ''b''), sample_turn 1), ((lit ''c''), sample_turn 2), ((lit ''b''), sample_turn 3)]"

definition sample_table :: table where
  "sample_table = \<lparr>tb_rows = [], tb_next = 1, tb_max_items = 1, tb_depth = 2\<rparr>"

definition sample_raw :: "json dict" where
  "sample_raw = [((lit ''id''), JInt 7), ((lit ''name''), JStr (lit ''Red chair'')), ((lit ''price''), JInt 90)]"

definition sample_item :: resource where
  "sample_item = \<lparr>re_id = (lit ''i1''), re_tenant_id = (lit ''t1''), re_source_id = Some (lit ''s1''), re_kind = (lit ''item''),
     re_external_id = Some (lit ''7''), re_data = sample_raw, re_summary = (lit ''Red chair''), re_status = (lit ''active''),
     re_created_at = 0, re_updated_at = 0\<rparr>"

definition sample_source :: data_source where
  "sample_source = \<lparr>ds_id = (lit ''s1''), ds_tenant_id = (lit ''t1''), ds_kind = JSON_API, ds_name = (lit ''Feed''), ds_config = [],
     ds_last_synced_at = None, ds_last_sync_ok = None, ds_last_sync_count = None, ds_last_sync_error = None,
     ds_status = (lit ''active''), ds_created_at = 0\<rparr>"

definition sample_soup :: "nat soup" where
  "sample_soup = \<lparr>sp_select = (\<lambda>_ _. Inr []), sp_select_one = (\<lambda>_ _. Inr None), sp_text = (\<lambda>_. []),
     sp_attr = (\<lambda>_ _. None)\<rparr>"

definition sample_ports :: ports where
  "sample_ports = \<lparr>pt_recall = (\<lambda>_ _. Inr []), pt_facts = (\<lambda>_ _ _. Inr []), pt_search = None, pt_hints = None,
     pt_llm = (\<lambda>_ m. Inr \<lparr>lr_text = (lit ''ok''), lr_model = m, lr_metadata = []\<rparr>), pt_resource_kind = None, pt_resource_top_k = 5,
     pt_history_turns = 6, pt_rag_top_k = 4\<rparr>"

definition sample_job :: job where
  "sample_job = \<lparr>jb_tenant_id = (lit ''t1''), jb_path = (lit ''a.csv''), jb_source_label = None\<rparr>"




definition sample_bcrypt :: bcrypt where
  "sample_bcrypt = \<lparr>bc_hash = (\<lambda>p. Inr (120 # p)), bc_check = (\<lambda>p h. Inr (h = 120 # p))\<rparr>"


definition sample_contact :: resource where
  "sample_contact = \<lparr>re_id = (lit ''c1''), re_tenant_id = (lit ''t1''), re_source_id = None, re_kind = contact_kind,
     re_external_id = Some (lit ''buyer:549''), re_data = [((lit ''phone''), JStr (lit ''549'')), ((lit ''turn_count''), JInt 3)], re_summary = (lit ''Ana''),
     re_status = (lit ''active''), re_created_at = 0, re_updated_at = 0\<rparr>"

definition sample_uids :: "nat \<Rightarrow> pystr" where
  "sample_uids n = 120 # replicate n 48"

lemma sample_uids_inj: "inj sample_uids"
  by (auto simp: inj_def sample_uids_def)

lemma sample_uids_fresh: "sample_uids m \<noteq> (lit ''c1'')" "(lit ''c1'') \<noteq> sample_uids m"
  by (simp_all add: sample_uids_def lit_def)

definition sample_extraction :: extraction where
  "sample_extraction = \<lparr>ex_contact_updates = [((lit ''email''), JStr (lit ''m@x.com''))],
     ex_new_tasks = [\<lparr>et_title = (lit ''Llamar''), et_due_at = None, et_priority = None\<rparr>], ex_new_tags = [],
     ex_stage_transition = None\<rparr>"

lemma sample_apply:
  "\<exists>d'. apply_extraction [((lit ''c1''), sample_contact)] sample_uids 5 (lit ''t1'') (lit ''c1'') sample_extraction = Inr d' \<and> length d' \<le> 1000"
  by (simp add: apply_extraction_def extraction_empty_def sample_extraction_def res_get_def sample_contact_def
      patch_contact_def merge_updates_def merge_update_def merge_tags_def protected_contact_fields_def dget_or_def
      upsert_def dset_def write_tasks_def write_task_def maybe_write_stage_activity_def Let_def open_task_titles_def
      res_list_for_def slice_to_def sort_desc_def contact_kind_def task_kind_def split: if_splits)

definition sample_host :: skill_host where
  "sample_host = \<lparr>sk_facts = [], sk_resources = [], sk_query_log = new_query_log\<rparr>"

definition sample_goal :: goal where
  "sample_goal = \<lparr>go_id = (lit ''g1''), go_tenant_id = (lit ''t1''), go_type = QUALIFY, go_status = PENDING_GOAL, go_params = [],
     go_created_at = 0\<rparr>"

definition sample_aead :: aead where
  "sample_aead = \<lparr>ae_encrypt = (\<lambda>n p ad. p @ [0]), ae_decrypt = (\<lambda>n c ad. Some (butlast c))\<rparr>"

definition sample_request :: "nat \<Rightarrow> time \<Rightarrow> request" where
  "sample_request k n = \<lparr>rq_env = [], rq_now = n, rq_cookie = None, rq_uids = (\<lambda>i. k # replicate i 48)\<rparr>"

definition sample_create :: "pystr \<Rightarrow> tenant_create" where
  "sample_create slug = \<lparr>tc_name = (lit ''N''), tc_slug = slug, tc_model = None, tc_phone_number_id = None\<rparr>"

text \<open>Two tenants, with the identifiers \<open>A\<close> (slug \<open>acme\<close>) and \<open>B\<close> (slug \<open>beta\<close>).\<close>

definition two_tenants :: app where
  "two_tenants = fst (create_tenant (sample_create (lit ''beta'')) (sample_request 66 1)
     (fst (create_tenant (sample_create (lit ''acme'')) (sample_request 65 0) start_app)))"

definition tenant_a :: tenant where
  "tenant_a = new_tenant (lit ''A'') 0 (lit ''N'') (lit ''acme'') default_model"

definition tenant_b :: tenant where
  "tenant_b = new_tenant (lit ''B'') 1 (lit ''N'') (lit ''beta'') default_model"

definition sample_outside :: "nat outside" where
  "sample_outside = \<lparr>os_send = (\<lambda>_ _ _. Inl (GatewayError (lit ''down''))), os_http = (\<lambda>_ _ _. Inl (lit ''down'')), os_soup = sample_soup,
     os_sha = id, os_billing = None\<rparr>"

lemma no_auth [simp]: "\<not> auth_required (sample_request k n)" "caller (sample_request k n) a = None"
  by (simp_all add: auth_required_def getenv_def sample_request_def dget_or_def dget_def string_eval caller_def optional_current_user_def)

lemma sample_guard [simp]: "assert_admin (sample_request k n) a = (a, Inr None)" "assert_tenant_access (sample_request k n) a t = (a, Inr None)"
  by (simp_all add: assert_admin_def assert_tenant_access_def) (simp_all add: optional_current_user_def sample_request_def)

lemma sample_request_sel [simp]: "rq_now (sample_request k n) = n" "rq_uids (sample_request k n) i = k # replicate i 48"
  by (simp_all add: sample_request_def)

lemma first_tenant: "fst (create_tenant (sample_create (lit ''acme'')) (sample_request 65 0) start_app) = start_app\<lparr>a_tenants := [((lit ''A''), tenant_a)]\<rparr>"
  by (simp add: create_tenant_def create_def sample_create_def mem_by_slug_def mem_add_def start_app_def dset_def Let_def
      tenant_a_def new_tenant_def dvalues_def lit_def)

lemma two_tenants_eq: "two_tenants = start_app\<lparr>a_tenants := [((lit ''A''), tenant_a), ((lit ''B''), tenant_b)]\<rparr>"
  by (simp add: two_tenants_def first_tenant create_tenant_def create_def sample_create_def mem_by_slug_def mem_add_def start_app_def
      dset_def Let_def tenant_a_def tenant_b_def new_tenant_def dvalues_def lit_def)

lemma two_tenants_reachable: "reachable W two_tenants"
proof -
  have "reachable W (start_app\<lparr>a_tenants := [((lit ''A''), tenant_a)]\<rparr>)"
    unfolding first_tenant[symmetric]
    by (intro reachable.created reachable.started) (simp_all add: sample_create_def start_app_def lit_def dget_def)
  then show ?thesis
    unfolding two_tenants_def first_tenant
    by (intro reachable.created) (simp_all add: sample_create_def start_app_def lit_def dget_def)
qed

definition sample_item_request :: resource_create where
  "sample_item_request = \<lparr>rc_kind = (lit ''item''), rc_external_id = None, rc_data = [], rc_summary = (lit ''Red chair''), rc_source_id = None\<rparr>"

lemma sample_ids_free: "ids_free (sample_request k n) two_tenants"
  by (simp add: ids_free_def two_tenants_eq start_app_def dget_def del: sample_request_sel)

definition sample_deps :: deps where
  "sample_deps = \<lparr>dp_uids = sample_uids, dp_llm = (\<lambda>_ m. Inl (LLMError (lit ''down''))), dp_post = (\<lambda>_ _. Inr 200), dp_extractor = None, dp_env = []\<rparr>"

definition sample_world :: world where
  "sample_world = \<lparr>w_app = two_tenants, w_outbox = [], w_posts = [], w_jobs = [], w_ids = 0\<rparr>"

definition sample_inbound :: inbound_message where
  "sample_inbound = \<lparr>im_tenant_id = (lit ''A''), im_from_number = (lit ''549''), im_text = (lit ''humano''), im_message_id = (lit ''m1''), im_profile_name = None,
     im_received_at = 0\<rparr>"

lemma sample_not_paused: "\<not> is_paused (a_pauses (w_app sample_world)) t b n"
  by (simp add: sample_world_def two_tenants_eq start_app_def is_paused_def dget_def)




section \<open>Tenants and the process as a whole\<close>



text \<open>
  C2: Integrity: in any reachable state, one event on behalf of a tenant (a request on one of
  its routes, an inbound message, an extraction job) leaves every other tenant's record, facts,
  templates, sources, subscriptions, items, query log, pauses and conversation threads as they
  were; in particular the identifiers of another tenant's objects given in the path or the body
  have no effect on them.
\<close>

theorem moves_confined:
  assumes "reachable W a" and "tenant_moves W t n a b" and "t' \<noteq> t"
  shows "same_view t' a b"
  using tenant_moves_confined[OF assms(2) reachable_ok[OF assms(1)]] assms(3) by (simp add: confined_def others_same_def)

lemma moves_confined_witness:
  "same_view (lit ''A'') two_tenants (fst (serve sample_outside (lit ''B'') (Create_Resource sample_item_request) (sample_request 68 3) two_tenants))"
proof (rule moves_confined)
  show "reachable (\<lambda>_. sample_outside) two_tenants" by (rule two_tenants_reachable)
  show "tenant_moves (\<lambda>_. sample_outside) (lit ''B'') (rq_now (sample_request 68 3)) two_tenants
      (fst (serve sample_outside (lit ''B'') (Create_Resource sample_item_request) (sample_request 68 3) two_tenants))"
    by (rule tenant_moves.by_route) (rule sample_ids_free)
qed (simp add: lit_def)

text \<open>
  C3: The type of the process state: in every state reached from the empty one by any sequence
  of API requests of any tenant, onboarding and tenant creation, log-in, log-out and
  registration, payment notifications, skills, inbound messages and background jobs, every store
  is keyed by the identifier of each of its entries without duplicates, the slugs of tenants are
  distinct, and the subscriptions and memory are well formed.
\<close>

theorem reachable_well_formed:
  assumes "reachable W a"
  shows "app_ok a"
  by (rule reachable_ok[OF assms])

lemma reachable_well_formed_witness: "app_ok two_tenants"
  by (rule reachable_well_formed[of "\<lambda>_. sample_outside", OF two_tenants_reachable])



section \<open>Messages, take-over and the inbox\<close>

text \<open>
  C5: The orchestration of one inbound message over collaborators that may fail at any call: the
  calls made are, in this order, the arrival of the message (memory, CRM record, pause check)
  and, unless the bot is found paused, the agent, at most two escalation calls (pause,
  notification), exactly one send of the agent's reply to the buyer's number, the record of that
  reply in memory with the delivery outcome (the vendor id or the error), and the bookkeeping
  that follows. No failure of a collaborator loses the reply or stops the sequence.
\<close>

theorem message_always_answered:
  "\<exists>s' es meta.
    process_inbound (traced C) now t m (s, []) = (process_inbound C now t m s, arrival_events now t m @
      (if found_paused C now t m s then []
       else Agent_Asked t (buyer_id_for (t_slug t) (im_from_number m)) (im_text m) # es
         @ answer_events t (buyer_id_for (t_slug t) (im_from_number m)) now m (reply_text (snd (ch_respond C t (buyer_id_for (t_slug t) (im_from_number m)) (im_text m) s'))) meta))
    \<and> list_all escalation es \<and> length es \<le> 2
    \<and> delivery_noted (snd (ch_send C (im_from_number m) (reply_text (snd (ch_respond C t (buyer_id_for (t_slug t) (im_from_number m)) (im_text m) s'))) (t_id t)
         (fst (compose_reply C now t (buyer_id_for (t_slug t) (im_from_number m)) (im_text m) s')))) meta"
proof -
  define bid where "bid = buyer_id_for (t_slug t) (im_from_number m)"
  let ?s = "fst (ch_is_paused C (t_id t) bid (after_arrival C now t m s))"
  obtain es meta where a: "list_all escalation es" "length es \<le> 2"
    "delivery_noted (snd (ch_send C (im_from_number m) (reply_text (snd (ch_respond C t bid (im_text m) ?s))) (t_id t)
       (fst (compose_reply C now t bid (im_text m) ?s)))) meta"
    "answer_message (traced C) now t bid m (?s, arrival_events now t m) =
       (answer_message C now t bid m ?s, arrival_events now t m @ Agent_Asked t bid (im_text m) # es
          @ answer_events t bid now m (reply_text (snd (ch_respond C t bid (im_text m) ?s))) meta)"
    using answer_traced[of C m t bid ?s now "arrival_events now t m"] by blast
  then show ?thesis
    unfolding bid_def[symmetric]
    using process_paused[of C now t m s "[]"] process_not_paused[of C now t m s, folded bid_def]
    by (intro exI[of _ ?s] exI[of _ es] exI[of _ meta]) (cases "found_paused C now t m s"; simp)
qed

text \<open>
  C6: One message to a bot that is not paused, over the in-memory adapters: the buyer's thread
  grows by exactly two turns, the buyer's and then the agent's, the outbox by exactly one text
  message to that number, the agent's turn carries the identifier the gateway gave, and the text
  sent is the agent's answer computed from the memory that already holds the buyer's turn. No
  other thread changes.
\<close>

theorem exchange_recorded:
  assumes "\<not> is_paused (a_pauses (w_app w)) (t_id t) (buyer_id_for (t_slug t) (im_from_number m)) now"
  shows "\<exists>reply meta v. a_memory (w_app (process_inbound (live D now) now t m w)) =
      remember (remember (a_memory (w_app w)) (buyer_id_for (t_slug t) (im_from_number m)) (buyer_turn now t m))
        (buyer_id_for (t_slug t) (im_from_number m)) (agent_entry now reply meta)
    \<and> w_outbox (process_inbound (live D now) now t m w) =
        w_outbox w @ [outbound now (im_from_number m) reply Text_Message (Some (t_id t)) (Some v)]
    \<and> dget meta (lit ''vendor_message_id'') = Some v
    \<and> reply = reply_text (respond (agent_ports D now (w_app (after_arrival (live D now) now t m w))) t
        (buyer_id_for (t_slug t) (im_from_number m)) (im_text m) None)"
  using answer_live[of D now t "buyer_id_for (t_slug t) (im_from_number m)" m "after_arrival (live D now) now t m w"]
  by (auto simp: not_paused_live[OF assms] arrival_live)

lemma exchange_recorded_witness:
  "\<exists>reply v. w_outbox (process_inbound (live sample_deps 7) 7 tenant_a sample_inbound sample_world) =
     [outbound 7 (lit ''549'') reply Text_Message (Some (lit ''A'')) (Some v)]"
  using exchange_recorded[OF sample_not_paused, where t = tenant_a and m = sample_inbound and now = 7 and D = sample_deps]
  by (auto simp: sample_world_def sample_inbound_def tenant_a_def new_tenant_def)



text \<open>
  C8: Human take-over: after an operator sends a message with a pause of h hours, the thread
  holds that message as a turn flagged human, and until the pause ends an inbound message of the
  buyer is recorded and the bot neither sends nor stores anything, for any tenant, language
  model and channel.
\<close>

theorem takeover_silences_bot:
  assumes "snd (send_human_message send i (buyer_id_for (t_slug t) f) body (Some h) q a) = Inr j"
    and "tenant_at a i t" and "h > 0" and "add_hours (rq_now q) h = Inr until"
    and "w_app w = fst (send_human_message send i (buyer_id_for (t_slug t) f) body (Some h) q a)"
    and "im_from_number m = f" and "now < until"
  shows "(\<exists>meta. dget meta (lit ''human'') = Some (lit ''true'') \<and> a_memory (w_app w) = remember (a_memory a) (buyer_id_for (t_slug t) f)
        \<lparr>bi_text = strip body, bi_role = Agent, bi_at = rq_now q, bi_metadata = meta\<rparr>)
    \<and> w_outbox (process_inbound (live D now) now t m w) = w_outbox w
    \<and> a_memory (w_app (process_inbound (live D now) now t m w)) = remember (a_memory (w_app w)) (buyer_id_for (t_slug t) f) (buyer_turn now t m)"
proof -
  let ?b = "buyer_id_for (t_slug t) f"
  obtain ss where g: "fst (assert_tenant_access q a i) = a\<lparr>a_sessions := ss\<rparr>" using guard_sessions[of q a i] by blast
  obtain vid err where d: "deliver send (split_from_number ?b) (strip body) (t_id t) = (vid, err)" by fastforce
  let ?m = "dset (human_metadata vid err) (lit ''bot_paused_until'') (isoformat until)"
  have t: "dget (a_tenants a) i = Some t" "t_id t = i" using assms(2) by (simp_all add: tenant_at_def)
  have "fst (send_human_message send i ?b body (Some h) q a) = a\<lparr>a_sessions := ss, a_pauses := pause (a_pauses a) i ?b until,
      a_memory := remember (a_memory a) ?b \<lparr>bi_text = strip body, bi_role = Agent, bi_at = rq_now q, bi_metadata = ?m\<rparr>\<rparr>"
    using assms(1) g t buyer_prefix[of t f]
    by (cases "assert_tenant_access q a i"; cases "snd (assert_tenant_access q a i)")
      (auto simp: send_human_message_def tenant_for_conv_def load_tenant_def manager_get_def mem_tenants_def mem_get_def Let_def
        d pause_after_def assms(3,4) split: if_splits)
  then have w: "a_pauses (w_app w) = pause (a_pauses a) i ?b until"
    "a_memory (w_app w) = remember (a_memory a) ?b \<lparr>bi_text = strip body, bi_role = Agent, bi_at = rq_now q, bi_metadata = ?m\<rparr>"
    by (simp_all add: assms(5))
  have "is_paused (a_pauses (w_app w)) (t_id t) (buyer_id_for (t_slug t) (im_from_number m)) now"
    using assms(6,7) t by (simp add: w is_paused_def pause_def)
  then have "process_inbound (live D now) now t m w = after_arrival (live D now) now t m w" by (rule paused_live)
  moreover have "dget ?m (lit ''human'') = Some (lit ''true'')" by (simp add: human_metadata_def Let_def split: option.split)
  ultimately show ?thesis using w(2) by (intro conjI exI[of _ ?m]) (simp_all add: arrival_live assms(6))
qed

lemma takeover_silences_bot_witness:
  "w_outbox (process_inbound (live sample_deps 9) 9 tenant_a sample_inbound
      (sample_world\<lparr>w_app := fst (send_human_message (os_send sample_outside) (lit ''A'') (buyer_id_for (t_slug tenant_a) (lit ''549'')) (lit ''hola'') (Some 2)
         (sample_request 67 5) two_tenants)\<rparr>)) = []"
proof -
  let ?r = "send_human_message (os_send sample_outside) (lit ''A'') (buyer_id_for (t_slug tenant_a) (lit ''549'')) (lit ''hola'') (Some 2) (sample_request 67 5) two_tenants"
  have a: "tenant_at two_tenants (lit ''A'') tenant_a"
    by (simp add: tenant_at_def two_tenants_eq start_app_def dget_def dvalues_def tenant_a_def new_tenant_def)
  have u: "add_hours 5 2 = Inr (5 + hours 2)"
    by (simp add: add_hours_def hours_def end_of_time_def second_def)
  have "\<exists>j. snd ?r = Inr j"
    using a buyer_prefix[of tenant_a "(lit ''549'')"]
    by (simp add: send_human_message_def tenant_for_conv_def load_tenant_def manager_get_def mem_tenants_def mem_get_def tenant_at_def
        deliver_def sample_outside_def pause_after_def u Let_def strip_def lstrip_def rstrip_def is_space_def lit_def)
  then show ?thesis
    using takeover_silences_bot[OF _ a _ _, where until = "5 + hours 2" and h = 2 and q = "sample_request 67 5" and send = "os_send sample_outside" and body = "((lit ''hola''))" and f = "((lit ''549''))"
        and w = "sample_world\<lparr>w_app := fst ?r\<rparr>" and m = sample_inbound and now = 9 and D = sample_deps]
    by (auto simp: u sample_inbound_def sample_world_def hours_def second_def)
qed

text \<open>
  C9: The KPIs of a tenant are what their names say: over the turns since the start of the
  window in the listed threads, the totals are the numbers of buyer, agent, handoff and human
  turns, the conversations are the threads with a turn in the window, the median is that of the
  response times of all threads, and each of at most five keywords carries the number of
  handoffs it caused. One pass over nested dictionaries and counters is shown equal to this
  counting specification.
\<close>

theorem analytics_exact:
  assumes "dict_ok (mem_store m)"
  shows "let since = now - days n; ts = list_threads m (Some (thread_prefix t)) 100; js = window_turns since m ts; r = analytics_of t m now n
    in an_buyer r = count_of (\<lambda>i. bi_role i = Buyer) js \<and> an_agent r = count_of (\<lambda>i. bi_role i = Agent) js
     \<and> an_total r = length js \<and> an_unique r = length (active_threads since m ts)
     \<and> an_handoff r = count_of handed_off js \<and> an_human r = count_of by_human js
     \<and> an_median r = median (concat (map (answers \<circ> in_window since m) ts))
     \<and> length (an_keywords r) \<le> 5 \<and> (\<forall>kc \<in> set (an_keywords r).
          snd kc = count_of (\<lambda>i. handed_off i \<and> nonempty (dget (bi_metadata i) (lit ''handoff_keyword'')) = Some (fst kc)) js)"
  using analytics_totals(1-6,9)[of t m now n] analytics_totals(8)[of _ _ t m now n] analytics_totals(10)[OF assms, of t now n]
  by (simp add: Let_def)

lemma analytics_exact_witness:
  "an_total (analytics_of tenant_a (a_memory two_tenants) (days 40) 30) = 0"
  using analytics_exact[of "a_memory two_tenants" "days 40" 30 tenant_a]
  by (simp add: two_tenants_eq start_app_def dict_ok_def Let_def window_turns_def list_threads_def sort_desc_def slice_to_def List.map_filter_simps)

text \<open>
  C10: The daily chart has exactly as many buckets as days asked, and its buyer and agent bars
  sum to the turns of the window before today: the turns of the current UTC day are in the
  totals and in no bucket, although the code's comment says the series ends at today.
\<close>

theorem chart_misses_today:
  assumes "0 \<le> n" and "year_zero \<le> day_of (now - days n)"
  shows "let js = window_turns (now - days n) m (list_threads m (Some (thread_prefix t)) 100); ds = an_daily (analytics_of t m now n)
    in length ds = nat n
     \<and> sum_list (map db_buyer ds) = count_of (\<lambda>i. bi_role i = Buyer \<and> day_of (bi_at i) < day_of now) js
     \<and> sum_list (map db_agent ds) = count_of (\<lambda>i. bi_role i = Agent \<and> day_of (bi_at i) < day_of now) js"
  using days_total[OF assms, of "window_turns (now - days n) m (list_threads m (Some (thread_prefix t)) 100)"] window_since
  by (auto simp: Let_def analytics_totals(7) comp_def)

lemma chart_misses_today_witness:
  "length (an_daily (analytics_of tenant_a (a_memory two_tenants) (days 800000) 30)) = 30"
  using chart_misses_today[of 30 "days 800000" "a_memory two_tenants" tenant_a]
  by (simp add: Let_def day_of_def days_def second_def year_zero_def)

section \<open>Webhook deliveries\<close>



text \<open>
  C12: Why tenant isolation needs slugs without a colon: a caller who may act on tenant x reads,
  through x's own inbox route, every conversation of any tenant whose slug is x's slug followed
  by a colon, because the route compares the buyer id with the prefix slug plus colon. The
  witness creates the two tenants through POST /tenants, which checks slugs for nothing but
  uniqueness, and reads the other tenant's turn.
\<close>

theorem colon_slug_leaks:
  assumes "may_access q a (t_id x)" and "tenant_at a (t_id x) x" and "t_slug y = t_slug x @ (lit '':'') @ u"
  shows "\<exists>j. snd (get_conversation_thread (t_id x) (buyer_id_for (t_slug y) f) q a) = Inr (JObj j)
    \<and> dget j (lit ''turns'') = Some (JList (map (\<lambda>i. turn_out (role_str (bi_role i)) (bi_text i) (bi_at i) (bi_metadata i))
        (recall (a_memory a) (buyer_id_for (t_slug y) f) None)))"
proof -
  obtain v where v: "snd (assert_tenant_access q a (t_id x)) = Inr v" using assms(1) access_granted by blast
  obtain ss where g: "fst (assert_tenant_access q a (t_id x)) = a\<lparr>a_sessions := ss\<rparr>" using guard_sessions by blast
  have "startswith (buyer_id_for (t_slug y) f) (thread_prefix x)"
    by (simp add: startswith_iff buyer_id_for_def thread_prefix_def assms(3))
  then show ?thesis
    using v g assms(2)
    by (cases "assert_tenant_access q a (t_id x)")
      (simp add: get_conversation_thread_def load_tenant_def manager_get_def mem_tenants_def mem_get_def tenant_at_def Let_def dget_def)
qed

lemma colon_slug_leaks_witness:
  "let a = fst (create_tenant (sample_create (lit ''acme:x'')) (sample_request 66 1) (fst (create_tenant (sample_create (lit ''acme'')) (sample_request 65 0) start_app)));
       b = a\<lparr>a_memory := remember (a_memory a) (buyer_id_for (lit ''acme:x'') (lit ''549'')) (sample_turn 3)\<rparr>
   in \<exists>j. snd (get_conversation_thread (lit ''A'') (buyer_id_for (lit ''acme:x'') (lit ''549'')) (sample_request 67 5) b) = Inr (JObj j)
     \<and> dget j (lit ''turns'') = Some (JList [turn_out (lit ''buyer'') (lit ''hola'') 3 []])"
  using colon_slug_leaks[where q = "sample_request 67 5" and x = tenant_a and y = "tenant_a\<lparr>t_slug := (lit ''acme:x'')\<rparr>" and u = "(lit ''x'')" and f = "(lit ''549'')"
      and a = "let a = fst (create_tenant (sample_create (lit ''acme:x'')) (sample_request 66 1) (fst (create_tenant (sample_create (lit ''acme'')) (sample_request 65 0) start_app)))
        in a\<lparr>a_memory := remember (a_memory a) (buyer_id_for (lit ''acme:x'') (lit ''549'')) (sample_turn 3)\<rparr>"]
  by (simp add: Let_def first_tenant create_tenant_def create_def sample_create_def mem_by_slug_def mem_add_def start_app_def
      dset_def dget_def tenant_a_def new_tenant_def dvalues_def lit_def tenant_at_def may_access_def sample_turn_def
      remember_def recall_def dget_or_def role_str_def limited_def)

section \<open>Log redaction\<close>

text \<open>
  C13: A secret assigned in a log line does not reach any handler: for every log record whose
  rendered message has, set off from the text before, a key the filter knows (the named ones or
  any ..._TOKEN, _SECRET, _PASSWORD, in any case), a colon or equals sign, and a value without
  blanks, quotes and commas, what handlers render after the filter is the same whatever the
  value is, for any text around it, whatever other secrets it holds, and any later formatting.
  Proved through the backtracking matcher, whose choice of match is characterised by a direct
  parser.
\<close>

theorem redaction_hides_secrets:
  assumes "secret_key k" and "separator c" and "plain_value v" and "plain_value w"
    and "before = [] \<or> \<not> word_char (last before)" and "ends_value after"
    and "get_message fmt r = before @ k @ c # v @ after" and "get_message fmt r' = before @ k @ c # w @ after"
  shows "get_message fmt' (fst (filter_record default_secret_patterns fmt r))
    = get_message fmt' (fst (filter_record default_secret_patterns fmt r'))"
proof -
  have "if before = [] then \<not> word_before None else \<not> word_char (last before)" using assms(5) by (auto simp: word_before_def)
  from secret_hidden[OF assms(1-4,6) this] show ?thesis
    by (simp add: filter_record_def assms(7,8) get_message_def[of fmt'] default_secret_patterns_def redact_first)
qed

lemma redaction_hides_secrets_witness:
  "redact default_secret_patterns (lit ''db META_APP_SECRET=s3cr3t, ok'') = redact default_secret_patterns (lit ''db META_APP_SECRET=other, ok'')"
proof -
  have "secret_key (lit ''META_APP_SECRET'')"
    by (simp add: secret_key_def key_name_def any_runs named_keys_def lit_def same_letter_def)
  then show ?thesis
    using redaction_hides_secrets[of "(lit ''META_APP_SECRET'')" 61 "(lit ''s3cr3t'')" "(lit ''other'')" "(lit ''db '')" "(lit '', ok'')" "\<lambda>x _. x"
        "\<lparr>lr_msg = (lit ''db META_APP_SECRET=s3cr3t, ok''), lr_args = []\<rparr>" "\<lparr>lr_msg = (lit ''db META_APP_SECRET=other, ok''), lr_args = []\<rparr>" "\<lambda>x _. x"]
    by (simp add: separator_def plain_value_def ends_value_def value_char_def quote_char_def is_space_def word_char_def is_word_def
        is_digit_def lit_def filter_record_def get_message_def)
qed

text \<open>
  C14: What the log redaction does not cover, against its documentation. The filter the API
  installs on the root logger sees only records logged on the root logger itself: a record of
  any other logger, the API's own wapsell.webhook among them, reaches the handlers as it was.
  And the line the module gives as its reason, logging the environment as a mapping, passes all
  four patterns unchanged whatever its names and plain values, because Python prints a quote
  between the key and the colon.
\<close>

theorem redaction_gaps:
  assumes "\<forall>(k, v) \<in> set kvs. \<forall>c \<in> set k \<union> set v. key_char c"
  shows "logged fmt (install_redaction (\<lambda>_. []) None default_secret_patterns) name r =
      Some (if name = root_logger then fst (filter_record default_secret_patterns fmt r) else r)
    \<and> redact default_secret_patterns (mapping_text kvs) = mapping_text kvs"
proof -
  have "redact default_secret_patterns (mapping_text kvs) = mapping_text kvs"
    using mapping_quoted[OF assms] redact_misses by blast
  then show ?thesis by (simp add: logged_def install_redaction_def filter_record_def)
qed

lemma redaction_gaps_witness:
  "logged (\<lambda>x _. x) (install_redaction (\<lambda>_. []) None default_secret_patterns) (lit ''wapsell.webhook'')
     \<lparr>lr_msg = (lit ''META_APP_SECRET=s3cr3t''), lr_args = []\<rparr> = Some \<lparr>lr_msg = (lit ''META_APP_SECRET=s3cr3t''), lr_args = []\<rparr>
   \<and> redact default_secret_patterns ((lit ''{'') @ [39] @ (lit ''META_APP_SECRET'') @ [39] @ (lit '': '') @ [39] @ (lit ''s3cr3t'') @ [39] @ (lit ''}''))
     = (lit ''{'') @ [39] @ (lit ''META_APP_SECRET'') @ [39] @ (lit '': '') @ [39] @ (lit ''s3cr3t'') @ [39] @ (lit ''}'')"
  using redaction_gaps[of "[((lit ''META_APP_SECRET''), (lit ''s3cr3t''))]" "\<lambda>x _. x" "(lit ''wapsell.webhook'')" "\<lparr>lr_msg = (lit ''META_APP_SECRET=s3cr3t''), lr_args = []\<rparr>"]
  by (simp add: mapping_text_def lit_def plain_letters key_char_def is_digit_def root_logger_def)

section \<open>Tenants and onboarding\<close>

text \<open>
  C15: Onboarding always ends with a tenant that owns the phone number of the signup: from any
  well-formed tenant store and with a fresh identifier, OnboardingFlow.run returns (the slug
  loop ends, no error branch is taken), the tenant is in the resulting store, and it is reported
  as new exactly when no tenant had that phone number before.
\<close>

theorem onboarding_succeeds:
  assumes "store_ok t_id s" and "mem_get s uid = None"
  shows "\<exists>s' r' b' t new. onboarding_run mem_tenants s r b uid now tm p = Some (s', r', b', Inr (t, new))
    \<and> t_phone_number_id t = Some (mp_phone_number_id p) \<and> store_ok t_id s' \<and> t \<in> set (mem_list_all s')
    \<and> (new \<longleftrightarrow> Some (mp_phone_number_id p) \<notin> t_phone_number_id ` set (mem_list_all s))"
  using mem_repo.onboarding_returns[of s uid r b now tm p] assms by simp

lemma onboarding_succeeds_witness:
  "\<exists>s' r' b' t new. onboarding_run mem_tenants [] {} empty_bus (lit ''u1'') 0 0 sample_signup = Some (s', r', b', Inr (t, new))
    \<and> t_phone_number_id t = Some (mp_phone_number_id sample_signup) \<and> store_ok t_id s' \<and> t \<in> set (mem_list_all s')
    \<and> (new \<longleftrightarrow> Some (mp_phone_number_id sample_signup) \<notin> t_phone_number_id ` set (mem_list_all []))"
  by (rule onboarding_succeeds) (simp_all add: mem_get_def)



text \<open>
  C17: Onboarding keeps the two uniqueness invariants of the tenant registry, whether or not it
  creates a tenant: no two tenants share a slug, and no two share a WhatsApp phone number.
\<close>

theorem onboarding_keeps_unique:
  assumes "store_ok t_id s" and "mem_get s uid = None"
    and "slugs_unique (set (mem_list_all s))" and "phones_unique (set (mem_list_all s))"
    and "onboarding_run mem_tenants s r b uid now tm p = Some (s', r', b', res)"
  shows "slugs_unique (set (mem_list_all s')) \<and> phones_unique (set (mem_list_all s'))"
  using mem_repo.onboarding_preserves[of s uid r b now tm p s' r' b' res] assms by simp

lemma onboarding_keeps_unique_witness:
  "\<exists>s r b res. onboarding_run mem_tenants [] {} empty_bus (lit ''u1'') 0 0 sample_signup = Some (s, r, b, res)
    \<and> slugs_unique (set (mem_list_all s)) \<and> phones_unique (set (mem_list_all s))"
proof -
  obtain s r b res where run: "onboarding_run mem_tenants [] {} empty_bus (lit ''u1'') 0 0 sample_signup = Some (s, r, b, res)"
    using mem_repo.onboarding_returns[of "[]" "(lit ''u1'')" "{}" empty_bus 0 0 sample_signup] by (auto simp: mem_get_def)
  then have "slugs_unique (set (mem_list_all s)) \<and> phones_unique (set (mem_list_all s))"
    by (rule onboarding_keeps_unique[of "[]" "(lit ''u1'')", rotated 4])
       (simp_all add: mem_get_def mem_list_all_def slugs_unique_def phones_unique_def)
  with run show ?thesis by blast
qed

text \<open>
  C18: The while loop of OnboardingFlow._unique_slug ends on every store: as many rounds as
  there are tenants, plus one, are enough. The slug it returns is free, and it is the first of
  base, base-2, base-3, ... that is.
\<close>

theorem slug_search_terminates:
  assumes "store_ok t_id s"
  shows "\<exists>j \<ge> 1. unique_slug mem_tenants s base = Some (slug_candidate base j)
    \<and> slug_candidate base j \<notin> t_slug ` set (mem_list_all s)
    \<and> (\<forall>m. 1 \<le> m \<and> m < j \<longrightarrow> slug_candidate base m \<in> t_slug ` set (mem_list_all s))"
proof -
  obtain c where c: "unique_slug mem_tenants s base = Some c"
    using mem_repo.unique_slug_returns[OF assms] by blast
  from mem_repo.unique_slug_free[OF assms c] show ?thesis
    by (auto simp: c)
qed

lemma slug_search_terminates_witness:
  "\<exists>j. unique_slug mem_tenants [] (lit ''acme'') = Some (slug_candidate (lit ''acme'') j)
    \<and> slug_candidate (lit ''acme'') j \<notin> t_slug ` set (mem_list_all [])"
  using slug_search_terminates[of "[]" "(lit ''acme'')"] by auto

section \<open>Handoff, memory and pauses\<close>

text \<open>
  C19: HandoffDetector.evaluate escalates exactly when the tenant enabled handoff and one of its
  keywords, folded and not blank, occurs in the folded message; the keyword it reports is the
  first configured one that does.
\<close>

theorem handoff_decision_exact:
  "(hd_escalate (evaluate m (Some c)) \<longleftrightarrow> hc_enabled c \<and> (\<exists>k \<in> set (hc_keywords c). keyword_hits m k))
   \<and> hd_matched_keyword (evaluate m (Some c)) = (if hc_enabled c then find (keyword_hits m) (hc_keywords c) else None)
   \<and> evaluate m None = skip"
  by (simp add: evaluate_escalates) (auto simp: evaluate_find skip_def split: option.splits)

text \<open>
  C20: Both memory adapters implement the same bounded log. After any sequence of writes in time
  order from an empty store, recalling a buyer, with any limit, gives the newest turns of that
  buyer's own log within the capacity: the ring buffer of InMemoryBuyerMemory and the
  insert-then-trim table of PostgresBuyerMemory return the same list.
\<close>

theorem buyer_window_refines:
  assumes "mem_store m = []" and "mem_max_items m = int n"
    and "tb_rows t = []" and "tb_max_items t = n" and "in_time_order ws"
  shows "recall (write_all remember m ws) b lmt = limited lmt (drop (length (turns_of b ws) - n) (turns_of b ws))
    \<and> pg_recall (write_all pg_remember t ws) b lmt = limited lmt (drop (length (turns_of b ws) - n) (turns_of b ws))"
proof
  have "memory_ok m" "\<And>b. recall m b None = []"
    using assms by (simp_all add: memory_ok_def recall_def limited_def dget_or_def)
  from ring.writes_recall[OF this assms(5), of b lmt] assms(2)
  show "recall (write_all remember m ws) b lmt = limited lmt (drop (length (turns_of b ws) - n) (turns_of b ws))"
    by simp
  have "table_ok t" "\<And>b. pg_recall t b None = []"
    using assms by (simp_all add: pg_empty_ok pg_recall_None by_age_def)
  from pg.writes_recall[OF this assms(5), of b lmt] assms(4)
  show "pg_recall (write_all pg_remember t ws) b lmt = limited lmt (drop (length (turns_of b ws) - n) (turns_of b ws))"
    by simp
qed

lemma buyer_window_refines_witness:
  "recall (write_all remember (new_memory\<lparr>mem_max_items := 1\<rparr>) sample_writes) (lit ''b'') (Some 5)
     = limited (Some 5) (drop (length (turns_of (lit ''b'') sample_writes) - 1) (turns_of (lit ''b'') sample_writes))
   \<and> pg_recall (write_all pg_remember sample_table sample_writes) (lit ''b'') (Some 5)
     = limited (Some 5) (drop (length (turns_of (lit ''b'') sample_writes) - 1) (turns_of (lit ''b'') sample_writes))"
  by (rule buyer_window_refines) (simp_all add: new_memory_def sample_table_def sample_writes_def sample_turn_def in_time_order_def)

text \<open>
  C21: The two bot-pause adapters are equivalent: after any history of pauses and resumes from
  empty stores, the bot is paused for a pair at a time in the in-memory registry exactly when it
  is in the Postgres table, and that is when the last entry of the pair is a pause that ends
  later.
\<close>

theorem pauses_agree:
  "is_paused (replay pause resume [] ops) t b now = pg_is_paused (replay pg_upsert pg_delete [] ops) t b now
   \<and> is_paused (replay pause resume [] ops) t b now =
      (case find (\<lambda>(t', b', _). t' = t \<and> b' = b) (rev ops) of
         None \<Rightarrow> False | Some (_, _, u) \<Rightarrow> (case u of None \<Rightarrow> False | Some u \<Rightarrow> u > now))"
proof -
  have e: "pauses_ok []" "is_paused [] t b now = False" by (simp_all add: pauses_ok_def is_paused_def)
  show ?thesis
    using mem_pauses.last_write_wins[OF e(1), of ops t b now] adapters_agree[of ops t b now]
    unfolding e(2) by simp
qed

section \<open>Resources and synchronisation\<close>

text \<open>
  C22: Writing an item through the upsert keeps one item per (tenant, source, external id): the
  new item is stored, exactly the items that share its three keys under another identifier are
  dropped, and a store without duplicates stays without.
\<close>

theorem upsert_deduplicates:
  assumes "store_ok re_id d" and "dedup_ok (set (dvalues d))"
  shows "store_ok re_id (upsert d r) \<and> dedup_ok (set (dvalues (upsert d r)))
    \<and> (\<forall>x. x \<in> set (dvalues (upsert d r)) \<longleftrightarrow>
         x = r \<or> (x \<in> set (dvalues d) \<and> re_id x \<noteq> re_id r \<and> \<not> clash x r))"
  using resources.put_ok2[OF assms(1)] resources.put_dedup[OF assms] resources.put_items[OF assms(1)] by simp

lemma upsert_deduplicates_witness:
  "store_ok re_id (upsert [] sample_item) \<and> dedup_ok (set (dvalues (upsert [] sample_item)))
    \<and> (\<forall>x. x \<in> set (dvalues (upsert [] sample_item)) \<longleftrightarrow>
         x = sample_item \<or> (x \<in> set (dvalues ([] :: resource_store)) \<and> re_id x \<noteq> re_id sample_item \<and> \<not> clash x sample_item))"
  by (rule upsert_deduplicates) (simp_all add: dedup_ok_def dvalues_def)









section \<open>CRM, ingestion and the agent loop\<close>





section \<open>The Postgres adapters\<close>

text \<open>
  C29: The item search over Postgres, whose SQL is assembled from what the language model and
  the buyer ask: the text of the statement has exactly one placeholder per bound parameter and
  depends only on the shape of the search (the kinds of filter in order, whether there is a text
  and a kind), never on a tenant, key, value or text, so nothing supplied enters the SQL.
  Whatever the database decides about containment, casts and text, the result is at most limit
  many active items of the tenant, of the kind asked.
\<close>

theorem postgres_search_safe:
  assumes "search_shape filters q kind = search_shape filters' q' kind'"
    and "pg_res_search D rows tid filters q kind m = Inr rs"
  shows "placeholders (fst (search_sql tid filters q kind n)) = length (snd (search_sql tid filters q kind n))
    \<and> fst (search_sql tid filters q kind n) = fst (search_sql tid' filters' q' kind' n')
    \<and> length rs \<le> m
    \<and> (\<forall>r \<in> set rs. r \<in> set rows \<and> re_tenant_id r = tid \<and> re_status r = (lit ''active'') \<and> (kind = None \<or> kind = Some (re_kind r)))"
  using search_sql_placeholders search_sql_shape[OF assms(1)] pg_search_scoped[OF assms(2)] by blast

lemma postgres_search_safe_witness:
  "fst (search_sql (lit ''t1'') (Some [((lit ''max_price''), JInt 5)]) None None 3) = fst (search_sql (lit ''t2'') (Some [((lit ''max_rooms''), JInt 9)]) None None 4)"
proof -
  let ?D = "\<lparr>db_at_most = \<lambda>_ _ _. True, db_at_least = \<lambda>_ _ _. True, db_contains = \<lambda>_ _. True, db_text = \<lambda>_ _ _. True,
    db_rank = \<lambda>_ _ _. 0, db_failure = \<lambda>_. None\<rparr>"
  have "search_shape (Some [((lit ''max_price''), JInt 5)]) None None = search_shape (Some [((lit ''max_rooms''), JInt 9)]) None None"
    by (simp add: search_shape_def filter_class_def startswith_def lit_def)
  then show ?thesis
    using postgres_search_safe[where D = ?D and rows = "[]" and m = 1 and rs = "[]"]
    by (simp add: pg_res_search_def Let_def given_text_def sort_desc_def)
qed





section \<open>Postgres adapters\<close>





section \<open>Billing and authentication\<close>



text \<open>
  C35: No tenant gets a paid plan unless Mercado Pago says so: a step of the billing service
  makes a subscription authorized only if the API answered the status authorized for that
  subscription's identifier; what a webhook itself claims is never used.
\<close>

theorem payment_confirmed_by_provider:
  assumes "billing_step B d d'" and "store_ok su_id d" and "s' \<in> set (dvalues d')" and "su_status s' = AUTHORIZED"
  shows "s' \<in> set (dvalues d) \<or> (\<exists>pid data. su_mp_preapproval_id s' = Some pid
    \<and> get_preapproval (bs_http B) (bs_token B) pid = Inr data
    \<and> lower (py_str (dget_or data (lit ''status'') (JStr []))) = (lit ''authorized''))"
  using assms by (rule step_authorizes)

lemma payment_confirmed_by_provider_witness:
  "\<exists>s. s \<in> set (dvalues (fst (reconcile echo_mp [((lit ''a''), echo_sub (lit ''a''))] 2 (lit ''a'')))) \<and> su_status s = AUTHORIZED
    \<and> (\<exists>pid data. su_mp_preapproval_id s = Some pid \<and> get_preapproval (bs_http echo_mp) (bs_token echo_mp) pid = Inr data
         \<and> lower (py_str (dget_or data (lit ''status'') (JStr []))) = (lit ''authorized''))"
proof -
  let ?d = "[((lit ''a''), echo_sub (lit ''a''))]"
  have f: "su_id (echo_sub (lit ''a'')) = (lit ''a'')" "su_status (echo_sub (lit ''a'')) = PENDING" "su_started_at (echo_sub (lit ''a'')) = None"
    "su_mp_preapproval_id (echo_sub (lit ''a'')) = Some (lit ''a'')" by (simp_all add: echo_sub_def new_subscription_def)
  have ok: "store_ok su_id ?d" by (simp add: store_ok_def dict_ok_def f)
  obtain s where s: "fst (reconcile echo_mp ?d 2 (lit ''a'')) = sub_add ?d s" "su_status s = AUTHORIZED"
    using echo_reconcile[of ?d "(lit ''a'')" "echo_sub (lit ''a'')"] by (auto simp: sub_by_preapproval_def sub_get_def f)
  then have mem: "s \<in> set (dvalues (fst (reconcile echo_mp ?d 2 (lit ''a''))))"
    using subs.put_values[OF ok] by simp
  moreover have "s \<notin> set (dvalues ?d)" using s(2) f by auto
  ultimately show ?thesis
    using payment_confirmed_by_provider[OF billing_step.reconciled ok mem s(2)] s(2) by blast
qed

text \<open>
  C36: A registered user can log in: if bcrypt confirms the password it hashed, login with any
  spelling of the same email returns the user and a session, that session authenticates the user
  until it expires and not after, and logging out ends it.
\<close>

theorem register_login_authenticate:
  assumes "users_ok us" and "user_get us uid = None"
    and "register bc us uid now email password rl t = Inr (us', u)"
    and "\<And>h. bc_hash bc password = Inr h \<Longrightarrow> bc_check bc password h = Inr True"
    and "lower (strip spelling) = lower (strip email)" and "tok \<noteq> []"
  shows "\<exists>ss' s. login bc dur us' ss tok at_login spelling password = Inr (ss', u, s) \<and> s_token s = tok
    \<and> (snd (authenticate us' ss' later (Some tok)) = Inr u \<longleftrightarrow> later < at_login + dur)
    \<and> snd (authenticate us' (fst (logout ss' tok)) later (Some tok)) \<noteq> Inr u"
proof -
  have reg: "users_ok us'" "u \<in> set (dvalues us')" "u_email u = lower (strip email)"
    "bc_hash bc password = Inr (u_password_hash u)"
    using register_ok[OF assms(3,1,2)] by auto
  define s where "s = \<lparr>s_token = tok, s_user_id = u_id u, s_expires_at = at_login + dur, s_created_at = at_login\<rparr>"
  have "login bc dur us' ss tok at_login spelling password = Inr (session_add ss s, u, s)"
    unfolding s_def
    by (rule login_ok[OF reg(1,2) trans[OF reg(3) assms(5)[symmetric]] assms(4)[OF reg(4)], unfolded Let_def])
  moreover have "user_get us' (u_id u) = Some u"
    by (rule user_repo.get_self[OF reg(1)[unfolded users_ok_def, THEN conjunct1] reg(2)])
  then have "snd (authenticate us' (session_add ss s) later (Some tok)) = Inr u \<longleftrightarrow> later < at_login + dur"
    using assms(6) by (auto simp: authenticate_iff session_get_def session_add_def s_def)
  moreover have "snd (authenticate us' (fst (logout (session_add ss s) tok)) later (Some tok)) \<noteq> Inr u"
    using logout_ends[of us' "session_add ss s" tok later] by auto
  ultimately show ?thesis by (intro exI[of _ "session_add ss s"] exI[of _ s]) (simp add: s_def)
qed

lemma register_login_authenticate_witness:
  "\<exists>us' u ss' s. register sample_bcrypt [] (lit ''u1'') 0 (lit ''Ana@Mail.com'') (lit ''secreto123'') TENANT None = Inr (us', u)
    \<and> login sample_bcrypt session_duration us' [] (lit ''tok'') 5 (lit '' ana@mail.com'') (lit ''secreto123'') = Inr (ss', u, s)"
proof -
  obtain us' u where reg: "register sample_bcrypt [] (lit ''u1'') 0 (lit ''Ana@Mail.com'') (lit ''secreto123'') TENANT None = Inr (us', u)"
    by (simp add: register_def validate_email_def validate_password_def sample_bcrypt_def user_add_def Let_def string_eval)
  have "\<exists>ss' s. login sample_bcrypt session_duration us' [] (lit ''tok'') 5 (lit '' ana@mail.com'') (lit ''secreto123'') = Inr (ss', u, s) \<and> s_token s = (lit ''tok'')
    \<and> (snd (authenticate us' ss' 6 (Some (lit ''tok''))) = Inr u \<longleftrightarrow> 6 < 5 + session_duration)
    \<and> snd (authenticate us' (fst (logout ss' (lit ''tok''))) 6 (Some (lit ''tok''))) \<noteq> Inr u"
    by (rule register_login_authenticate[OF _ _ reg])
       (simp_all add: users_ok_def user_get_def sample_bcrypt_def string_eval)
  with reg show ?thesis by blast
qed

text \<open>
  C37: A request is authenticated exactly when its token is a live session of an existing user;
  a failed attempt removes at most the session it named, a successful one changes nothing, and
  the login error does not tell an unknown email from a wrong password.
\<close>

theorem authentication_exact:
  "(snd (authenticate us ss now token) = Inr u \<longleftrightarrow>
     (\<exists>tok s. token = Some tok \<and> tok \<noteq> [] \<and> session_get ss tok = Some s \<and> now < s_expires_at s
        \<and> user_get us (s_user_id s) = Some u))
   \<and> fst (authenticate us ss now token) =
       (case token of None \<Rightarrow> ss
        | Some tok \<Rightarrow> if (\<exists>u. snd (authenticate us ss now token) = Inr u) \<or> tok = [] then ss else dpop ss tok)
   \<and> (case login bc dur us ss tok now email password of
        Inl e \<Rightarrow> e = AuthError (lit ''invalid email or password'') | Inr _ \<Rightarrow> True)"
  using login_error_uniform[of bc dur us ss tok now email password]
  by (intro conjI authenticate_iff authenticate_sessions) (simp split: sum.split)

section \<open>CRM extraction\<close>



section \<open>Webhook and gateway\<close>

section \<open>Skills and credentials\<close>

text \<open>
  C39: A search the agent makes through its skill returns at most 25 rows, all of them active
  items of the tenant of the conversation, changes no item and no fact, and adds at most one
  entry to the query log.
\<close>

theorem search_skill_scoped:
  assumes "resource_search h now context params = (h', Inr r)" and "so_success r"
  shows "\<exists>tenant hits n. jget context ''tenant_id'' = tenant \<and> truthy tenant
    \<and> jget (so_data r) ''matches'' = JList (map resource_match hits) \<and> length hits \<le> 25
    \<and> (\<forall>x \<in> set hits. x \<in> set (dvalues (sk_resources h)) \<and> re_tenant_id x = py_str tenant \<and> re_status x = (lit ''active''))
    \<and> sk_resources h' = sk_resources h \<and> sk_facts h' = sk_facts h
    \<and> qg_entries (sk_query_log h') = qg_entries (sk_query_log h) @ n \<and> length n \<le> 1"
  using assms by (rule resource_search_scoped)

lemma search_skill_scoped_witness:
  "\<exists>h' r. resource_search sample_host 0 [((lit ''tenant_id''), JStr (lit ''t1''))] [] = (h', Inr r) \<and> sk_facts h' = sk_facts sample_host"
proof -
  obtain h' r where run: "resource_search sample_host 0 [((lit ''tenant_id''), JStr (lit ''t1''))] [] = (h', Inr r)" "so_success r"
    by (simp add: resource_search_def sample_host_def jget_def dget_or_def string_or_def clamp_limit_def res_search_def
        res_list_for_def slice_to_def sort_desc_def skill_ok_def Let_def)
  from search_skill_scoped[OF run] run show ?thesis by blast
qed

text \<open>
  C40: A credential survives the cipher: if the authenticated encryption inverts itself,
  decrypting the token of a text with the same associated data gives the text back, whatever its
  length and alphabet, although the padding of the base64 was thrown away.
\<close>

theorem token_round_trip:
  assumes "aead_ok A" and "bytes nonce" and "length nonce = nonce_bytes" and "encrypt A nonce s ad = Inr tok"
  shows "decrypt A tok ad = Inr s"
  using assms by (rule decrypt_encrypt)

lemma token_round_trip_witness:
  "\<exists>tok. encrypt sample_aead (replicate 12 7) (lit ''clave '' @ [241]) None = Inr tok \<and> decrypt sample_aead tok None = Inr (lit ''clave '' @ [241])"
proof -
  obtain tok where t: "encrypt sample_aead (replicate 12 7) (lit ''clave '' @ [241]) None = Inr tok"
    by (simp add: encrypt_def utf8_encode_def encodable_def lit_def)
  have "decrypt sample_aead tok None = Inr (lit ''clave '' @ [241])"
    by (rule token_round_trip[OF _ _ _ t]) (simp_all add: aead_ok_def sample_aead_def bytes_def nonce_bytes_def)
  with t show ?thesis by blast
qed

section \<open>Further facts\<close>

text \<open>
  slugify maps every business name to a well-formed slug: not empty, only lower-case ASCII
  letters, digits and hyphens, no two hyphens in a row and none at either end. It leaves a
  string of that form alone, so it is idempotent.
\<close>

theorem slugify_normal_form:
  "slug_ok (slugify name) \<and> slugify (slugify name) = slugify name \<and> (slugify name = name \<longleftrightarrow> slug_ok name)"
  by (metis slugify_ok slugify_id)

text \<open>
  The router resolves an inbound phone number exactly when a tenant owns it, to a tenant that
  owns it; where phone numbers are unique that is the tenant. Otherwise it raises
  UnknownTenantError.
\<close>

theorem tenant_resolution_exact:
  assumes "store_ok t_id s" and "phones_unique (set (mem_list_all s))"
  shows "resolve mem_tenants s p = Inr t \<longleftrightarrow> t \<in> set (mem_list_all s) \<and> t_phone_number_id t = Some p"
    (is "?l \<longleftrightarrow> ?r")
proof
  show "?l \<Longrightarrow> ?r"
    using mem_repo.resolve_spec(2)[OF assms(1), of p t] by simp
  show "?r \<Longrightarrow> ?l"
    using mem_repo.resolve_unique[of s t p] assms by simp
qed

lemma tenant_resolution_exact_witness:
  "resolve mem_tenants [(t_id sample_tenant, sample_tenant)] (lit ''5491'') = Inr sample_tenant
     \<longleftrightarrow> sample_tenant \<in> set (mem_list_all [(t_id sample_tenant, sample_tenant)]) \<and> t_phone_number_id sample_tenant = Some (lit ''5491'')"
  by (rule tenant_resolution_exact) (simp_all add: store_ok_def dict_ok_def phones_unique_def mem_list_all_def dvalues_def)

text \<open>
  TenantSupervisor.bring_up and bring_down on a known tenant set the record's status to ACTIVE
  or SUSPENDED and nothing else of it, start or stop exactly that tenant's process, and leave
  every other tenant alone; on an unknown tenant they raise and change nothing.
\<close>

theorem supervisor_transitions:
  assumes "store_ok t_id s"
  shows "case mem_get s tid of
      None \<Rightarrow> bring_up mem_tenants s r tid = (r, Inl (unknown_tenant tid))
        \<and> bring_down mem_tenants s r tid = (r, Inl (unknown_tenant tid))
    | Some t \<Rightarrow>
        (\<exists>s'. bring_up mem_tenants s r tid = (insert tid r, Inr (s', t\<lparr>t_status := ACTIVE\<rparr>)) \<and> store_ok t_id s'
          \<and> set (mem_list_all s') = insert (t\<lparr>t_status := ACTIVE\<rparr>) {x \<in> set (mem_list_all s). t_id x \<noteq> tid})
      \<and> (\<exists>s'. bring_down mem_tenants s r tid = (r - {tid}, Inr (s', t\<lparr>t_status := SUSPENDED\<rparr>)) \<and> store_ok t_id s'
          \<and> set (mem_list_all s') = insert (t\<lparr>t_status := SUSPENDED\<rparr>) {x \<in> set (mem_list_all s). t_id x \<noteq> tid})"
  using mem_repo.bring_up_spec[OF assms, where tid = tid and r = r] mem_repo.bring_down_spec[OF assms, where tid = tid and r = r]
  by (simp split: option.splits)

lemma supervisor_transitions_witness:
  "case mem_get [((lit ''t1''), sample_tenant)] (lit ''t1'') of
      None \<Rightarrow> bring_up mem_tenants [((lit ''t1''), sample_tenant)] {} (lit ''t1'') = ({}, Inl (unknown_tenant (lit ''t1'')))
        \<and> bring_down mem_tenants [((lit ''t1''), sample_tenant)] {} (lit ''t1'') = ({}, Inl (unknown_tenant (lit ''t1'')))
    | Some t \<Rightarrow>
        (\<exists>s'. bring_up mem_tenants [((lit ''t1''), sample_tenant)] {} (lit ''t1'') = (insert (lit ''t1'') {}, Inr (s', t\<lparr>t_status := ACTIVE\<rparr>)) \<and> store_ok t_id s'
          \<and> set (mem_list_all s') = insert (t\<lparr>t_status := ACTIVE\<rparr>) {x \<in> set (mem_list_all [((lit ''t1''), sample_tenant)]). t_id x \<noteq> (lit ''t1'')})
      \<and> (\<exists>s'. bring_down mem_tenants [((lit ''t1''), sample_tenant)] {} (lit ''t1'') = ({} - {(lit ''t1'')}, Inr (s', t\<lparr>t_status := SUSPENDED\<rparr>)) \<and> store_ok t_id s'
          \<and> set (mem_list_all s') = insert (t\<lparr>t_status := SUSPENDED\<rparr>) {x \<in> set (mem_list_all [((lit ''t1''), sample_tenant)]). t_id x \<noteq> (lit ''t1'')})"
  by (rule supervisor_transitions) (simp add: store_ok_def dict_ok_def sample_tenant_def new_tenant_def)

text \<open>
  A human is called whatever the spelling: if a keyword is enabled and some piece of the message
  folds to it (upper case, accents), the message escalates, wherever the piece stands.
\<close>

theorem handoff_any_spelling:
  assumes "hc_enabled c" and "k \<in> set (hc_keywords c)" and "normalize k \<noteq> []"
    and "fold_text x = normalize k"
  shows "hd_escalate (evaluate (a @ x @ b) (Some c))"
  using assms by (rule evaluate_spelling)

lemma handoff_any_spelling_witness:
  "hd_escalate (evaluate ((lit ''quiero un '') @ (lit ''HUM'' @ [193] @ lit ''NO'') @ (lit ''!'')) (Some (default_handoff\<lparr>hc_enabled := True, hc_keywords := [(lit ''humano'')]\<rparr>)))"
  by (rule handoff_any_spelling[where k = "(lit ''humano'')"])
     (simp_all add: default_handoff_def normalize_def fold_text_def base_letter_def combining_mark_def string_eval)

text \<open>
  A synchronisation ends in one of three ways. The rows are stored and the source records the
  success; the adapter fails, no item changes, and the source records the failure with its
  message cut to 500 characters; or another exception escapes and nothing at all changes.
\<close>

theorem sync_bookkeeping:
  assumes "store_ok ds_id ss" and "src_get ss i = Some source" and "ds_id source = i"
  shows "(\<forall>raws kind. fetch http sp source = Inr raws \<longrightarrow> kind_of_config (ds_config source) = Inr kind \<longrightarrow>
      sync http sp sha uids now d ss i =
        (store_raws sha source kind now uids d raws,
         dset ss i (source\<lparr>ds_last_synced_at := Some now, ds_last_sync_ok := Some True,
             ds_last_sync_count := Some (int (length raws)), ds_last_sync_error := None\<rparr>),
         Inr \<lparr>sr_source_id = i, sr_ok = True, sr_item_count = int (length raws), sr_error = None\<rparr>))
    \<and> (\<forall>m. fetch http sp source = Inl (AdapterError m) \<longrightarrow>
      sync http sp sha uids now d ss i =
        (d, dset ss i (source\<lparr>ds_last_synced_at := Some now, ds_last_sync_ok := Some False,
             ds_last_sync_count := Some 0, ds_last_sync_error := Some (take 500 m)\<rparr>),
         Inr \<lparr>sr_source_id = i, sr_ok = False, sr_item_count = 0, sr_error = Some (take 500 m)\<rparr>))
    \<and> (\<forall>d' ss' e. sync http sp sha uids now d ss i = (d', ss', Inl e) \<longrightarrow> d' = d \<and> ss' = ss)"
proof (intro conjI allI impI)
  fix d' ss' e
  assume "sync http sp sha uids now d ss i = (d', ss', Inl e)"
  from sync_raises_unchanged[OF assms(1) this] show "d' = d" "ss' = ss" by simp_all
qed (rule sync_success[OF assms(2,3)] sync_adapter_error[OF assms(2,3)]; assumption)+

lemma sync_bookkeeping_witness:
  "\<exists>m ss'. sync (\<lambda>_ _ _. Inl (lit ''down'')) sample_soup id (\<lambda>n. nat_digits n) 5 [] [((lit ''s1''), sample_source)] (lit ''s1'')
     = ([], ss', Inr \<lparr>sr_source_id = (lit ''s1''), sr_ok = False, sr_item_count = 0, sr_error = Some (take 500 m)\<rparr>)"
proof -
  have s: "store_ok ds_id [((lit ''s1''), sample_source)]" "src_get [((lit ''s1''), sample_source)] (lit ''s1'') = Some sample_source"
      "ds_id sample_source = (lit ''s1'')"
    by (simp_all add: store_ok_def dict_ok_def sample_source_def src_get_def)
  obtain m where "fetch (\<lambda>_ _ _. Inl (lit ''down'')) sample_soup sample_source = Inl (AdapterError m)"
    by (rule that[of "(lit ''JsonApiDataSource requires config.url'')"]) code_simp
  with sync_bookkeeping[OF s, of "\<lambda>_ _ _. Inl (lit ''down'')" sample_soup id "\<lambda>n. nat_digits n" 5 "[]"]
  show ?thesis by blast
qed

text \<open>
  Schema discovery computes the statistics it reports: on rows whose data has distinct keys, the
  fields are exactly the keys that occur, each once, most present first and by name within a
  tie; each has the fraction of rows with the key, is numeric when at least 70 percent of those
  rows hold a number, and keeps at most 4 examples of at most 60 characters.
\<close>

theorem schema_statistics:
  assumes "\<And>r. r \<in> set sample \<Longrightarrow> dict_ok (re_data r)"
  shows "distinct (map ff_name (schema_of sample))
    \<and> set (map ff_name (schema_of sample)) = (\<Union>r \<in> set sample. set (dkeys (re_data r)))
    \<and> sorted (map (\<lambda>f. (- ff_presence f, ff_name f)) (schema_of sample))
    \<and> (\<forall>f \<in> set (schema_of sample).
        ff_presence f = of_nat (rows_with (ff_name f) sample) / of_nat (length sample)
        \<and> (ff_is_numeric f \<longleftrightarrow>
             of_nat (numeric_rows (ff_name f) sample) / of_nat (rows_with (ff_name f) sample) \<ge> (7 / 10 :: rat))
        \<and> length (ff_example_values f) \<le> 4 \<and> (\<forall>x \<in> set (ff_example_values f). length x \<le> 60))"
  by (intro conjI ballI schema_sorted schema_names[THEN conjunct1] schema_names[THEN conjunct2]
      schema_field[OF assms]) assumption+

lemma schema_statistics_witness:
  "distinct (map ff_name (schema_of [sample_item]))
    \<and> set (map ff_name (schema_of [sample_item])) = (\<Union>r \<in> set [sample_item]. set (dkeys (re_data r)))"
proof -
  have "dict_ok (re_data r)" if "r \<in> set [sample_item]" for r
    using that by (simp add: sample_item_def sample_raw_def dict_ok_def)
  from schema_statistics[OF this] show ?thesis by blast
qed

text \<open>
  Knowledge is separated by tenant. A query for a tenant returns only facts of that tenant that
  contain the query, and depends on no fact of another; ingesting a file appends exactly the
  facts it produced, to that tenant's facts only.
\<close>

theorem knowledge_isolated:
  assumes "process ex uids now store p t l = (store', r)"
  shows "(\<forall>f \<in> set (query_facts fs q (Some t') k).
       f \<in> set fs \<and> f_tenant_id f = t' \<and> contains (strip (lower q)) (lower (f_content f)))
    \<and> query_facts (filter (\<lambda>f. f_tenant_id f = t') fs) q (Some t') k = query_facts fs q (Some t') k
    \<and> all_for store' t' = all_for store t' @ (if t' = t then (case r of Inl _ \<Rightarrow> [] | Inr new \<Rightarrow> new) else [])"
  using query_mem query_isolated process_tenant[OF assms] by blast

lemma knowledge_isolated_witness:
  "\<exists>store' r. process [] (\<lambda>n. nat_digits n) 0 [] (lit ''a.txt'') (lit ''t1'') None = (store', r)
    \<and> all_for store' (lit ''t2'') = all_for [] (lit ''t2'')"
proof -
  obtain store' r where run: "process [] (\<lambda>n. nat_digits n) 0 [] (lit ''a.txt'') (lit ''t1'') None = (store', r)"
    by (cases "process [] (\<lambda>n. nat_digits n) 0 [] (lit ''a.txt'') (lit ''t1'') None")
  from knowledge_isolated[OF run, where t' = "(lit ''t2'')"] run show ?thesis by auto
qed

text \<open>
  The resource search and the learning hints are best effort: whatever they raise, a turn
  succeeds whenever memory, the knowledge base and the model answer.
\<close>

theorem turn_survives_side_services:
  assumes "pt_recall P b (Some (pt_history_turns P)) = Inr history"
    and "pt_facts P message (t_id t) (pt_rag_top_k P) = Inr facts"
    and "\<And>prompt. \<exists>reply. pt_llm P prompt (t_model t) = Inr reply"
  shows "\<exists>turn. respond P t b message cfg = Inr turn"
  using assms by (rule respond_best_effort)

lemma turn_survives_side_services_witness:
  "\<exists>turn. respond (sample_ports\<lparr>pt_search := Some (\<lambda>_ _ _ _. Inl (ValueError (lit ''x''))), pt_hints := Some (\<lambda>_. Inl (KeyError (lit ''y'')))\<rparr>)
     sample_tenant (lit ''b'') (lit ''hola'') None = Inr turn"
  by (rule turn_survives_side_services) (auto simp: sample_ports_def)

text \<open>
  The OpenRouter adapter returns the text at choices[0].message.content of a 2xx or 3xx JSON
  response; everything else is an LLMError, except that a JSON value of the wrong type on the
  path raises TypeError.
\<close>

theorem openrouter_outcomes:
  "case openrouter_complete post base hs ms model mt temp of
     Inr r \<Rightarrow> lr_model r = model \<and> (\<exists>resp data choice.
       post (base @ (lit ''/chat/completions'')) (request_body ms model mt temp) hs = Inr resp
       \<and> cr_status resp < 400 \<and> cr_json resp = Inr data \<and> choice_of data = Inr choice \<and> lr_text r = py_str choice)
   | Inl e \<Rightarrow> (\<exists>m. e = LLMError m) \<or> (\<exists>m. e = TypeError m)"
  using openrouter_reply[of post base hs ms model mt temp] openrouter_errors[of post base hs ms model mt temp]
  by (auto split: sum.splits)

text \<open>
  The bridge between the old and the new environment prefix never changes a variable that is
  set, and afterwards every variable is visible under both prefixes or under neither, with the
  value set, the explicit one where both were set differently.
\<close>

theorem environment_bridged:
  assumes "dict_ok env"
  shows "(\<forall>v. dget env k = Some v \<longrightarrow> dget (apply_env env) k = Some v)
    \<and> (mirror_key k = Some m \<longrightarrow>
        (dget (apply_env env) k = None \<longleftrightarrow> dget (apply_env env) m = None)
        \<and> (dget env k = None \<longrightarrow> dget (apply_env env) k = dget env m))"
  using mirror_back[of k m] by (auto simp: apply_get[OF assms] split: option.split)

lemma environment_bridged_witness: "dget (apply_env [((lit ''WASELLER_X''), (lit ''1''))]) (lit ''WASELLER_X'') = Some (lit ''1'')"
  using environment_bridged[of "[((lit ''WASELLER_X''), (lit ''1''))]" "(lit ''WASELLER_X'')"] by (auto simp: dict_ok_def dkeys_def)

text \<open>
  The Postgres tenant repository keeps the promises onboarding relies on: on a table with unique
  identifiers and slugs, a run returns, takes no error branch (no unique key is ever violated),
  and ends with a tenant that owns the phone number in a table that still has unique identifiers
  and slugs.
\<close>

theorem onboarding_on_postgres:
  assumes "tenant_rows_ok rows" and "row_find t_id rows uid = None"
  shows "\<exists>rows' r' b' t new. onboarding_run pg_tenants rows r b uid now tm p = Some (rows', r', b', Inr (t, new))
    \<and> t_phone_number_id t = Some (mp_phone_number_id p) \<and> tenant_rows_ok rows' \<and> t \<in> set rows'
    \<and> (new \<longleftrightarrow> Some (mp_phone_number_id p) \<notin> t_phone_number_id ` set rows)"
  using pg_repo.onboarding_returns[of rows uid r b now tm p] assms by (simp add: pg_tenant_list_all_def)

lemma onboarding_on_postgres_witness:
  "\<exists>rows r b t new. onboarding_run pg_tenants [] {} empty_bus (lit ''u1'') 0 0 sample_signup = Some (rows, r, b, Inr (t, new))
    \<and> tenant_rows_ok rows"
  using onboarding_on_postgres[of "[]" "(lit ''u1'')" "{}" empty_bus 0 0 sample_signup]
  by (auto simp: tenant_rows_ok_def pk_ok_def row_find_def)

text \<open>
  A tenant's SOUL and handoff configurations survive the database: reading a JSON column gives
  back exactly the configuration written, NULL for none, whether the driver returns the value or
  its text.
\<close>

theorem tenant_columns_round_trip:
  "cell_to_soul (soul_to_cell x) = Inr x \<and> cell_to_handoff (handoff_to_cell y) = Inr y
   \<and> cell_to_soul (Some (JStr (dumps False (soul_json c)))) = Inr (Some c)
   \<and> cell_to_handoff (Some (JStr (dumps False (handoff_json h)))) = Inr (Some h)"
  using cells_back by blast

text \<open>
  One active subscription per tenant is not enforced: the check on subscribing looks at
  authorized subscriptions only, so a tenant with two pending ones can have both authorized by
  their webhooks. A run of the service reaches two authorized subscriptions of one tenant.
\<close>

theorem two_active_subscriptions:
  "\<exists>B d a b. (billing_step B)\<^sup>*\<^sup>* [] d \<and> a \<in> set (dvalues d) \<and> b \<in> set (dvalues d) \<and> su_id a \<noteq> su_id b
    \<and> su_tenant_id a = su_tenant_id b \<and> su_status a = AUTHORIZED \<and> su_status b = AUTHORIZED"
  by (rule two_active)

text \<open>
  With a secret configured, a webhook is accepted exactly when its header carries a timestamp
  and a v1 value equal to the HMAC of the canonical string for that timestamp; a header in the
  documented form whose v1 is that HMAC is accepted.
\<close>

theorem mp_signature_exact:
  assumes "secret \<noteq> []"
  shows "(verify_mp_signature hmac secret header rid did = Inr True \<longleftrightarrow>
      (\<exists>ts v. dget (signature_parts header) (lit ''ts'') = Some ts \<and> dget (signature_parts header) (lit ''v1'') = Some v
         \<and> ts \<noteq> [] \<and> v \<noteq> [] \<and> \<not> (\<exists>c \<in> set v. c > 127) \<and> v = hmac secret (mp_canonical did rid ts)))
    \<and> (44 \<notin> set ts \<and> 44 \<notin> set h \<and> strip ts = ts \<and> strip h = h \<and> ts \<noteq> [] \<and> h \<noteq> []
         \<and> \<not> (\<exists>c \<in> set h. c > 127) \<and> h = hmac secret (mp_canonical did rid ts)
       \<longrightarrow> verify_mp_signature hmac secret (signed_header ts h) rid did = Inr True)"
  using verify_accepts[OF assms, of hmac header rid did] verify_accepts[OF assms, of hmac "signed_header ts h" rid did]
    signed_header_parts[of ts h]
  by blast

lemma mp_signature_exact_witness:
  "verify_mp_signature (\<lambda>_ _. (lit ''beef'')) (lit ''k'') (signed_header (lit ''17'') (lit ''beef'')) (lit ''r'') (lit ''d'') = Inr True"
  using mp_signature_exact[of "(lit ''k'')" "\<lambda>_ _. (lit ''beef'')" "[]" "(lit ''r'')" "(lit ''d'')" "(lit ''17'')" "(lit ''beef'')"]
  by (simp add: string_eval)

text \<open>
  Whatever the model answers, applying an extraction touches only the contact it was made for
  and new items of the same tenant: every other item stays, a new item is a task or an activity,
  and the fields the recorder owns (phone, first and last contact, turn count, source) keep
  their values.
\<close>

theorem extraction_scoped:
  assumes "apply_extraction d uids now t cid r = Inr d'" and "store_ok re_id d" and "inj uids"
    and "\<And>m. dget d (uids m) = None" and "\<And>c. res_get d cid = Some c \<Longrightarrow> re_source_id c = None"
  shows "store_ok re_id d' \<and> {x \<in> set (dvalues d). re_id x \<noteq> cid} \<subseteq> set (dvalues d')
    \<and> (\<forall>x \<in> set (dvalues d') - set (dvalues d). re_tenant_id x = t \<and>
        (if re_id x = cid
         then \<exists>c. res_get d cid = Some c \<and> (\<forall>k \<in> set protected_contact_fields. dget (re_data x) k = dget (re_data c) k)
         else re_kind x \<in> {task_kind, activity_kind}))"
  using apply_scoped[OF assms] unfolding extraction_change_def .

lemma extraction_scoped_witness:
  "\<exists>d'. apply_extraction [((lit ''c1''), sample_contact)] sample_uids 5 (lit ''t1'') (lit ''c1'') sample_extraction = Inr d'
     \<and> store_ok re_id d'"
proof -
  let ?d = "[((lit ''c1''), sample_contact)]"
  have ok: "store_ok re_id ?d" by (simp add: store_ok_def dict_ok_def sample_contact_def)
  obtain d' where d': "apply_extraction ?d sample_uids 5 (lit ''t1'') (lit ''c1'') sample_extraction = Inr d'"
    using sample_apply by blast
  have "store_ok re_id d' \<and> {x \<in> set (dvalues ?d). re_id x \<noteq> (lit ''c1'')} \<subseteq> set (dvalues d')
    \<and> (\<forall>x \<in> set (dvalues d') - set (dvalues ?d). re_tenant_id x = (lit ''t1'') \<and>
        (if re_id x = (lit ''c1'')
         then \<exists>c. res_get ?d (lit ''c1'') = Some c \<and> (\<forall>k \<in> set protected_contact_fields. dget (re_data x) k = dget (re_data c) k)
         else re_kind x \<in> {task_kind, activity_kind}))"
    by (rule extraction_scoped[OF d' ok sample_uids_inj])
      (simp_all add: sample_uids_fresh res_get_def sample_contact_def split: if_splits)
  with d' show ?thesis by blast
qed

text \<open>
  On payloads of the shape Meta documents, the phone number found is the first one present, and
  the messages returned are exactly the text messages of all entries and changes, in order, each
  with the last profile name sent for its number; other message types are skipped.
\<close>

theorem webhook_parse_exact:
  "extract_phone_number_id (meta_json entries) =
     Inr (map_option wc_phone_id (find (\<lambda>c. wc_phone_id c \<noteq> []) (concat entries)))
   \<and> parse_messages t now (meta_json entries) = Inr (concat (map (\<lambda>cs. concat (map (texts_of t now) cs)) entries))"
  using phone_exact parse_exact by blast

text \<open>
  A delivery passes the signature check exactly when its header is the prefix followed by the
  HMAC of its body under the application secret, and the handshake answers the challenge exactly
  when the mode is subscribe and the tokens agree; what is not ASCII is never accepted.
\<close>

theorem webhook_signature_exact:
  "(verify_signature hmac secret body header = Inr True \<longleftrightarrow>
      header = signature_prefix @ hmac secret body \<and> (\<forall>c. c \<in> set (hmac secret body) \<longrightarrow> c \<le> 127))
   \<and> (verify_subscription expected mode tok challenge = Inr (Some x) \<longleftrightarrow>
      mode = (lit ''subscribe'') \<and> tok = expected \<and> x = challenge \<and> (\<forall>c. c \<in> set expected \<longrightarrow> c \<le> 127))"
  unfolding signature_exact verify_subscription_def compare_digest_def by (auto simp: not_le)

lemma webhook_signature_exact_witness:
  "verify_signature (\<lambda>_ _. (lit ''ab12'')) (lit ''k'') [1, 2] ((lit ''sha256='') @ (lit ''ab12'')) = Inr True"
  using webhook_signature_exact[of "\<lambda>_ _. (lit ''ab12'')" "(lit ''k'')" "[1, 2]" "(lit ''sha256='') @ (lit ''ab12'')"]
  by (auto simp: signature_prefix_def lit_def)

text \<open>
  However a conversation goes, the sales closer reaches the notification or the closed stage
  only after a message with one of the payment words arrived in the confirmation stage, the
  closed and escalated stages are final, and more messages never take a conversation back in the
  order of the stages.
\<close>

theorem closing_needs_payment:
  "(converse IDENTIFY ms \<in> {NOTIFY, CLOSED} \<longrightarrow>
     (\<exists>i < length ms. converse IDENTIFY (take i ms) = CONFIRM \<and> any_in payment_words (lower (ms ! i))))
   \<and> (s \<in> {CLOSED, ESCALATED} \<longrightarrow> converse s ms = s)
   \<and> converse s ms \<le> converse s (ms @ ms')"
  using notify_needs_payment converse_terminal converse_forward by blast

lemma closing_needs_payment_witness:
  "\<exists>i < 4. any_in payment_words (lower ([(lit ''hola''), (lit ''una silla''), (lit ''OK listo''), (lit ''gracias'')] ! i))"
proof -
  have "converse IDENTIFY [(lit ''hola''), (lit ''una silla''), (lit ''OK listo''), (lit ''gracias'')] = CLOSED"
    by (simp add: converse_def transition_def Let_def any_in_def string_eval)
  then obtain i where "i < length [(lit ''hola''), (lit ''una silla''), (lit ''OK listo''), (lit ''gracias'')]"
    "any_in payment_words (lower ([(lit ''hola''), (lit ''una silla''), (lit ''OK listo''), (lit ''gracias'')] ! i))"
    using closing_needs_payment[of "[(lit ''hola''), (lit ''una silla''), (lit ''OK listo''), (lit ''gracias'')]" CLOSED] by blast
  then show ?thesis by (intro exI[of _ i]) simp
qed

text \<open>
  Qualifying a lead through the skill and judging the goal on what the skill returned comes to
  one threshold: the score is between 0 and 100, and the goal is achieved exactly when it is at
  least 40, the tag never disagreeing with it.
\<close>

theorem goal_matches_score:
  assumes "jget params ''message'' = JStr message" and "strip message \<noteq> []" and "go_type g = QUALIFY"
  shows "\<exists>data r. invoke builtin_skills h now (lit ''lead-qualifier'') context params = (h, Inr (skill_ok data))
    \<and> judge g data = Inr r \<and> gr_achieved r = JBool (40 \<le> lead_score (strip message))
    \<and> gr_score r = of_int (lead_score (strip message)) / 100
    \<and> 0 \<le> lead_score (strip message) \<and> lead_score (strip message) \<le> 100"
  using qualifier_result[OF assms(1,2), of h now "context"] judge_lead[OF _ _ assms(3)] lead_score_range by blast

lemma goal_matches_score_witness:
  "\<exists>data. invoke builtin_skills sample_host 0 (lit ''lead-qualifier'') [] [((lit ''message''), JStr (lit ''hoy''))] = (sample_host, Inr (skill_ok data))"
  using goal_matches_score[of "[((lit ''message''), JStr (lit ''hoy''))]" "(lit ''hoy'')" sample_goal sample_host 0 "[]"]
  by (auto simp: jget_def dget_or_def sample_goal_def string_eval is_space_def)

end
